(* ===== verification/Panel_Prelude.thy ===== *)
theory Panel_Prelude
  imports Main "HOL-Library.Word" "HOL-Library.Sublist"
begin

text \<open>
  The vocabulary that every theory of the development shares: JavaScript code units and
  strings as lists of 16-bit words, the effect type of the panel's asynchronous functions
  (a state is passed, a result or a thrown error comes back), the collections of hints, and
  the generic facts on lists that the component theories use more than once.
\<close>

section \<open>Types\<close>

type_synonym u8 = "8 word"
type_synonym u16 = "16 word"

text \<open>A JavaScript string is a sequence of UTF-16 code units; \<open>length\<close> counts units.\<close>

type_synonym jstr = "u16 list"

text \<open>A literal of the source, written as an ASCII string.\<close>

definition js :: "string \<Rightarrow> jstr" where
  "js s = map of_char s"

named_theorems frame_simps "what an operation leaves unchanged"
named_theorems step_simps "one step of a component, unfolded"

lemma js_Nil [simp]: "js [] = []"
  by (simp add: js_def)

lemma js_Cons [simp]: "js (c # s) = of_char c # js s"
  by (simp add: js_def)

lemma js_length [simp]: "length (js s) = length s"
  by (simp add: js_def)

section \<open>Effects\<close>

text \<open>
  An \<open>async\<close> function of the panel reads and writes a state \<open>'s\<close> and either returns a
  value or throws. \<open>await\<close> is \<open>bindE\<close>, \<open>try .. catch\<close> is \<open>catchE\<close> and
  \<open>try .. finally\<close> is \<open>finallyE\<close>; a thrown error keeps the state changes made before
  it, as in JavaScript.
\<close>

type_synonym ('s, 'e, 'a) eff = "'s \<Rightarrow> ('e + 'a) \<times> 's"

definition retE :: "'a \<Rightarrow> ('s, 'e, 'a) eff" where
  "retE a = (\<lambda>s. (Inr a, s))"

definition throwE :: "'e \<Rightarrow> ('s, 'e, 'a) eff" where
  "throwE e = (\<lambda>s. (Inl e, s))"

definition modE :: "('s \<Rightarrow> 's) \<Rightarrow> ('s, 'e, unit) eff" where
  "modE f = (\<lambda>s. (Inr (), f s))"

definition getE :: "('s \<Rightarrow> ('s, 'e, 'a) eff) \<Rightarrow> ('s, 'e, 'a) eff" where
  "getE f = (\<lambda>s. f s s)"

definition bindE :: "('s, 'e, 'a) eff \<Rightarrow> ('a \<Rightarrow> ('s, 'e, 'b) eff) \<Rightarrow> ('s, 'e, 'b) eff" where
  "bindE m f = (\<lambda>s. case m s of (Inl e, s') \<Rightarrow> (Inl e, s') | (Inr a, s') \<Rightarrow> f a s')"

definition thenE :: "('s, 'e, 'a) eff \<Rightarrow> ('s, 'e, 'b) eff \<Rightarrow> ('s, 'e, 'b) eff" where
  "thenE m n = bindE m (\<lambda>_. n)"

definition catchE :: "('s, 'e, 'a) eff \<Rightarrow> ('e \<Rightarrow> ('s, 'e, 'a) eff) \<Rightarrow> ('s, 'e, 'a) eff" where
  "catchE m h = (\<lambda>s. case m s of (Inl e, s') \<Rightarrow> h e s' | (Inr a, s') \<Rightarrow> (Inr a, s'))"

definition finallyE :: "('s, 'e, 'a) eff \<Rightarrow> ('s \<Rightarrow> 's) \<Rightarrow> ('s, 'e, 'a) eff" where
  "finallyE m f = (\<lambda>s. let (r, s') = m s in (r, f s'))"

text \<open>A \<open>for .. of\<close> loop whose body awaits: the first error ends it.\<close>

fun eachE :: "('a \<Rightarrow> ('s, 'e, unit) eff) \<Rightarrow> 'a list \<Rightarrow> ('s, 'e, unit) eff" where
  "eachE f [] = retE ()"
| "eachE f (x # xs) = thenE (f x) (eachE f xs)"

lemmas eff_defs = retE_def throwE_def modE_def getE_def bindE_def thenE_def catchE_def finallyE_def

text \<open>The effects form a monad: sequencing is associative and has \<open>retE\<close> as its unit.\<close>

lemma bindE_ret_left [simp]: "bindE (retE a) f = f a"
  by (simp add: eff_defs)

lemma bindE_ret_right [simp]: "bindE m retE = m"
  by (auto simp: eff_defs fun_eq_iff split: prod.splits sum.splits)

lemma bindE_assoc: "bindE (bindE m f) g = bindE m (\<lambda>x. bindE (f x) g)"
  by (auto simp: eff_defs fun_eq_iff split: prod.splits sum.splits)

section \<open>Lists\<close>

lemma takeWhile_all_append: "\<forall>x \<in> set xs. P x \<Longrightarrow> takeWhile P (xs @ ys) = xs @ takeWhile P ys"
  by (induction xs) auto

lemma dropWhile_all_append: "\<forall>x \<in> set xs. P x \<Longrightarrow> dropWhile P (xs @ ys) = dropWhile P ys"
  by (induction xs) auto

lemma butlast_append_last: "xs \<noteq> [] \<Longrightarrow> butlast (xs @ ys) = (if ys = [] then butlast xs else xs @ butlast ys)"
  by (simp add: butlast_append)

lemma prefix_drop_append: "prefix p s \<Longrightarrow> drop (length p) (s @ t) = drop (length p) s @ t"
  by (auto simp: prefix_def)

lemma prefix_take_length: "prefix p s \<Longrightarrow> p @ drop (length p) s = s"
  by (auto simp: prefix_def)

text \<open>Removing the element at a position, as the chips of the composer do.\<close>

definition remove_at :: "nat \<Rightarrow> 'a list \<Rightarrow> 'a list" where
  "remove_at i xs = take i xs @ drop (Suc i) xs"

lemma length_remove_at: "i < length xs \<Longrightarrow> length (remove_at i xs) = length xs - 1"
  by (simp add: remove_at_def)

lemma set_remove_at: "set (remove_at i xs) \<subseteq> set xs"
  by (auto simp: remove_at_def dest: in_set_takeD in_set_dropD)

lemma remove_at_split:
  assumes "i < length xs"
  obtains ys zs where "xs = ys @ xs ! i # zs" "remove_at i xs = ys @ zs"
  using assms that [of "take i xs" "drop (Suc i) xs"] by (simp add: remove_at_def id_take_nth_drop)

lemma in_set_remove_at: "x \<in> set xs \<Longrightarrow> x \<noteq> xs ! i \<Longrightarrow> x \<in> set (remove_at i xs)"
proof -
  assume "x \<in> set xs" "x \<noteq> xs ! i"
  then obtain j where j: "j < length xs" "x = xs ! j" "j \<noteq> i" by (auto simp: in_set_conv_nth)
  show ?thesis
  proof (cases "j < i")
    case True
    then have "x \<in> set (take i xs)" using j by (auto simp: in_set_conv_nth)
    then show ?thesis by (simp add: remove_at_def)
  next
    case False
    then have "drop (Suc i) xs ! (j - Suc i) = x" "j - Suc i < length (drop (Suc i) xs)" using j by auto
    then have "x \<in> set (drop (Suc i) xs)" by (metis nth_mem)
    then show ?thesis by (simp add: remove_at_def)
  qed
qed

lemma set_remove_at_insert: "set xs \<subseteq> insert (xs ! i) (set (remove_at i xs))"
  using in_set_remove_at by fastforce

text \<open>\<open>xs.find\<close> and \<open>xs[0]\<close>: \<open>undefined\<close> is \<open>None\<close>.\<close>

definition head_opt :: "'a list \<Rightarrow> 'a option" where
  "head_opt xs = (case xs of [] \<Rightarrow> None | x # _ \<Rightarrow> Some x)"

lemma head_opt_simps [simp]: "head_opt [] = None" "head_opt (x # xs) = Some x"
  by (simp_all add: head_opt_def)

lemma head_opt_Some: "head_opt xs = Some x \<longleftrightarrow> (\<exists>ys. xs = x # ys)"
  by (cases xs) auto

lemma find_Some_in: "List.find P xs = Some x \<Longrightarrow> x \<in> set xs \<and> P x"
  by (auto simp: find_Some_iff)

lemma find_None_iff_all: "List.find P xs = None \<longleftrightarrow> (\<forall>x \<in> set xs. \<not> P x)"
  by (auto simp: find_None_iff)

end
