(* ===== verification/Js_String.thy ===== *)
theory Js_String
  imports Panel_Prelude
begin

text \<open>
  The string operations of the JavaScript standard library that the panel calls:
  \<open>startsWith\<close>, \<open>endsWith\<close>, \<open>includes\<close>, \<open>indexOf\<close>, \<open>slice\<close>, \<open>trim\<close>, \<open>split\<close>, \<open>join\<close>
  and the decimal conversions. All of them count UTF-16 code units.
\<close>

section \<open>Code units\<close>

abbreviation (input) nl :: u16 where "nl \<equiv> 10"

text \<open>
  The units \<open>trim\<close> and the class \<open>\s\<close> of a regular expression skip: ECMAScript
  \<open>WhiteSpace\<close> and \<open>LineTerminator\<close>.
\<close>

definition is_ws :: "u16 \<Rightarrow> bool" where
  "is_ws c \<longleftrightarrow> 9 \<le> c \<and> c \<le> 13 \<or> c = 0x20 \<or> c = 0xA0 \<or> c = 0x1680 \<or> 0x2000 \<le> c \<and> c \<le> 0x200A
     \<or> c = 0x2028 \<or> c = 0x2029 \<or> c = 0x202F \<or> c = 0x205F \<or> c = 0x3000 \<or> c = 0xFEFF"

definition is_line_end :: "u16 \<Rightarrow> bool" where
  "is_line_end c \<longleftrightarrow> c = 10 \<or> c = 13 \<or> c = 0x2028 \<or> c = 0x2029"

definition is_digit :: "u16 \<Rightarrow> bool" where
  "is_digit c \<longleftrightarrow> 0x30 \<le> c \<and> c \<le> 0x39"

lemma is_line_end_ws: "is_line_end c \<Longrightarrow> is_ws c"
  by (auto simp: is_line_end_def is_ws_def)

section \<open>Trimming\<close>

definition trim_start :: "jstr \<Rightarrow> jstr" where
  "trim_start s = dropWhile is_ws s"

definition trim_end :: "jstr \<Rightarrow> jstr" where
  "trim_end s = rev (dropWhile is_ws (rev s))"

definition trim :: "jstr \<Rightarrow> jstr" where
  "trim s = trim_end (trim_start s)"

definition trimmed :: "jstr \<Rightarrow> bool" where
  "trimmed s \<longleftrightarrow> s = [] \<or> \<not> is_ws (hd s) \<and> \<not> is_ws (last s)"

lemma trim_Nil [simp]: "trim [] = []"
  by (simp add: trim_def trim_end_def trim_start_def)

lemma trim_end_append_ws: "\<forall>c \<in> set w. is_ws c \<Longrightarrow> trim_end (s @ w) = trim_end s"
  by (simp add: trim_end_def dropWhile_all_append)

lemma trim_append_ws: "\<forall>c \<in> set w. is_ws c \<Longrightarrow> trim (s @ w) = trim s"
proof (induction s)
  case Nil
  then show ?case by (auto simp: trim_def trim_end_def trim_start_def dest: set_dropWhileD)
next
  case (Cons c s)
  then show ?case
    using trim_end_append_ws [of w "c # s"]
    by (cases "is_ws c") (simp_all add: trim_def trim_start_def)
qed

lemma dropWhile_keep: "s \<noteq> [] \<Longrightarrow> \<not> P (hd s) \<Longrightarrow> dropWhile P s = s"
  by (cases s) simp_all

lemma trim_trimmed: "trimmed s \<Longrightarrow> trim s = s"
  by (cases "s = []")
    (simp_all add: trimmed_def trim_def trim_start_def trim_end_def dropWhile_keep hd_rev)

lemma trim_start_trimmed_hd: "trim_start s = [] \<or> \<not> is_ws (hd (trim_start s))"
  by (metis hd_dropWhile trim_start_def)

lemma trimmed_trim: "trimmed (trim s)"
proof (cases "trim s = []")
  case True
  then show ?thesis by (simp add: trimmed_def)
next
  case False
  define t where "t = trim_start s"
  have split: "t = trim_end t @ rev (takeWhile is_ws (rev t))"
    by (simp add: trim_end_def flip: rev_append)
  have ne: "trim_end t \<noteq> []" using False by (simp add: trim_def t_def)
  with split have "hd (trim_end t) = hd t" by (metis hd_append2)
  moreover from ne split have "t \<noteq> []" by auto
  ultimately have "\<not> is_ws (hd (trim_end t))"
    using trim_start_trimmed_hd [of s] by (simp add: t_def)
  moreover have "\<not> is_ws (last (trim_end t))"
    using ne hd_dropWhile [of is_ws "rev t"] by (simp add: trim_end_def last_rev)
  ultimately show ?thesis using ne by (simp add: trimmed_def trim_def t_def)
qed

lemma trim_idem [simp]: "trim (trim s) = trim s"
  by (rule trim_trimmed [OF trimmed_trim])

lemma trim_eq_Nil: "trim s = [] \<longleftrightarrow> (\<forall>c \<in> set s. is_ws c)"
proof
  assume "trim s = []"
  then have "dropWhile is_ws (rev (dropWhile is_ws s)) = []"
    by (simp add: trim_def trim_end_def trim_start_def)
  then have "\<forall>c \<in> set (dropWhile is_ws s). is_ws c"
    by (auto simp: dropWhile_eq_Nil_conv)
  then have "dropWhile is_ws s = []"
    by (metis hd_dropWhile hd_in_set)
  then show "\<forall>c \<in> set s. is_ws c"
    by (auto simp: dropWhile_eq_Nil_conv)
next
  assume "\<forall>c \<in> set s. is_ws c"
  then have "trim ([] @ s) = trim []" by (intro trim_append_ws)
  then show "trim s = []" by simp
qed

section \<open>Searching\<close>

definition starts_with :: "jstr \<Rightarrow> jstr \<Rightarrow> bool" where
  "starts_with s p = prefix p s"

definition ends_with :: "jstr \<Rightarrow> jstr \<Rightarrow> bool" where
  "ends_with s p = suffix p s"

definition js_includes :: "jstr \<Rightarrow> jstr \<Rightarrow> bool" where
  "js_includes s p = sublist p s"

text \<open>\<open>cut_at sep s\<close> splits \<open>s\<close> around the leftmost occurrence of \<open>sep\<close>.\<close>

fun cut_at :: "'a list \<Rightarrow> 'a list \<Rightarrow> ('a list \<times> 'a list) option" where
  "cut_at sep [] = (if sep = [] then Some ([], []) else None)"
| "cut_at sep (c # cs) =
     (if prefix sep (c # cs) then Some ([], drop (length sep) (c # cs))
      else map_option (\<lambda>(a, b). (c # a, b)) (cut_at sep cs))"

lemma cut_at_Some: "cut_at sep s = Some (a, b) \<Longrightarrow> s = a @ sep @ b"
  by (induction sep s arbitrary: a b rule: cut_at.induct)
    (auto split: if_splits simp: prefix_take_length dest: prefix_take_length)

lemma cut_at_None: "cut_at sep s = None \<longleftrightarrow> \<not> sublist sep s"
  by (induction sep s rule: cut_at.induct) (auto simp: sublist_Cons_right)

lemma cut_at_leftmost: "cut_at sep s = Some (a, b) \<Longrightarrow> sep \<noteq> [] \<Longrightarrow> \<not> sublist sep (a @ butlast sep)"
proof (induction sep s arbitrary: a b rule: cut_at.induct)
  case (1 sep)
  then show ?case by (simp split: if_splits)
next
  case (2 sep c cs)
  show ?case
  proof (cases "prefix sep (c # cs)")
    case True
    with "2.prems" have a: "a = []" by simp
    have "length (butlast sep) < length sep" using "2.prems"(2) by simp
    then show ?thesis using a sublist_length_le [of sep "butlast sep"] by auto
  next
    case False
    with "2.prems" obtain a' where a: "a = c # a'" and cut: "cut_at sep cs = Some (a', b)" by auto
    have IH: "\<not> sublist sep (a' @ butlast sep)"
      using "2.IH" False cut "2.prems"(2) by blast
    have "\<not> prefix sep (c # a' @ butlast sep)"
    proof
      assume p: "prefix sep (c # a' @ butlast sep)"
      have "c # cs = (c # a' @ butlast sep) @ last sep # b"
        using cut_at_Some [OF cut] "2.prems"(2) by simp
      with p have "prefix sep (c # cs)" by (metis prefix_append)
      with False show False by simp
    qed
    with IH a show ?thesis by (simp add: sublist_Cons_right)
  qed
qed

lemma cut_at_append: "cut_at sep s = Some (a, b) \<Longrightarrow> cut_at sep (s @ t) = Some (a, b @ t)"
proof (induction sep s arbitrary: a b rule: cut_at.induct)
  case (1 sep)
  then show ?case by (cases t) (auto split: if_splits)
next
  case (2 sep c cs)
  show ?case
  proof (cases "prefix sep (c # cs)")
    case True
    with "2.prems" have "a = []" and "b = drop (length sep) (c # cs)" by auto
    moreover from True have "prefix sep (c # cs @ t)"
      by (metis append_Cons prefix_append)
    moreover from True have "drop (length sep) ((c # cs) @ t) = drop (length sep) (c # cs) @ t"
      by (rule prefix_drop_append)
    ultimately show ?thesis by simp
  next
    case False
    with "2.prems" obtain a' where a: "a = c # a'" and cut: "cut_at sep cs = Some (a', b)" by auto
    have "\<not> prefix sep (c # cs @ t)"
    proof
      assume p: "prefix sep (c # cs @ t)"
      have "length sep \<le> length (c # cs)" using cut_at_Some [OF cut] by simp
      with p have "prefix sep (c # cs)"
        by (metis append_Cons prefix_length_prefix prefixI)
      with False show False by simp
    qed
    with a "2.IH" [OF False cut] show ?thesis by simp
  qed
qed

text \<open>The leftmost occurrence is unique: anything before it that holds none is the cut.\<close>

lemma cut_at_here:
  assumes "sep \<noteq> []" and "\<not> sublist sep (a @ butlast sep)"
  shows "cut_at sep (a @ sep @ b) = Some (a, b)"
  using assms(2)
proof (induction a)
  case Nil
  show ?case using assms(1) by (cases sep) simp_all
next
  case (Cons c a)
  have "\<not> prefix sep (c # a @ sep @ b)"
  proof
    assume p: "prefix sep (c # a @ sep @ b)"
    have "length sep \<le> length (c # a @ butlast sep)" using assms(1) by simp
    moreover have "prefix (c # a @ butlast sep) (c # a @ sep @ b)"
      by (metis append_butlast_last_id append.assoc assms(1) append_Cons prefixI)
    ultimately have "prefix sep (c # a @ butlast sep)"
      using p prefix_length_prefix by blast
    with Cons.prems show False by (auto simp: sublist_Cons_right)
  qed
  moreover from Cons.prems have "cut_at sep (a @ sep @ b) = Some (a, b)"
    by (intro Cons.IH) (auto simp: sublist_Cons_right)
  ultimately show ?case by simp
qed


section \<open>split, join and slice\<close>

text \<open>
  \<open>s.split(sep)\<close> for a separator that is not empty (the panel has no other): cut at the
  leftmost occurrence and go on behind it.
\<close>

function js_split :: "'a list \<Rightarrow> 'a list \<Rightarrow> 'a list list" where
  "js_split sep s =
     (if sep = [] then map (\<lambda>c. [c]) s
      else case cut_at sep s of None \<Rightarrow> [s] | Some (a, b) \<Rightarrow> a # js_split sep b)"
  by pat_completeness auto
termination
  by (relation "measure (\<lambda>(sep, s). length s)") (auto dest!: cut_at_Some)

declare js_split.simps [simp del]

fun js_join :: "'a list \<Rightarrow> 'a list list \<Rightarrow> 'a list" where
  "js_join sep [] = []"
| "js_join sep [x] = x"
| "js_join sep (x # y # ys) = x @ sep @ js_join sep (y # ys)"

lemma sublist_single: "sublist [c] s \<longleftrightarrow> c \<in> set s"
  by (auto simp: sublist_def in_set_conv_decomp)

lemma js_join_Cons: "xs \<noteq> [] \<Longrightarrow> js_join sep (x # xs) = x @ sep @ js_join sep xs"
  by (cases xs) simp_all

lemma js_split_ne [simp]: "sep \<noteq> [] \<Longrightarrow> js_split sep s \<noteq> []"
  by (subst js_split.simps) (simp split: option.split)

lemma js_split_None: "sep \<noteq> [] \<Longrightarrow> \<not> sublist sep s \<Longrightarrow> js_split sep s = [s]"
  by (subst js_split.simps) (simp flip: cut_at_None)

lemma js_split_Some: "sep \<noteq> [] \<Longrightarrow> cut_at sep s = Some (a, b) \<Longrightarrow> js_split sep s = a # js_split sep b"
  by (subst js_split.simps) simp

lemma js_split_here:
  "sep \<noteq> [] \<Longrightarrow> \<not> sublist sep (a @ butlast sep) \<Longrightarrow> js_split sep (a @ sep @ b) = a # js_split sep b"
  by (intro js_split_Some cut_at_here)

text \<open>Joining the pieces gives the string back, and no piece holds the separator.\<close>

lemma js_join_split: "sep \<noteq> [] \<Longrightarrow> js_join sep (js_split sep s) = s"
proof (induction sep s rule: js_split.induct)
  case (1 sep s)
  show ?case
  proof (cases "cut_at sep s")
    case None
    with "1.prems" show ?thesis by (simp add: js_split_None cut_at_None)
  next
    case (Some ab)
    then obtain a b where ab: "cut_at sep s = Some (a, b)" by (cases ab) auto
    with "1.IH" "1.prems" have "js_join sep (js_split sep b) = b" by simp
    with "1.prems" ab cut_at_Some [OF ab] show ?thesis
      by (simp add: js_split_Some js_join_Cons)
  qed
qed

lemma js_split_pieces: "sep \<noteq> [] \<Longrightarrow> x \<in> set (js_split sep s) \<Longrightarrow> \<not> sublist sep x"
proof (induction sep s rule: js_split.induct)
  case (1 sep s)
  show ?case
  proof (cases "cut_at sep s")
    case None
    with "1.prems" show ?thesis by (simp add: js_split_None cut_at_None)
  next
    case (Some ab)
    then obtain a b where ab: "cut_at sep s = Some (a, b)" by (cases ab) auto
    then have "\<not> sublist sep a" using cut_at_leftmost [OF ab "1.prems"(1)] by (auto simp: sublist_append)
    with "1.IH" [OF "1.prems"(1) ab] "1.prems" ab show ?thesis by (auto simp: js_split_Some)
  qed
qed

text \<open>
  Splitting a string that grew: the pieces found so far stay, and only the last one, the
  unfinished piece, is split again together with what was appended. This is what makes an
  incremental reader independent of how its input arrives.
\<close>

lemma js_split_append:
  "sep \<noteq> [] \<Longrightarrow> js_split sep (s @ t) = butlast (js_split sep s) @ js_split sep (last (js_split sep s) @ t)"
proof (induction sep s rule: js_split.induct)
  case (1 sep s)
  show ?case
  proof (cases "cut_at sep s")
    case None
    with "1.prems" show ?thesis by (simp add: js_split_None cut_at_None)
  next
    case (Some ab)
    then obtain a b where ab: "cut_at sep s = Some (a, b)" by (cases ab) auto
    note IH = "1.IH" [OF "1.prems" ab refl]
    have "js_split sep (s @ t) = a # js_split sep (b @ t)"
      using "1.prems" cut_at_append [OF ab] by (simp add: js_split_Some)
    with IH "1.prems" ab show ?thesis by (simp add: js_split_Some)
  qed
qed

text \<open>\<open>s.slice(m, n)\<close> with \<open>0 \<le> m\<close> and \<open>0 \<le> n\<close>.\<close>

definition js_slice :: "nat \<Rightarrow> nat \<Rightarrow> 'a list \<Rightarrow> 'a list" where
  "js_slice m n s = drop m (take n s)"

lemma js_slice_0: "js_slice 0 n s = take n s"
  by (simp add: js_slice_def)

lemma length_js_slice: "length (js_slice m n s) \<le> n - m"
  by (simp add: js_slice_def)

section \<open>Numbers as text\<close>

definition digit :: "nat \<Rightarrow> u16" where
  "digit d = 0x30 + of_nat d"

definition digit_val :: "u16 \<Rightarrow> nat" where
  "digit_val c = unat (c - 0x30)"

fun dec_nat :: "nat \<Rightarrow> jstr" where
  "dec_nat n = (if n < 10 then [digit n] else dec_nat (n div 10) @ [digit (n mod 10)])"

declare dec_nat.simps [simp del]

definition dec_int :: "int \<Rightarrow> jstr" where
  "dec_int i = (if i < 0 then 0x2D # dec_nat (nat (- i)) else dec_nat (nat i))"

text \<open>Reading decimal digits, the inverse of printing.\<close>

definition nat_of_digits :: "jstr \<Rightarrow> nat" where
  "nat_of_digits ds = foldl (\<lambda>n c. 10 * n + digit_val c) 0 ds"

lemma digit_lt: "d < 10 \<Longrightarrow> is_digit (digit d)"
  by (auto simp: is_digit_def digit_def word_le_nat_alt unat_word_ariths unat_of_nat)

lemma digit_val_digit: "d < 10 \<Longrightarrow> digit_val (digit d) = d"
  by (simp add: digit_val_def digit_def unat_of_nat)

lemma dec_nat_digits: "\<forall>c \<in> set (dec_nat n). is_digit c"
proof (induction n rule: dec_nat.induct)
  case (1 n)
  then show ?case by (subst dec_nat.simps) (auto simp: digit_lt)
qed

lemma dec_nat_ne [simp]: "dec_nat n \<noteq> []"
  by (subst dec_nat.simps) simp

lemma nat_of_digits_dec_nat: "nat_of_digits (dec_nat n) = n"
proof (induction n rule: dec_nat.induct)
  case (1 n)
  show ?case
  proof (cases "n < 10")
    case True
    then show ?thesis by (subst dec_nat.simps) (simp add: nat_of_digits_def digit_val_digit)
  next
    case False
    with 1 have "nat_of_digits (dec_nat (n div 10)) = n div 10" by simp
    with False show ?thesis
      by (subst dec_nat.simps) (simp add: nat_of_digits_def digit_val_digit)
  qed
qed

lemma dec_nat_inject [simp]: "dec_nat m = dec_nat n \<longleftrightarrow> m = n"
  by (metis nat_of_digits_dec_nat)

lemma dec_nat_hd_zero: "hd (dec_nat n) = 0x30 \<Longrightarrow> n = 0"
proof (induction n rule: dec_nat.induct)
  case (1 n)
  show ?case
  proof (cases "n < 10")
    case True
    with "1.prems" have "digit n = digit 0" by (subst (asm) dec_nat.simps) (simp add: digit_def)
    with True show ?thesis by (metis digit_val_digit zero_less_numeral)
  next
    case False
    with "1.prems" have "hd (dec_nat (n div 10)) = 0x30" by (subst (asm) dec_nat.simps) simp
    with "1.IH" False show ?thesis by simp
  qed
qed

end
