(* ===== verification/Js_Json.thy ===== *)
theory Js_Json
  imports Js_String
begin

text \<open>
  JSON values, \<open>JSON.stringify\<close> and \<open>JSON.parse\<close>: the format of every request body, response
  body, stream event and stored attachment list of the panel. An integer literal is
  \<open>JInt\<close>; a literal with a fraction or an exponent is kept as its text in \<open>JNum\<close>, since
  no modelled code computes with one. Object members keep their textual order, and a
  repeated key overwrites the earlier value in place.
\<close>

section \<open>Values\<close>

datatype json =
    JNull
  | JBool bool
  | JInt int
  | JNum jstr
  | JStr jstr
  | JArr "json list"
  | JObj "(jstr \<times> json) list"

text \<open>A value an expression can have at run time: \<open>None\<close> is \<open>undefined\<close>.\<close>

type_synonym jval = "json option"

definition nullish :: "jval \<Rightarrow> bool" where
  "nullish v \<longleftrightarrow> v = None \<or> v = Some JNull"

fun truthy :: "jval \<Rightarrow> bool" where
  "truthy None = False"
| "truthy (Some JNull) = False"
| "truthy (Some (JBool b)) = b"
| "truthy (Some (JInt i)) = (i \<noteq> 0)"
| "truthy (Some (JNum t)) = (\<exists>c \<in> set (takeWhile (\<lambda>c. c \<noteq> 0x65 \<and> c \<noteq> 0x45) t). is_digit c \<and> c \<noteq> 0x30)"
| "truthy (Some (JStr s)) = (s \<noteq> [])"
| "truthy (Some (JArr vs)) = True"
| "truthy (Some (JObj ps)) = True"

text \<open>\<open>v.k\<close> on a value that is neither \<open>null\<close> nor \<open>undefined\<close>, and \<open>v?.k\<close>.\<close>

fun jprop :: "jstr \<Rightarrow> json \<Rightarrow> jval" where
  "jprop k (JObj ps) = map_of ps k"
| "jprop k v = None"

definition opt_prop :: "jstr \<Rightarrow> jval \<Rightarrow> jval" where
  "opt_prop k v = (case v of None \<Rightarrow> None | Some j \<Rightarrow> jprop k j)"

text \<open>\<open>v?.[0]\<close>: an array's first element, a string's first code unit, an object's member.\<close>

definition opt_index0 :: "jval \<Rightarrow> jval" where
  "opt_index0 v = (case v of
       Some (JArr vs) \<Rightarrow> head_opt vs
     | Some (JStr s) \<Rightarrow> map_option (\<lambda>c. JStr [c]) (head_opt s)
     | Some (JObj ps) \<Rightarrow> map_of ps (js ''0'')
     | _ \<Rightarrow> None)"

text \<open>The first of several values that is not nullish, \<open>a ?? b\<close>.\<close>

definition or_nullish :: "jval \<Rightarrow> jval \<Rightarrow> jval" where
  "or_nullish a b = (if nullish a then b else a)"

text \<open>Conversion to a string, as \<open>+\<close>, template literals and \<open>setItem\<close> do it.\<close>

fun to_str :: "json \<Rightarrow> jstr" where
  "to_str JNull = js ''null''"
| "to_str (JBool b) = (if b then js ''true'' else js ''false'')"
| "to_str (JInt i) = dec_int i"
| "to_str (JNum t) = t"
| "to_str (JStr s) = s"
| "to_str (JArr vs) =
     js_join (js '','') (map (\<lambda>v. case v of JNull \<Rightarrow> [] | _ \<Rightarrow> to_str v) vs)"
| "to_str (JObj ps) = js ''[object Object]''"

definition val_str :: "jval \<Rightarrow> jstr" where
  "val_str v = (case v of None \<Rightarrow> js ''undefined'' | Some j \<Rightarrow> to_str j)"

lemma opt_prop_simps [simp]:
  "opt_prop k None = None" "opt_prop k (Some j) = jprop k j"
  by (simp_all add: opt_prop_def)

lemma nullish_simps [simp]:
  "nullish None" "nullish (Some JNull)" "\<not> nullish (Some (JStr s))" "\<not> nullish (Some (JObj ps))"
  "\<not> nullish (Some (JArr vs))" "\<not> nullish (Some (JInt i))" "\<not> nullish (Some (JBool b))"
  by (simp_all add: nullish_def)

section \<open>JSON.stringify\<close>

definition is_high :: "u16 \<Rightarrow> bool" where
  "is_high c \<longleftrightarrow> 0xD800 \<le> c \<and> c \<le> 0xDBFF"

definition is_low :: "u16 \<Rightarrow> bool" where
  "is_low c \<longleftrightarrow> 0xDC00 \<le> c \<and> c \<le> 0xDFFF"

definition hex_digit :: "nat \<Rightarrow> u16" where
  "hex_digit d = (if d < 10 then 0x30 + of_nat d else 0x57 + of_nat d)"

definition uesc :: "u16 \<Rightarrow> jstr" where
  "uesc c = (let n = unat c in
     [0x5C, 0x75, hex_digit (n div 4096), hex_digit (n div 256 mod 16),
      hex_digit (n div 16 mod 16), hex_digit (n mod 16)])"

definition esc :: "u16 \<Rightarrow> jstr" where
  "esc c =
     (if c = 8 then [0x5C, 0x62] else if c = 9 then [0x5C, 0x74] else if c = 10 then [0x5C, 0x6E]
      else if c = 12 then [0x5C, 0x66] else if c = 13 then [0x5C, 0x72]
      else if c = 0x22 then [0x5C, 0x22] else if c = 0x5C then [0x5C, 0x5C]
      else if c < 0x20 \<or> is_high c \<or> is_low c then uesc c else [c])"

text \<open>A surrogate pair is copied, a lone surrogate is escaped.\<close>

fun quote_units :: "jstr \<Rightarrow> jstr" where
  "quote_units [] = []"
| "quote_units [c] = esc c"
| "quote_units (c # d # cs) =
     (if is_high c \<and> is_low d then c # d # quote_units cs else esc c @ quote_units (d # cs))"

definition quote_str :: "jstr \<Rightarrow> jstr" where
  "quote_str s = 0x22 # quote_units s @ [0x22]"

fun stringify :: "json \<Rightarrow> jstr" where
  "stringify JNull = js ''null''"
| "stringify (JBool b) = (if b then js ''true'' else js ''false'')"
| "stringify (JInt i) = dec_int i"
| "stringify (JNum t) = t"
| "stringify (JStr s) = quote_str s"
| "stringify (JArr vs) = 0x5B # js_join [0x2C] (map stringify vs) @ [0x5D]"
| "stringify (JObj ps) =
     0x7B # js_join [0x2C] (map (\<lambda>p. quote_str (fst p) @ 0x3A # stringify (snd p)) ps) @ [0x7D]"

section \<open>JSON.parse\<close>

definition json_ws :: "u16 \<Rightarrow> bool" where
  "json_ws c \<longleftrightarrow> c = 0x20 \<or> c = 9 \<or> c = 10 \<or> c = 13"

definition skip :: "jstr \<Rightarrow> jstr" where
  "skip s = dropWhile json_ws s"

definition hex_val :: "u16 \<Rightarrow> nat option" where
  "hex_val c =
     (if 0x30 \<le> c \<and> c \<le> 0x39 then Some (unat (c - 0x30))
      else if 0x61 \<le> c \<and> c \<le> 0x66 then Some (unat (c - 0x57))
      else if 0x41 \<le> c \<and> c \<le> 0x46 then Some (unat (c - 0x37)) else None)"

fun hex4 :: "jstr \<Rightarrow> (u16 \<times> jstr) option" where
  "hex4 (a # b # c # d # r) =
     (case (hex_val a, hex_val b, hex_val c, hex_val d) of
        (Some w, Some x, Some y, Some z) \<Rightarrow> Some (of_nat (4096 * w + 256 * x + 16 * y + z), r)
      | _ \<Rightarrow> None)"
| "hex4 _ = None"

text \<open>What follows a backslash.\<close>

fun unescape :: "jstr \<Rightarrow> (u16 \<times> jstr) option" where
  "unescape [] = None"
| "unescape (e # r) =
     (if e = 0x22 \<or> e = 0x5C \<or> e = 0x2F then Some (e, r)
      else if e = 0x62 then Some (8, r) else if e = 0x66 then Some (12, r)
      else if e = 0x6E then Some (10, r) else if e = 0x72 then Some (13, r)
      else if e = 0x74 then Some (9, r) else if e = 0x75 then hex4 r else None)"

lemma hex4_length: "hex4 s = Some (u, r) \<Longrightarrow> length r < length s"
  by (cases s rule: hex4.cases) (auto split: option.splits)

lemma unescape_length: "unescape s = Some (u, r) \<Longrightarrow> length r < length s"
  by (cases s) (auto split: if_splits dest: hex4_length)

text \<open>The characters of a string literal, behind its opening quote.\<close>

function scan_string :: "jstr \<Rightarrow> (jstr \<times> jstr) option" where
  "scan_string [] = None"
| "scan_string (c # cs) =
     (if c = 0x22 then Some ([], cs)
      else if c = 0x5C then
        (case unescape cs of
           None \<Rightarrow> None
         | Some (u, r) \<Rightarrow> map_option (\<lambda>(s, r'). (u # s, r')) (scan_string r))
      else if c < 0x20 then None
      else map_option (\<lambda>(s, r'). (c # s, r')) (scan_string cs))"
  by pat_completeness auto
termination
  by (relation "measure length") (auto dest: unescape_length)

text \<open>A number literal: digits without a leading zero, then a fraction and an exponent.\<close>

definition scan_frac :: "jstr \<Rightarrow> (jstr \<times> jstr) option" where
  "scan_frac s = (case s of
       c # cs \<Rightarrow> if c = 0x2E
         then (let ds = takeWhile is_digit cs in
               if ds = [] then None else Some (c # ds, dropWhile is_digit cs))
         else Some ([], s)
     | [] \<Rightarrow> Some ([], []))"

definition scan_exp :: "jstr \<Rightarrow> (jstr \<times> jstr) option" where
  "scan_exp s = (case s of
       c # cs \<Rightarrow> if c = 0x65 \<or> c = 0x45
         then (let sg = (case cs of d # _ \<Rightarrow> if d = 0x2B \<or> d = 0x2D then [d] else [] | [] \<Rightarrow> []);
                   r = drop (length sg) cs; ds = takeWhile is_digit r in
               if ds = [] then None else Some (c # sg @ ds, dropWhile is_digit r))
         else Some ([], s)
     | [] \<Rightarrow> Some ([], []))"

definition scan_number :: "jstr \<Rightarrow> (json \<times> jstr) option" where
  "scan_number s =
     (let neg = (case s of c # _ \<Rightarrow> c = 0x2D | [] \<Rightarrow> False);
          r = (if neg then tl s else s);
          ds = takeWhile is_digit r; r1 = dropWhile is_digit r in
      if ds = [] \<or> hd ds = 0x30 \<and> 1 < length ds then None
      else case scan_frac r1 of None \<Rightarrow> None | Some (fr, r2) \<Rightarrow>
        (case scan_exp r2 of None \<Rightarrow> None | Some (ex, r3) \<Rightarrow>
           if fr = [] \<and> ex = []
           then Some (JInt (if neg then - int (nat_of_digits ds) else int (nat_of_digits ds)), r3)
           else Some (JNum ((if neg then [0x2D] else []) @ ds @ fr @ ex), r3)))"

definition scan_word :: "jstr \<Rightarrow> json \<Rightarrow> jstr \<Rightarrow> (json \<times> jstr) option" where
  "scan_word w v s = (if prefix w s then Some (v, drop (length w) s) else None)"

text \<open>Storing a member: a key that is there already keeps its place.\<close>

definition obj_put :: "jstr \<Rightarrow> json \<Rightarrow> (jstr \<times> json) list \<Rightarrow> (jstr \<times> json) list" where
  "obj_put k v ps =
     (if k \<in> fst ` set ps then map (\<lambda>p. if fst p = k then (k, v) else p) ps else ps @ [(k, v)])"

definition obj_of :: "(jstr \<times> json) list \<Rightarrow> (jstr \<times> json) list" where
  "obj_of ps = foldl (\<lambda>acc p. obj_put (fst p) (snd p) acc) [] ps"

text \<open>The recursive descent; the fuel is shown below to be enough for every text.\<close>

fun parse_value :: "nat \<Rightarrow> jstr \<Rightarrow> (json \<times> jstr) option"
  and parse_elems :: "nat \<Rightarrow> jstr \<Rightarrow> (json list \<times> jstr) option"
  and parse_members :: "nat \<Rightarrow> jstr \<Rightarrow> ((jstr \<times> json) list \<times> jstr) option" where
  "parse_value 0 s = None"
| "parse_value (Suc n) s = (case skip s of
      [] \<Rightarrow> None
    | c # cs \<Rightarrow>
        if c = 0x7B then (case skip cs of
            [] \<Rightarrow> None
          | d # ds \<Rightarrow> if d = 0x7D then Some (JObj [], ds)
                      else map_option (\<lambda>(ps, r). (JObj (obj_of ps), r)) (parse_members n cs))
        else if c = 0x5B then (case skip cs of
            [] \<Rightarrow> None
          | d # ds \<Rightarrow> if d = 0x5D then Some (JArr [], ds)
                      else map_option (\<lambda>(vs, r). (JArr vs, r)) (parse_elems n cs))
        else if c = 0x22 then map_option (\<lambda>(t, r). (JStr t, r)) (scan_string cs)
        else if c = 0x74 then scan_word (js ''true'') (JBool True) (c # cs)
        else if c = 0x66 then scan_word (js ''false'') (JBool False) (c # cs)
        else if c = 0x6E then scan_word (js ''null'') JNull (c # cs)
        else scan_number (c # cs))"
| "parse_elems 0 s = None"
| "parse_elems (Suc n) s = (case parse_value n s of
      None \<Rightarrow> None
    | Some (v, r) \<Rightarrow> (case skip r of
        [] \<Rightarrow> None
      | c # cs \<Rightarrow>
          if c = 0x2C then map_option (\<lambda>(vs, r'). (v # vs, r')) (parse_elems n cs)
          else if c = 0x5D then Some ([v], cs) else None))"
| "parse_members 0 s = None"
| "parse_members (Suc n) s = (case skip s of
      [] \<Rightarrow> None
    | q # qs \<Rightarrow> if q \<noteq> 0x22 then None else (case scan_string qs of
        None \<Rightarrow> None
      | Some (k, r) \<Rightarrow> (case skip r of
          [] \<Rightarrow> None
        | c # cs \<Rightarrow> if c \<noteq> 0x3A then None else (case parse_value n cs of
            None \<Rightarrow> None
          | Some (v, r2) \<Rightarrow> (case skip r2 of
              [] \<Rightarrow> None
            | e # es \<Rightarrow>
                if e = 0x2C then map_option (\<lambda>(ps, r'). ((k, v) # ps, r')) (parse_members n es)
                else if e = 0x7D then Some ([(k, v)], es) else None)))))"

definition json_parse :: "jstr \<Rightarrow> json option" where
  "json_parse s = (case parse_value (2 * length s + 2) s of
     None \<Rightarrow> None | Some (v, r) \<Rightarrow> if skip r = [] then Some v else None)"

end
