(* ===== verification/Js_Json_Facts.thy ===== *)
theory Js_Json_Facts
  imports Js_Json
begin

text \<open>
  The facts on \<open>JSON.parse\<close> and \<open>JSON.stringify\<close>: every parsing function consumes input,
  the fuel of \<open>json_parse\<close> is enough for every text, a printed value is read back, and a
  printed value holds no line break.
\<close>

section \<open>Every scanner consumes its input\<close>

lemma skip_length: "length (skip s) \<le> length s"
  by (simp add: skip_def length_dropWhile_le)

lemma skip_Cons_length: "skip s = c # cs \<Longrightarrow> length cs < length s"
  using skip_length [of s] by simp

lemma scan_string_length: "scan_string s = Some (t, r) \<Longrightarrow> length r < length s"
proof (induction s arbitrary: t r rule: scan_string.induct)
  case 1
  then show ?case by simp
next
  case (2 c cs)
  show ?case
  proof (cases "c = 0x5C")
    case True
    with "2.prems" obtain u r1 t1 where u: "unescape cs = Some (u, r1)" and "scan_string r1 = Some (t1, r)"
      by (auto split: option.splits)
    with "2.IH"(1) True have "length r < length r1" by simp
    with unescape_length [OF u] show ?thesis by simp
  next
    case False
    with 2 show ?thesis by (fastforce split: if_splits)
  qed
qed

lemma scan_frac_length: "scan_frac s = Some (t, r) \<Longrightarrow> length r \<le> length s"
  by (auto simp: scan_frac_def Let_def split: list.splits if_splits intro: le_SucI length_dropWhile_le)

lemma scan_exp_length:
  assumes "scan_exp s = Some (t, r)"
  shows "length r \<le> length s"
  using assms
  by (auto simp: scan_exp_def Let_def split: list.splits if_splits) (simp_all add: le_SucI length_dropWhile_le)

lemma scan_number_length:
  assumes "scan_number s = Some (v, r)"
  shows "length r < length s"
proof -
  define s' where "s' = (if (case s of c # _ \<Rightarrow> c = 0x2D | [] \<Rightarrow> False) then tl s else s)"
  define r1 where "r1 = dropWhile is_digit s'"
  from assms obtain fr r2 ex where ne: "takeWhile is_digit s' \<noteq> []"
    and fr: "scan_frac r1 = Some (fr, r2)" and ex: "scan_exp r2 = Some (ex, r)"
    by (auto simp: scan_number_def Let_def s'_def r1_def split: if_splits option.splits)
  have "length s' = length (takeWhile is_digit s') + length r1"
    unfolding r1_def by (metis length_append takeWhile_dropWhile_id)
  with ne have "length r1 < length s'" by simp
  moreover have "length s' \<le> length s" by (simp add: s'_def)
  ultimately show ?thesis using scan_frac_length [OF fr] scan_exp_length [OF ex] by simp
qed

lemma scan_word_length: "w \<noteq> [] \<Longrightarrow> scan_word w v s = Some (x, r) \<Longrightarrow> length r < length s"
  by (auto simp: scan_word_def prefix_def split: if_splits)

lemma parse_length:
  "parse_value n s = Some (v, r) \<Longrightarrow> length r < length s"
  "parse_elems n s = Some (vs, r) \<Longrightarrow> length r < length s"
  "parse_members n s = Some (ps, r) \<Longrightarrow> length r < length s"
proof (induction n s and n s and n s arbitrary: v r and vs r and ps r
    rule: parse_value_parse_elems_parse_members.induct)
  case (2 n s)
  then show ?case
    by (auto split: list.splits if_splits dest!: skip_Cons_length scan_string_length
        scan_word_length [rotated] scan_number_length intro: less_trans) (blast intro: less_trans)+
next
  case (4 n s)
  then show ?case
    by (fastforce split: list.splits if_splits option.splits prod.splits dest!: skip_Cons_length)
next
  case (6 n s)
  then show ?case
    by (fastforce split: list.splits if_splits option.splits prod.splits dest!: skip_Cons_length scan_string_length)
qed simp_all

section \<open>The fuel is enough\<close>

lemmas parse_unfold = parse_value.simps(2) parse_elems.simps(2) parse_members.simps(2)

declare parse_unfold [simp del]

text \<open>Beyond twice the length of the text, more fuel changes no result, success or error.\<close>

lemma parse_fuel:
  "2 * length s < n \<Longrightarrow> parse_value (Suc n) s = parse_value n s"
  "2 * length s + 1 < n \<Longrightarrow> parse_elems (Suc n) s = parse_elems n s"
  "2 * length s + 1 < n \<Longrightarrow> parse_members (Suc n) s = parse_members n s"
proof (induction n s and n s and n s rule: parse_value_parse_elems_parse_members.induct)
  case (2 n s)
  have 1: "parse_members (Suc n) cs = parse_members n cs"
    if "skip s = 0x7B # cs" and "skip cs = d # ds" and "d \<noteq> 0x7D" for cs d ds
    using 2 that skip_Cons_length [OF that(1)] by simp
  have 2: "parse_elems (Suc n) cs = parse_elems n cs"
    if "skip s = 0x5B # cs" and "skip cs = d # ds" and "d \<noteq> 0x5D" for cs d ds
    using 2 that skip_Cons_length [OF that(1)] by simp
  show ?case
    by (subst (1 2) parse_value.simps(2)) (auto simp: 1 2 split: list.split)
next
  case (4 n s)
  have 1: "parse_value (Suc n) s = parse_value n s" using 4 by simp
  have 2: "parse_elems (Suc n) cs = parse_elems n cs"
    if "parse_value n s = Some (v, r)" and "skip r = 0x2C # cs" for v r cs
    using 4 that parse_length(1) [OF that(1)] skip_Cons_length [OF that(2)] by simp
  show ?case
    by (subst (1 2) parse_elems.simps(2)) (auto simp: 1 2 split: option.split list.split)
next
  case (6 n s)
  have 1: "parse_value (Suc n) cs = parse_value n cs"
    if "skip s = 0x22 # qs" and "scan_string qs = Some (k, r)" and "skip r = 0x3A # cs" for qs k r cs
    using 6 that skip_Cons_length [OF that(1)] skip_Cons_length [OF that(3)]
      scan_string_length [OF that(2)] by simp
  have 2: "parse_members (Suc n) es = parse_members n es"
    if "skip s = 0x22 # qs" and "scan_string qs = Some (k, r)" and "skip r = 0x3A # cs"
      and "parse_value n cs = Some (v, r2)" and "skip r2 = 0x2C # es" for qs k r cs v r2 es
    using 6 that skip_Cons_length [OF that(1)] skip_Cons_length [OF that(3)]
      scan_string_length [OF that(2)] parse_length(1) [OF that(4)] skip_Cons_length [OF that(5)] by simp
  show ?case
    by (subst (1 2) parse_members.simps(2)) (auto simp: 1 2 split: option.split list.split)
qed simp_all

lemma parse_value_enough:
  assumes "2 * length s < n" and "n \<le> m"
  shows "parse_value m s = parse_value n s"
  using assms(2)
proof (induction m rule: dec_induct)
  case base
  show ?case ..
next
  case (step m)
  with assms(1) show ?case using parse_fuel(1) [of s m] by simp
qed

section \<open>Reading back a printed value\<close>

lemma hex_val_digit: "d < 16 \<Longrightarrow> hex_val (hex_digit d) = Some d"
  by (auto simp: hex_val_def hex_digit_def word_le_nat_alt unat_word_ariths unat_of_nat)

lemma hex_digits_nat:
  "4096 * (n div 4096) + 256 * (n div 256 mod 16) + 16 * (n div 16 mod 16) + n mod 16 = (n::nat)"
proof -
  have horner: "n = 16 * a + w \<Longrightarrow> a = 16 * b + x \<Longrightarrow> b = 16 * c + y
      \<Longrightarrow> 4096 * c + 256 * y + 16 * x + w = n" for a b c w x y :: nat
    by simp
  have 256: "n div 256 = n div 16 div 16" using div_mult2_eq [of n 16 16] by simp
  have "n div 4096 = n div 256 div 16" using div_mult2_eq [of n 256 16] by simp
  with 256 show ?thesis
    by (intro horner [of "n div 16" _ "n div 256"]) (simp_all only: mult_div_mod_eq)
qed

lemma hex4_uesc:
  assumes "uesc c = 0x5C # 0x75 # h"
  shows "hex4 (h @ r) = Some (c, r)"
proof -
  define n where "n = unat c"
  have "n < 65536" using unsigned_less [of c] by (simp add: n_def)
  then have "hex_val (hex_digit (n div 4096)) = Some (n div 4096)"
    by (intro hex_val_digit) simp
  moreover have "hex_val (hex_digit (n div 256 mod 16)) = Some (n div 256 mod 16)"
    "hex_val (hex_digit (n div 16 mod 16)) = Some (n div 16 mod 16)"
    "hex_val (hex_digit (n mod 16)) = Some (n mod 16)"
    by (simp_all add: hex_val_digit)
  moreover have "h = [hex_digit (n div 4096), hex_digit (n div 256 mod 16),
      hex_digit (n div 16 mod 16), hex_digit (n mod 16)]"
    using assms by (simp add: uesc_def Let_def n_def)
  moreover have "of_nat n = c" by (simp add: n_def)
  ultimately show ?thesis
    by (simp only: hex4.simps append_Cons append_Nil option.case prod.case hex_digits_nat)
qed

lemma uesc_shape: "\<exists>h. uesc c = 0x5C # 0x75 # h"
  by (simp add: uesc_def Let_def)

lemma esc_cases:
  obtains (plain) "esc c = [c]" "c \<noteq> 0x22" "c \<noteq> 0x5C" "\<not> c < 0x20"
  | (short) e where "esc c = [0x5C, e]" "\<And>r. unescape (e # r) = Some (c, r)"
  | (long) h where "esc c = 0x5C # 0x75 # h" "\<And>r. unescape (0x75 # h @ r) = Some (c, r)"
proof -
  obtain h where h: "uesc c = 0x5C # 0x75 # h" using uesc_shape by blast
  then have l: "unescape (0x75 # h @ r) = Some (c, r)" for r
    using hex4_uesc [OF h] by simp
  show thesis
  proof (cases "c \<in> {8, 9, 10, 12, 13, 0x22, 0x5C}")
    case True
    then show ?thesis by (auto simp: esc_def intro: short)
  next
    case False
    then have e: "esc c = (if c < 0x20 \<or> is_high c \<or> is_low c then uesc c else [c])"
      by (simp add: esc_def)
    show ?thesis
    proof (cases "c < 0x20 \<or> is_high c \<or> is_low c")
      case True
      with e h have "esc c = 0x5C # 0x75 # h" by simp
      then show ?thesis using long l by blast
    next
      case no_esc: False
      with e False show ?thesis using plain by simp
    qed
  qed
qed

lemma scan_string_esc:
  "scan_string r = Some (t, r') \<Longrightarrow> scan_string (esc c @ r) = Some (c # t, r')"
  by (cases c rule: esc_cases) simp_all

lemma surrogate_plain: "is_high c \<or> is_low c \<Longrightarrow> c \<noteq> 0x22 \<and> c \<noteq> 0x5C \<and> \<not> c < 0x20"
  by (auto simp: is_high_def is_low_def word_le_nat_alt word_less_nat_alt)

lemma scan_string_quote: "scan_string (quote_units s @ 0x22 # r) = Some (s, r)"
proof (induction s rule: quote_units.induct)
  case (3 c d cs)
  then show ?case
    using surrogate_plain [of c] surrogate_plain [of d]
    by (auto simp: scan_string_esc simp del: scan_string.simps(2) simp: scan_string.simps(2) [of c] scan_string.simps(2) [of d])
qed (simp_all add: scan_string_esc)

text \<open>What may follow a number without being read as part of it.\<close>

definition stops :: "jstr \<Rightarrow> bool" where
  "stops r \<longleftrightarrow> (case r of [] \<Rightarrow> True | c # _ \<Rightarrow> \<not> is_digit c \<and> c \<noteq> 0x2E \<and> c \<noteq> 0x65 \<and> c \<noteq> 0x45)"

lemma stops_simps [simp]: "stops []" "stops (0x2C # r)" "stops (0x5D # r)" "stops (0x7D # r)"
  by (simp_all add: stops_def is_digit_def)

lemma stops_scan: "stops r \<Longrightarrow> takeWhile is_digit r = [] \<and> dropWhile is_digit r = r
    \<and> scan_frac r = Some ([], r) \<and> scan_exp r = Some ([], r)"
  by (cases r) (auto simp: stops_def scan_frac_def scan_exp_def)

lemma dec_nat_no_leading_zero: "\<not> (hd (dec_nat n) = 0x30 \<and> 1 < length (dec_nat n))"
proof
  assume a: "hd (dec_nat n) = 0x30 \<and> 1 < length (dec_nat n)"
  then have "n = 0" using dec_nat_hd_zero by blast
  with a show False by (simp add: dec_nat.simps [of 0])
qed

lemma hd_dec_nat_digit: "is_digit (hd (dec_nat n))"
  using dec_nat_digits [of n] by (meson dec_nat_ne list.set_sel(1))

lemma scan_dec_nat: "stops r \<Longrightarrow>
    takeWhile is_digit (dec_nat n @ r) = dec_nat n \<and> dropWhile is_digit (dec_nat n @ r) = r"
  using dec_nat_digits [of n] stops_scan [of r]
  by (simp add: takeWhile_all_append dropWhile_all_append)

lemma scan_number_dec_int: "stops r \<Longrightarrow> scan_number (dec_int i @ r) = Some (JInt i, r)"
proof (cases "i < 0")
  case True
  assume r: "stops r"
  with True show ?thesis
    using dec_nat_no_leading_zero [of "nat (- i)"]
    by (simp add: scan_number_def dec_int_def scan_dec_nat stops_scan nat_of_digits_dec_nat Let_def)
next
  case False
  assume r: "stops r"
  obtain c cs where c: "dec_nat (nat i) = c # cs" by (meson dec_nat_ne list.exhaust)
  with hd_dec_nat_digit [of "nat i"] have "c \<noteq> 0x2D" by (auto simp: is_digit_def)
  with False r c show ?thesis
    using dec_nat_no_leading_zero [of "nat i"] scan_dec_nat [OF r, of "nat i"] nat_of_digits_dec_nat [of "nat i"]
    by (simp add: scan_number_def dec_int_def stops_scan Let_def)
qed

text \<open>
  The values a printed text determines: no literal with a fraction or an exponent (its text
  may not be the shortest one), and the keys of an object are distinct, as they are in
  every JavaScript object.
\<close>

fun plain :: "json \<Rightarrow> bool" where
  "plain (JNum t) = False"
| "plain (JArr vs) = (\<forall>v \<in> set vs. plain v)"
| "plain (JObj ps) = (distinct (map fst ps) \<and> (\<forall>p \<in> set ps. plain (snd p)))"
| "plain _ = True"

lemma obj_of_distinct: "distinct (map fst ps) \<Longrightarrow> obj_of ps = ps"
proof (induction ps rule: rev_induct)
  case Nil
  then show ?case by (simp add: obj_of_def)
next
  case (snoc p ps)
  then have "obj_of ps = ps" and "fst p \<notin> fst ` set ps" by auto
  then show ?case by (simp add: obj_of_def obj_put_def)
qed

text \<open>The first unit of a printed value decides which branch of the parser reads it.\<close>

lemma dec_int_hd: "\<exists>c cs. dec_int i = c # cs \<and> (c = 0x2D \<or> is_digit c)"
  by (metis dec_int_def dec_nat_ne hd_dec_nat_digit list.collapse)

lemma skip_keep: "\<not> json_ws c \<Longrightarrow> skip (c # cs) = c # cs"
  by (simp add: skip_def)

lemma stringify_hd: "plain v \<Longrightarrow> \<exists>c cs. stringify v = c # cs \<and> \<not> json_ws c \<and> c \<noteq> 0x5D \<and> c \<noteq> 0x7D"
proof (cases v)
  case (JInt i)
  then show ?thesis using dec_int_hd [of i] by (auto simp: json_ws_def is_digit_def)
qed (auto simp: json_ws_def quote_str_def)

lemma parse_array:
  assumes "\<And>v n r. v \<in> set vs \<Longrightarrow> 2 * length (stringify v @ r) < n \<Longrightarrow> stops r
      \<Longrightarrow> parse_value n (stringify v @ r) = Some (v, r)"
    and "vs \<noteq> []" and "2 * length (js_join [0x2C] (map stringify vs) @ 0x5D # r) + 1 < n"
  shows "parse_elems n (js_join [0x2C] (map stringify vs) @ 0x5D # r) = Some (vs, r)"
  using assms
proof (induction vs arbitrary: n)
  case Nil
  then show ?case by simp
next
  case (Cons v vs)
  obtain m where n: "n = Suc m" using Cons.prems(3) by (cases n) auto
  show ?case
  proof (cases "vs = []")
    case True
    with Cons.prems n show ?thesis by (simp add: parse_unfold skip_def json_ws_def)
  next
    case False
    let ?t = "js_join [0x2C] (map stringify vs) @ 0x5D # r"
    have e: "js_join [0x2C] (map stringify (v # vs)) @ 0x5D # r = stringify v @ 0x2C # ?t"
      using False by (simp add: js_join_Cons)
    have "parse_elems m ?t = Some (vs, r)"
      using Cons.prems n False by (intro Cons.IH) (auto simp: js_join_Cons)
    moreover have "parse_value m (stringify v @ 0x2C # ?t) = Some (v, 0x2C # ?t)"
      using Cons.prems(3) n unfolding e by (intro Cons.prems(1)) auto
    ultimately show ?thesis unfolding e n by (simp add: parse_unfold skip_def json_ws_def)
  qed
qed

abbreviation member_text :: "jstr \<times> json \<Rightarrow> jstr" where
  "member_text p \<equiv> quote_str (fst p) @ 0x3A # stringify (snd p)"

lemma parse_object:
  assumes "\<And>p n r. p \<in> set ps \<Longrightarrow> 2 * length (stringify (snd p) @ r) < n \<Longrightarrow> stops r
      \<Longrightarrow> parse_value n (stringify (snd p) @ r) = Some (snd p, r)"
    and "ps \<noteq> []" and "2 * length (js_join [0x2C] (map member_text ps) @ 0x7D # r) + 1 < n"
  shows "parse_members n (js_join [0x2C] (map member_text ps) @ 0x7D # r) = Some (ps, r)"
  using assms
proof (induction ps arbitrary: n)
  case Nil
  then show ?case by simp
next
  case (Cons p ps)
  obtain m where n: "n = Suc m" using Cons.prems(3) by (cases n) auto
  obtain k v where p: "p = (k, v)" by (cases p) auto
  have head: "scan_string (quote_units k @ 0x22 # x) = Some (k, x)" for x
    by (rule scan_string_quote)
  show ?case
  proof (cases "ps = []")
    case True
    with Cons.prems n p have "parse_value m (stringify v @ 0x7D # r) = Some (v, 0x7D # r)"
      by (intro Cons.prems(1) [of p, simplified p snd_conv]) auto
    with True n p head show ?thesis
      by (simp add: parse_unfold skip_def json_ws_def quote_str_def)
  next
    case False
    let ?t = "js_join [0x2C] (map member_text ps) @ 0x7D # r"
    have e: "js_join [0x2C] (map member_text (p # ps)) @ 0x7D # r
        = quote_str k @ 0x3A # stringify v @ 0x2C # ?t"
      using False p by (simp add: js_join_Cons)
    have "parse_members m ?t = Some (ps, r)"
      using Cons.prems n False by (intro Cons.IH) (auto simp: js_join_Cons)
    moreover have "parse_value m (stringify v @ 0x2C # ?t) = Some (v, 0x2C # ?t)"
      using Cons.prems(3) n p unfolding e
      by (intro Cons.prems(1) [of p, simplified p snd_conv]) auto
    ultimately show ?thesis
      unfolding e n using p head by (simp add: parse_unfold skip_def json_ws_def quote_str_def)
  qed
qed

lemma parse_stringify:
  "plain v \<Longrightarrow> 2 * length (stringify v @ r) < n \<Longrightarrow> stops r \<Longrightarrow> parse_value n (stringify v @ r) = Some (v, r)"
proof (induction v arbitrary: n r)
  case (JInt i)
  obtain m where n: "n = Suc m" using JInt by (cases n) auto
  obtain c cs where c: "dec_int i = c # cs" "c = 0x2D \<or> is_digit c" using dec_int_hd by blast
  with scan_number_dec_int [OF JInt.prems(3), of i] show ?case
    unfolding n by (auto simp: parse_unfold skip_def json_ws_def is_digit_def)
next
  case (JStr s)
  then show ?case
    by (cases n) (simp_all add: parse_unfold skip_def json_ws_def quote_str_def scan_string_quote)
next
  case (JArr vs)
  obtain m where n: "n = Suc m" using JArr by (cases n) auto
  show ?case
  proof (cases vs)
    case Nil
    then show ?thesis unfolding n by (simp add: parse_unfold skip_def json_ws_def)
  next
    case (Cons v ws)
    let ?t = "js_join [0x2C] (map stringify vs) @ 0x5D # r"
    have "parse_elems m ?t = Some (vs, r)"
      using JArr n Cons by (intro parse_array) auto
    moreover obtain c cs where "stringify v = c # cs" "\<not> json_ws c" "c \<noteq> 0x5D"
      using stringify_hd [of v] JArr.prems Cons by auto
    then have "\<exists>d ds. skip ?t = d # ds \<and> d \<noteq> 0x5D"
      using Cons by (cases ws) (auto simp: skip_keep)
    ultimately show ?thesis unfolding n
      by (auto simp: parse_unfold skip_keep json_ws_def)
  qed
next
  case (JObj ps)
  obtain m where n: "n = Suc m" using JObj by (cases n) auto
  show ?case
  proof (cases ps)
    case Nil
    then show ?thesis unfolding n by (simp add: parse_unfold skip_def json_ws_def)
  next
    case (Cons p qs)
    let ?t = "js_join [0x2C] (map member_text ps) @ 0x7D # r"
    have "parse_members m ?t = Some (ps, r)"
    proof (rule parse_object)
      fix p n r
      assume "p \<in> set ps" and len: "2 * length (stringify (snd p) @ r) < n" and "stops r"
      with JObj.prems(1) show "parse_value n (stringify (snd p) @ r) = Some (snd p, r)"
        by (intro JObj.IH [of p "snd p"]) (auto simp: snds.simps)
    qed (use JObj.prems n Cons in auto)
    moreover have "\<exists>d ds. skip ?t = d # ds \<and> d \<noteq> 0x7D"
      using Cons by (cases qs) (auto simp: skip_keep quote_str_def json_ws_def)
    ultimately show ?thesis unfolding n
      using obj_of_distinct [of ps] JObj.prems(1) by (auto simp: parse_unfold skip_keep json_ws_def)
  qed
next
  case JNull
  then show ?case by (cases n) (simp_all add: parse_unfold skip_def json_ws_def scan_word_def)
next
  case (JBool b)
  then show ?case by (cases n; cases b) (simp_all add: parse_unfold skip_def json_ws_def scan_word_def)
qed simp

lemma json_parse_stringify: "plain v \<Longrightarrow> json_parse (stringify v) = Some v"
  using parse_stringify [of v "[]"] by (simp add: json_parse_def skip_def)

section \<open>A printed value has no line break\<close>

lemma hex_digit_visible: "d < 16 \<Longrightarrow> \<not> hex_digit d < 0x20"
  by (auto simp: hex_digit_def word_less_nat_alt unat_word_ariths unat_of_nat)

lemma uesc_visible: "x \<in> set (uesc c) \<Longrightarrow> \<not> x < 0x20"
proof -
  have "unat c < 65536" using unsigned_less [of c] by simp
  then have "unat c div 4096 < 16" by simp
  then show "x \<in> set (uesc c) \<Longrightarrow> \<not> x < 0x20"
    by (auto simp: uesc_def Let_def hex_digit_visible)
qed

lemma esc_visible: "x \<in> set (esc c) \<Longrightarrow> \<not> x < 0x20"
  by (auto simp: esc_def dest: uesc_visible split: if_splits)

lemma quote_units_visible: "x \<in> set (quote_units s) \<Longrightarrow> \<not> x < 0x20"
proof (induction s rule: quote_units.induct)
  case (3 c d cs)
  then show ?case
    using surrogate_plain [of c] surrogate_plain [of d] by (auto dest: esc_visible split: if_splits)
qed (auto dest: esc_visible)

lemma quote_str_visible: "x \<in> set (quote_str s) \<Longrightarrow> \<not> x < 0x20"
  by (auto simp: quote_str_def dest: quote_units_visible)

lemma set_js_join: "set (js_join sep xs) \<subseteq> set sep \<union> (\<Union>x \<in> set xs. set x)"
  by (induction sep xs rule: js_join.induct) auto

lemma js_join_elem:
  assumes "x \<in> set (js_join sep (map f xs))"
  obtains "x \<in> set sep" | y where "y \<in> set xs" "x \<in> set (f y)"
  using assms set_js_join [of sep "map f xs"] by auto

lemma dec_int_visible: "x \<in> set (dec_int i) \<Longrightarrow> \<not> x < 0x20"
proof -
  have "x \<in> set (dec_nat n) \<Longrightarrow> \<not> x < 0x20" for n
    using dec_nat_digits [of n] by (auto simp: is_digit_def word_le_nat_alt word_less_nat_alt)
  then show "x \<in> set (dec_int i) \<Longrightarrow> \<not> x < 0x20"
    by (auto simp: dec_int_def split: if_splits)
qed

lemma stringify_visible: "plain v \<Longrightarrow> x \<in> set (stringify v) \<Longrightarrow> \<not> x < 0x20"
proof (induction v arbitrary: x)
  case (JArr vs)
  from JArr.prems consider "x = 0x5B \<or> x = 0x5D" | "x \<in> set (js_join [0x2C] (map stringify vs))"
    by auto
  then show ?case using JArr by cases (auto elim!: js_join_elem)
next
  case (JObj ps)
  from JObj.prems consider "x = 0x7B \<or> x = 0x7D" | "x \<in> set (js_join [0x2C] (map member_text ps))"
    by auto
  then show ?case
  proof cases
    case 2
    then show ?thesis
    proof (cases rule: js_join_elem)
      case (2 p)
      with JObj.prems(1) have "x \<in> set (stringify (snd p)) \<Longrightarrow> \<not> x < 0x20"
        by (intro JObj.IH [of p "snd p"]) (auto simp: snds.simps)
      with 2 show ?thesis using quote_str_visible [of x "fst p"] by auto
    qed simp
  qed auto
qed (auto dest: dec_int_visible quote_str_visible split: if_splits)

end
