(* ===== verification/Js_Regex.thy ===== *)
theory Js_Regex
  imports Js_String
begin

text \<open>
  The fragment of ECMAScript regular expressions that the panel's patterns use: literals,
  classes, greedy and lazy repetitions of a class, sequences, alternatives, capture groups
  and the end anchor. A pattern is a value of the datatype \<open>rx\<close>; \<open>rx_match\<close> lists the ways it can match
  at the start of a text in the order in which backtracking tries them, so the head of the
  list is the match JavaScript takes.
\<close>

section \<open>Patterns and their matches\<close>

datatype rx =
    RLit jstr
  | RRep bool nat "nat option" "u16 \<Rightarrow> bool" \<comment> \<open>greedy, least count, greatest count, class\<close>
  | RSeq rx rx
  | RAlt rx rx
  | RGrp nat rx
  | REnd

type_synonym caps = "(nat \<times> jstr) list"

text \<open>A match: what was matched, what is left, the captures.\<close>

type_synonym rmatch = "jstr \<times> jstr \<times> caps"

text \<open>The lengths a repetition can take, in the order it tries them.\<close>

definition rep_lengths :: "bool \<Rightarrow> nat \<Rightarrow> nat option \<Rightarrow> nat \<Rightarrow> nat list" where
  "rep_lengths g lo hi avail =
     (let k = (case hi of None \<Rightarrow> avail | Some h \<Rightarrow> min h avail); ns = [lo..<Suc k]
      in if g then rev ns else ns)"

fun rx_match :: "rx \<Rightarrow> jstr \<Rightarrow> rmatch list" where
  "rx_match (RLit p) s = (if prefix p s then [(p, drop (length p) s, [])] else [])"
| "rx_match (RRep g lo hi P) s =
     map (\<lambda>n. (take n s, drop n s, [])) (rep_lengths g lo hi (length (takeWhile P s)))"
| "rx_match (RSeq a b) s =
     concat (map (\<lambda>(m1, r1, c1). map (\<lambda>(m2, r2, c2). (m1 @ m2, r2, c1 @ c2)) (rx_match b r1))
       (rx_match a s))"
| "rx_match (RAlt a b) s = rx_match a s @ rx_match b s"
| "rx_match (RGrp n a) s = map (\<lambda>(m, r, c). (m, r, (n, m) # c)) (rx_match a s)"
| "rx_match REnd s = (if s = [] then [([], [], [])] else [])"

text \<open>\<open>re.exec(s)\<close> of a pattern anchored at the start.\<close>

definition rx_exec_at :: "rx \<Rightarrow> jstr \<Rightarrow> rmatch option" where
  "rx_exec_at r s = head_opt (rx_match r s)"

text \<open>The leftmost match: the text before it, the match, the text behind it, the captures.\<close>

fun rx_search :: "rx \<Rightarrow> jstr \<Rightarrow> (jstr \<times> rmatch) option" where
  "rx_search r [] = map_option (\<lambda>m. ([], m)) (rx_exec_at r [])"
| "rx_search r (c # cs) = (case rx_exec_at r (c # cs) of
      Some m \<Rightarrow> Some ([], m)
    | None \<Rightarrow> map_option (\<lambda>(pre, m). (c # pre, m)) (rx_search r cs))"

text \<open>A capture that took part in the match is \<open>Some\<close>.\<close>

definition cap :: "nat \<Rightarrow> caps \<Rightarrow> jstr option" where
  "cap n c = map_of c n"

definition cap_str :: "nat \<Rightarrow> caps \<Rightarrow> jstr" where
  "cap_str n c = (case cap n c of None \<Rightarrow> [] | Some t \<Rightarrow> t)"

lemma rx_match_split: "(m, r, c) \<in> set (rx_match x s) \<Longrightarrow> s = m @ r"
proof (induction x arbitrary: s m r c)
  case (RLit p)
  then show ?case by (auto simp: prefix_take_length split: if_splits)
next
  case (RSeq a b)
  then show ?case by fastforce
qed (auto split: if_splits)

lemma rx_exec_at_Some: "rx_exec_at x s = Some (m, r, c) \<Longrightarrow> (m, r, c) \<in> set (rx_match x s)"
  by (auto simp: rx_exec_at_def head_opt_Some)

lemma rx_exec_at_split:
  "rx_exec_at x s = Some (m, r, c) \<Longrightarrow> s = m @ r \<and> (m, r, c) \<in> set (rx_match x (m @ r))"
  using rx_exec_at_Some rx_match_split by metis

lemma rx_search_split:
  "rx_search x s = Some (pre, m, r, c) \<Longrightarrow> s = pre @ m @ r \<and> (m, r, c) \<in> set (rx_match x (m @ r))"
proof (induction x s arbitrary: pre rule: rx_search.induct)
  case (1 x)
  then show ?case using rx_exec_at_split [of x "[]" m r c] by auto
next
  case (2 x u us)
  then show ?case
    using rx_exec_at_split [of x "u # us" m r c] by (cases "rx_exec_at x (u # us)") auto
qed

lemma rx_search_None: "rx_search x s = None \<longleftrightarrow> (\<forall>t. suffix t s \<longrightarrow> rx_match x t = [])"
proof (induction x s rule: rx_search.induct)
  case (1 x)
  then show ?case by (simp add: rx_exec_at_def head_opt_def split: list.split)
next
  case (2 x u us)
  then show ?case
    by (cases "rx_match x (u # us)") (auto simp: rx_exec_at_def suffix_Cons)
qed

text \<open>Searching behind a text in which no match can start.\<close>

lemma rx_search_behind:
  assumes "\<And>i. i < length a \<Longrightarrow> rx_match x (drop i a @ s) = []"
    and "rx_exec_at x s = Some m"
  shows "rx_search x (a @ s) = Some (a, m)"
  using assms(1)
proof (induction a)
  case Nil
  with assms(2) show ?case by (cases s) simp_all
next
  case (Cons u a)
  from Cons.prems [of 0] have "rx_exec_at x (u # a @ s) = None" by (simp add: rx_exec_at_def)
  moreover have "rx_search x (a @ s) = Some (a, m)"
    using Cons.prems [of "Suc i" for i] by (intro Cons.IH) auto
  ultimately show ?case by simp
qed

section \<open>What a match of each construct looks like\<close>

text \<open>
  Elimination rules for a match, one per construct, and the bundle that decomposes a whole
  pattern: the facts the components use to read off what their patterns accept.
\<close>

lemma rx_match_Lit_iff: "(m, r, c) \<in> set (rx_match (RLit p) s) \<longleftrightarrow> m = p \<and> s = p @ r \<and> c = []"
  by (auto simp: prefix_def)

lemma rx_match_Rep_dest:
  assumes "(m, r, c) \<in> set (rx_match (RRep g lo hi P) s)"
  shows "s = m @ r \<and> (\<forall>x \<in> set m. P x) \<and> lo \<le> length m \<and> (case hi of None \<Rightarrow> True | Some h \<Rightarrow> length m \<le> h) \<and> c = []"
proof -
  from assms obtain n where n: "n \<in> set (rep_lengths g lo hi (length (takeWhile P s)))"
    and m: "m = take n s" "r = drop n s" "c = []" by auto
  then have le: "lo \<le> n" "n \<le> length (takeWhile P s)" "case hi of None \<Rightarrow> True | Some h \<Rightarrow> n \<le> h"
    by (auto simp: rep_lengths_def Let_def split: if_splits option.splits)
  then have "take n s = take n (takeWhile P s)"
    by (metis append_take_drop_id takeWhile_eq_take take_take min.absorb1)
  then have "\<forall>x \<in> set m. P x" using m by (metis in_set_takeD set_takeWhileD)
  moreover have "length m = n" using m le length_takeWhile_le [of P s] by simp
  ultimately show ?thesis using m le by (auto split: option.splits)
qed

lemma rx_match_Seq_iff:
  "(m, r, c) \<in> set (rx_match (RSeq a b) s) \<longleftrightarrow>
     (\<exists>m1 m2 r1 c1 c2. (m1, r1, c1) \<in> set (rx_match a s) \<and> (m2, r, c2) \<in> set (rx_match b r1)
        \<and> m = m1 @ m2 \<and> c = c1 @ c2)"
  by (force simp del: rx_match.simps(1,2))

lemma rx_match_Alt_iff:
  "(m, r, c) \<in> set (rx_match (RAlt a b) s) \<longleftrightarrow> (m, r, c) \<in> set (rx_match a s) \<or> (m, r, c) \<in> set (rx_match b s)"
  by simp

lemma rx_match_Grp_iff:
  "(m, r, c) \<in> set (rx_match (RGrp n a) s) \<longleftrightarrow> (\<exists>c'. (m, r, c') \<in> set (rx_match a s) \<and> c = (n, m) # c')"
  by force

lemma rx_match_End_iff: "(m, r, c) \<in> set (rx_match REnd s) \<longleftrightarrow> s = [] \<and> m = [] \<and> r = [] \<and> c = []"
  by auto

declare rx_match.simps [simp del]

lemmas rx_match_iffs = rx_match_Lit_iff rx_match_Seq_iff rx_match_Alt_iff rx_match_Grp_iff rx_match_End_iff

section \<open>Two shapes that have a direct scanner\<close>

text \<open>
  A lazy repetition of any unit before a literal stops at the literal's leftmost
  occurrence; a greedy repetition of a class before a unit outside the class takes all of it.
\<close>

lemma lazy_lit_flat:
  "rx_match (RSeq (RGrp k (RRep False 0 None (\<lambda>_. True))) (RLit p)) s =
     concat (map (\<lambda>n. if prefix p (drop n s)
       then [(take n s @ p, drop (length p + n) s, [(k, take n s)])] else []) [0..<Suc (length s)])"
proof -
  have tw: "takeWhile (\<lambda>_. True) s = s" by (induction s) simp_all
  show ?thesis unfolding rx_match.simps tw
    by (simp add: rep_lengths_def comp_def if_distrib [of "map _"] cong: if_cong del: upt_Suc)
qed

lemma lazy_lit_cut:
  "head_opt (rx_match (RSeq (RGrp k (RRep False 0 None (\<lambda>_. True))) (RLit p)) s) =
     map_option (\<lambda>(a, b). (a @ p, b, [(k, a)])) (cut_at p s)"
proof (induction s)
  case Nil
  show ?case by (simp add: lazy_lit_flat)
next
  case (Cons u s)
  let ?l = "\<lambda>s. rx_match (RSeq (RGrp k (RRep False 0 None (\<lambda>_. True))) (RLit p)) s"
  have "?l (u # s) = (if prefix p (u # s) then [(p, drop (length p) (u # s), [(k, [])])] else [])
      @ map (\<lambda>(m, r, c). (u # m, r, [(k, u # snd (hd c))])) (?l s)"
    unfolding lazy_lit_flat
    by (simp add: map_upt_Suc map_concat comp_def if_distrib [of "map _"] cong: if_cong del: upt_Suc)
  with Cons.IH show ?case
    by (cases "?l s"; cases "cut_at p s") (auto simp: head_opt_def)
qed

lemma greedy_class_lit:
  assumes "\<forall>x \<in> set a. P x" and "\<not> P d"
  shows "rx_match (RSeq (RGrp k (RRep True 0 None P)) (RSeq (RLit [d]) x)) (a @ d # s) =
     map (\<lambda>(m, r, c). (a @ d # m, r, (k, a) # c)) (rx_match x s)"
proof -
  define y where "y = RSeq (RLit [d]) x"
  have tw: "takeWhile P (a @ d # s) = a" using assms by (simp add: takeWhile_all_append)
  have none: "rx_match y (drop n a @ d # s) = []" if "n < length a" for n
  proof -
    have "drop n a = a ! n # drop (Suc n) a" using that by (rule Cons_nth_drop_Suc [symmetric])
    moreover have "a ! n \<noteq> d" using assms that by auto
    ultimately show ?thesis by (simp add: rx_match.simps y_def)
  qed
  have lens: "rep_lengths True 0 None (length a) = length a # rev [0..<length a]"
    by (simp add: rep_lengths_def Let_def)
  have "rx_match (RGrp k (RRep True 0 None P)) (a @ d # s) =
      map (\<lambda>n. (take n (a @ d # s), drop n (a @ d # s), [(k, take n (a @ d # s))])) (length a # rev [0..<length a])"
    by (simp only: rx_match.simps tw lens map_map comp_def prod.case)
  then have "rx_match (RSeq (RGrp k (RRep True 0 None P)) y) (a @ d # s) =
      map (\<lambda>(m, r, c). (a @ m, r, (k, a) # c)) (rx_match y (d # s))"
    by (simp add: rx_match.simps(3) none comp_def)
  then show ?thesis by (simp add: rx_match.simps y_def comp_def case_prod_beta)
qed

section \<open>The loop over a global pattern\<close>

text \<open>
  \<open>while ((m = re.exec(src)) !== null)\<close> with the flag \<open>g\<close>: each round searches from the
  end of the last match. The result holds, per match, the text skipped before it, the match
  and its captures, and then the text behind the last one. An empty match would not move
  \<open>lastIndex\<close>; the model stops there, and the locale below is about the patterns that
  have none.
\<close>

function rx_all :: "rx \<Rightarrow> jstr \<Rightarrow> (jstr \<times> jstr \<times> caps) list \<times> jstr" where
  "rx_all x s = (case rx_search x s of
      None \<Rightarrow> ([], s)
    | Some (pre, m, r, c) \<Rightarrow>
        if m = [] then ([], s) else (let (ms, t) = rx_all x r in ((pre, m, c) # ms, t)))"
  by pat_completeness auto
termination
  by (relation "measure (\<lambda>(x, s). length s)") (auto dest!: rx_search_split)

declare rx_all.simps [simp del]

text \<open>\<open>s.replace(re, "")\<close> with the flag \<open>g\<close>.\<close>

definition rx_remove_all :: "rx \<Rightarrow> jstr \<Rightarrow> jstr" where
  "rx_remove_all x s = (let (ms, t) = rx_all x s in concat (map fst ms) @ t)"

text \<open>What the loop relies on: the pattern never matches the empty text.\<close>

locale global_pattern =
  fixes x :: rx
  assumes consumes: "(m, r, c) \<in> set (rx_match x s) \<Longrightarrow> m \<noteq> []"
begin

lemma search_consumes: "rx_search x s = Some (pre, m, r, c) \<Longrightarrow> m \<noteq> []"
  using consumes by (blast dest: rx_search_split)

lemma all_None: "rx_search x s = None \<Longrightarrow> rx_all x s = ([], s)"
  by (simp add: rx_all.simps)

lemma all_Some:
  "rx_search x s = Some (pre, m, r, c) \<Longrightarrow> rx_all x s = ((pre, m, c) # fst (rx_all x r), snd (rx_all x r))"
  using search_consumes by (subst rx_all.simps) (simp split: prod.split)

text \<open>Nothing is lost: the skipped texts, the matches and the tail make up the text.\<close>

lemma all_partition: "concat (map (\<lambda>(p, m, c). p @ m) (fst (rx_all x s))) @ snd (rx_all x s) = s"
proof (induction s rule: length_induct)
  case (1 s)
  show ?case
  proof (cases "rx_search x s")
    case None
    then show ?thesis by (simp add: all_None)
  next
    case (Some q)
    then obtain p m r c where q: "rx_search x s = Some (p, m, r, c)" by (cases q) auto
    then have s: "s = p @ m @ r" and "m \<noteq> []"
      using rx_search_split search_consumes by blast+
    then have "concat (map (\<lambda>(p, m, c). p @ m) (fst (rx_all x r))) @ snd (rx_all x r) = r"
      using 1 by simp
    with q s show ?thesis by (simp add: all_Some)
  qed
qed

text \<open>Every listed match is a match of the pattern, and the tail holds none.\<close>

lemma all_matches: "(p, m, c) \<in> set (fst (rx_all x s)) \<Longrightarrow> \<exists>r. (m, r, c) \<in> set (rx_match x (m @ r))"
proof (induction s rule: length_induct)
  case (1 s)
  show ?case
  proof (cases "rx_search x s")
    case None
    with 1 show ?thesis by (simp add: all_None)
  next
    case (Some q)
    then obtain p' m' r' c' where q: "rx_search x s = Some (p', m', r', c')" by (cases q) auto
    then have s: "s = p' @ m' @ r'" and "m' \<noteq> []" and "(m', r', c') \<in> set (rx_match x (m' @ r'))"
      using rx_search_split search_consumes by blast+
    moreover have "(p, m, c) = (p', m', c') \<or> (p, m, c) \<in> set (fst (rx_all x r'))"
      using "1.prems" q by (simp add: all_Some)
    moreover have "length r' < length s" using \<open>s = p' @ m' @ r'\<close> \<open>m' \<noteq> []\<close> by simp
    ultimately show ?thesis using "1.IH" by blast
  qed
qed

lemma all_tail: "rx_search x (snd (rx_all x s)) = None"
proof (induction s rule: length_induct)
  case (1 s)
  show ?case
  proof (cases "rx_search x s")
    case None
    then show ?thesis by (simp add: all_None)
  next
    case (Some q)
    then obtain p m r c where q: "rx_search x s = Some (p, m, r, c)" by (cases q) auto
    then have "s = p @ m @ r" and "m \<noteq> []"
      using rx_search_split search_consumes by blast+
    with 1 q show ?thesis by (simp add: all_Some)
  qed
qed

end

end
