(* ===== verification/Message_Content.thy ===== *)
theory Message_Content
  imports Js_Regex Js_String
begin

text \<open>
  The renderer of assistant messages, \<open>panel/components/message-content.tsx\<close>: the text is
  cut into fenced code blocks and text blocks, a text block into lines, a line into inline
  nodes. React elements are modelled by the data that reaches the page: kind, key, text,
  link target.
\<close>

section \<open>Fenced code blocks\<close>

datatype block = BCode jstr jstr | BText jstr

abbreviation ticks :: jstr where "ticks \<equiv> [0x60, 0x60, 0x60]"

text \<open>The pattern \<open>/```([^\n`]*)\n([\s\S]*?)```/g\<close>.\<close>

definition fence_rx :: rx where
  "fence_rx = RSeq (RLit ticks) (RSeq (RGrp 1 (RRep True 0 None (\<lambda>c. c \<noteq> 10 \<and> c \<noteq> 0x60)))
     (RSeq (RLit [10]) (RSeq (RGrp 2 (RRep False 0 None (\<lambda>_. True))) (RLit ticks))))"

text \<open>\<open>s.replace(/\n$/, "")\<close>.\<close>

definition chop_nl :: "jstr \<Rightarrow> jstr" where
  "chop_nl s = (if s \<noteq> [] \<and> last s = 10 then butlast s else s)"

fun blocks_of :: "(jstr \<times> jstr \<times> caps) list \<Rightarrow> block list" where
  "blocks_of [] = []"
| "blocks_of ((pre, m, c) # ms) =
     (if pre \<noteq> [] then [BText pre] else []) @
     BCode (trim (cap_str 1 c)) (chop_nl (cap_str 2 c)) # blocks_of ms"

definition split_blocks :: "jstr \<Rightarrow> block list" where
  "split_blocks src = (case rx_all fence_rx src of
     (ms, t) \<Rightarrow> blocks_of ms @ (if t \<noteq> [] then [BText t] else []))"

section \<open>Inline formatting\<close>

text \<open>A node: plain text, or an element with its React key.\<close>

datatype inode =
    NPlain jstr
  | NCode jstr jstr \<comment> \<open>key, text\<close>
  | NBold jstr jstr \<comment> \<open>key, text\<close>
  | NLink jstr jstr jstr \<comment> \<open>key, href, label\<close>

definition code_rx :: rx where
  "code_rx = RSeq (RLit [0x60]) (RSeq (RRep True 1 None (\<lambda>c. c \<noteq> 0x60)) (RLit [0x60]))"

definition bold_rx :: rx where
  "bold_rx = RSeq (RLit (js ''**'')) (RSeq (RRep True 1 None (\<lambda>c. c \<noteq> 0x2A)) (RLit (js ''**'')))"

definition href_rx :: rx where
  "href_rx = RSeq (RLit (js ''http'')) (RSeq (RRep True 0 (Some 1) (\<lambda>c. c = 0x73))
     (RSeq (RLit (js ''://'')) (RRep True 1 None (\<lambda>c. \<not> is_ws c \<and> c \<noteq> 0x29))))"

definition link_rx :: rx where
  "link_rx = RSeq (RLit [0x5B]) (RSeq (RRep True 1 None (\<lambda>c. c \<noteq> 0x5D))
     (RSeq (RLit [0x5D, 0x28]) (RSeq (RGrp 4 href_rx) (RLit [0x29]))))"

definition inline_rx :: rx where
  "inline_rx = RAlt (RGrp 1 code_rx) (RAlt (RGrp 2 bold_rx) (RGrp 3 link_rx))"

text \<open>\<open>s.slice(n, -n)\<close> for a positive \<open>n\<close>, and \<open>s.slice(1, s.indexOf("]"))\<close>.\<close>

definition slice_inner :: "nat \<Rightarrow> jstr \<Rightarrow> jstr" where
  "slice_inner n s = js_slice n (length s - n) s"

definition link_label :: "jstr \<Rightarrow> jstr" where
  "link_label s = js_slice 1 (length (takeWhile (\<lambda>c. c \<noteq> 0x5D) s)) s"

definition inline_node :: "jstr \<Rightarrow> nat \<Rightarrow> caps \<Rightarrow> inode list" where
  "inline_node kb i c =
     (if cap_str 1 c \<noteq> [] then [NCode (kb @ js ''-c'' @ dec_nat i) (slice_inner 1 (cap_str 1 c))]
      else if cap_str 2 c \<noteq> [] then [NBold (kb @ js ''-b'' @ dec_nat i) (slice_inner 2 (cap_str 2 c))]
      else if cap_str 3 c \<noteq> []
        then [NLink (kb @ js ''-l'' @ dec_nat i) (cap_str 4 c) (link_label (cap_str 3 c))]
      else [])"

fun inline_nodes :: "jstr \<Rightarrow> nat \<Rightarrow> (jstr \<times> jstr \<times> caps) list \<Rightarrow> inode list" where
  "inline_nodes kb i [] = []"
| "inline_nodes kb i ((pre, m, c) # ms) =
     (if pre \<noteq> [] then [NPlain pre] else []) @ inline_node kb i c @ inline_nodes kb (Suc i) ms"

definition render_inline :: "jstr \<Rightarrow> jstr \<Rightarrow> inode list" where
  "render_inline text kb = (case rx_all inline_rx text of
     (ms, t) \<Rightarrow> inline_nodes kb 0 ms @ (if t \<noteq> [] then [NPlain t] else []))"

section \<open>Lines and blocks\<close>

datatype rline =
    RHead jstr nat "inode list" \<comment> \<open>key, level, content\<close>
  | RBullet jstr "inode list"
  | RGap jstr
  | RPara jstr "inode list"

text \<open>The patterns \<open>/^(#{1,3})\s+(.*)$/\<close> and \<open>/^\s*[-*]\s+(.*)$/\<close>.\<close>

definition heading_rx :: rx where
  "heading_rx = RSeq (RGrp 1 (RRep True 1 (Some 3) (\<lambda>c. c = 0x23))) (RSeq (RRep True 1 None is_ws)
     (RSeq (RGrp 2 (RRep True 0 None (\<lambda>c. \<not> is_line_end c))) REnd))"

definition bullet_rx :: rx where
  "bullet_rx = RSeq (RRep True 0 None is_ws) (RSeq (RRep True 1 (Some 1) (\<lambda>c. c = 0x2D \<or> c = 0x2A))
     (RSeq (RRep True 1 None is_ws) (RSeq (RGrp 1 (RRep True 0 None (\<lambda>c. \<not> is_line_end c))) REnd)))"

definition render_line :: "jstr \<Rightarrow> jstr \<Rightarrow> rline" where
  "render_line key line = (case rx_exec_at heading_rx line of
      Some (_, _, c) \<Rightarrow> RHead key (length (cap_str 1 c)) (render_inline (cap_str 2 c) key)
    | None \<Rightarrow> (case rx_exec_at bullet_rx line of
        Some (_, _, c) \<Rightarrow> RBullet key (render_inline (cap_str 1 c) key)
      | None \<Rightarrow> if trim line = [] then RGap key else RPara key (render_inline line key)))"

definition text_block :: "jstr \<Rightarrow> jstr \<Rightarrow> rline list" where
  "text_block kb content =
     map (\<lambda>(i, line). render_line (kb @ js ''-'' @ dec_nat i) line) (enumerate 0 (js_split [10] content))"

datatype rblock = RCode jstr jstr \<comment> \<open>caption, code\<close> | RText "rline list"

definition message_content :: "jstr \<Rightarrow> rblock list" where
  "message_content text = map (\<lambda>(i, b). case b of
       BCode lang content \<Rightarrow> RCode (if lang = [] then js ''kod'' else lang) content
     | BText content \<Rightarrow> RText (text_block (js ''t'' @ dec_nat i) content))
     (enumerate 0 (split_blocks text))"

section \<open>The copy button of a code block\<close>

text \<open>
  \<open>copied\<close> is the state of the button, \<open>timers\<close> counts the timeouts that will reset it.
  The clipboard is outside the panel: its answer is the argument.
\<close>

record code_block =
  copied :: bool
  timers :: nat

definition copy_click :: "bool \<Rightarrow> code_block \<Rightarrow> code_block" where
  "copy_click clipboard_ok s =
     (if clipboard_ok then s\<lparr>copied := True, timers := Suc (timers s)\<rparr> else s)"

definition copy_timeout :: "code_block \<Rightarrow> code_block" where
  "copy_timeout s = (if timers s = 0 then s else s\<lparr>copied := False, timers := timers s - 1\<rparr>)"

section \<open>What the patterns match\<close>

interpretation fence: global_pattern fence_rx
  by unfold_locales (auto simp: fence_rx_def rx_match_iffs)

text \<open>The addresses an anchor may get: the scheme is \<open>http\<close> or \<open>https\<close>, without blanks.\<close>

definition web_address :: "jstr \<Rightarrow> bool" where
  "web_address h \<longleftrightarrow> (prefix (js ''http://'') h \<or> prefix (js ''https://'') h)
     \<and> (\<forall>c \<in> set h. \<not> is_ws c \<and> c \<noteq> 0x29)"

lemma href_match: "(m, r, c) \<in> set (rx_match href_rx s) \<Longrightarrow> web_address m \<and> c = []"
proof -
  assume "(m, r, c) \<in> set (rx_match href_rx s)"
  then obtain x t where m: "m = js ''http'' @ x @ js ''://'' @ t" and c: "c = []"
    and x: "\<forall>u \<in> set x. u = 0x73" "length x \<le> 1" and t: "\<forall>u \<in> set t. \<not> is_ws u \<and> u \<noteq> 0x29"
    by (auto simp: href_rx_def rx_match_iffs dest!: rx_match_Rep_dest)
  have "x = [] \<or> x = [0x73]" using x by (cases x) auto
  moreover have lit: "\<forall>u \<in> set (js ''http'' @ [0x73] @ js ''://''). \<not> is_ws u \<and> u \<noteq> 0x29"
    by (simp add: is_ws_def)
  ultimately have "\<forall>u \<in> set m. \<not> is_ws u \<and> u \<noteq> 0x29" using t m by auto
  moreover have "prefix (js ''http://'') m \<or> prefix (js ''https://'') m"
    using \<open>x = [] \<or> x = [0x73]\<close> m by auto
  ultimately show ?thesis using c by (simp add: web_address_def)
qed

text \<open>The three kinds of inline match, with what the groups captured.\<close>

lemma inline_match_cases:
  assumes "(m, r, c) \<in> set (rx_match inline_rx s)"
  obtains (code) t where "c = [(1, m)]" "m = 0x60 # t @ [0x60]" "t \<noteq> []"
  | (bold) t where "c = [(2, m)]" "m = js ''**'' @ t @ js ''**''" "t \<noteq> []"
  | (link) l h where "c = [(3, m), (4, h)]" "m = 0x5B # l @ [0x5D, 0x28] @ h @ [0x29]"
      "l \<noteq> []" "0x5D \<notin> set l" "web_address h"
proof -
  from assms consider c' where "(m, r, c') \<in> set (rx_match code_rx s)" "c = (1, m) # c'"
    | c' where "(m, r, c') \<in> set (rx_match bold_rx s)" "c = (2, m) # c'"
    | c' where "(m, r, c') \<in> set (rx_match link_rx s)" "c = (3, m) # c'"
    by (auto simp: inline_rx_def rx_match_Alt_iff rx_match_Grp_iff)
  then show thesis
  proof cases
    case 1
    then obtain t where "m = 0x60 # t @ [0x60]" "1 \<le> length t" "c' = []"
      by (auto simp: code_rx_def rx_match_iffs dest!: rx_match_Rep_dest)
    with 1 show ?thesis by (intro code [of t]) auto
  next
    case 2
    then obtain t where "m = js ''**'' @ t @ js ''**''" "1 \<le> length t" "c' = []"
      by (auto simp: bold_rx_def rx_match_iffs dest!: rx_match_Rep_dest)
    with 2 show ?thesis by (intro bold [of t]) auto
  next
    case 3
    then obtain l h where "m = 0x5B # l @ [0x5D, 0x28] @ h @ [0x29]" "1 \<le> length l"
        "\<forall>u \<in> set l. u \<noteq> 0x5D" "web_address h" "c' = [(4, h)]"
      by (auto simp: link_rx_def rx_match_iffs dest!: rx_match_Rep_dest href_match)
    with 3 show ?thesis by (intro link [of h l]) auto
  qed
qed

interpretation inline: global_pattern inline_rx
  by unfold_locales (erule inline_match_cases, auto)

section \<open>Inline nodes\<close>

text \<open>The text a node was made from.\<close>

fun node_source :: "inode \<Rightarrow> jstr" where
  "node_source (NPlain t) = t"
| "node_source (NCode k t) = 0x60 # t @ [0x60]"
| "node_source (NBold k t) = js ''**'' @ t @ js ''**''"
| "node_source (NLink k h l) = 0x5B # l @ [0x5D, 0x28] @ h @ [0x29]"

fun node_keys :: "inode \<Rightarrow> jstr list" where
  "node_keys (NPlain t) = []"
| "node_keys (NCode k t) = [k]"
| "node_keys (NBold k t) = [k]"
| "node_keys (NLink k h l) = [k]"

fun node_safe :: "inode \<Rightarrow> bool" where
  "node_safe (NLink k h l) = web_address h"
| "node_safe n = True"

lemma link_label_eq: "0x5D \<notin> set l \<Longrightarrow> link_label (0x5B # l @ 0x5D # r) = l"
proof -
  assume "0x5D \<notin> set l"
  then have "takeWhile (\<lambda>c. c \<noteq> 0x5D) (l @ 0x5D # r) = l"
    by (subst takeWhile_all_append) auto
  then show ?thesis by (simp add: link_label_def js_slice_def)
qed

text \<open>A match becomes exactly one element, which spells out the match.\<close>

lemma inline_node_match:
  assumes "(m, r, c) \<in> set (rx_match inline_rx s)"
  shows "\<exists>n x. inline_node kb i c = [n] \<and> node_source n = m \<and> node_safe n
     \<and> node_keys n = [kb @ 0x2D # x # dec_nat i]"
  using assms
proof (cases rule: inline_match_cases)
  case (code t)
  then show ?thesis
    by (intro exI [of _ "NCode _ t"]) (auto simp: inline_node_def cap_str_def cap_def slice_inner_def js_slice_def)
next
  case (bold t)
  then show ?thesis
    by (intro exI [of _ "NBold _ t"]) (auto simp: inline_node_def cap_str_def cap_def slice_inner_def js_slice_def)
next
  case (link l h)
  then show ?thesis
    by (intro exI [of _ "NLink _ h l"]) (auto simp: inline_node_def cap_str_def cap_def link_label_eq)
qed

lemma inline_nodes_facts:
  assumes "\<forall>(p, m, c) \<in> set ms. \<exists>r. (m, r, c) \<in> set (rx_match inline_rx (m @ r))"
  shows "concat (map node_source (inline_nodes kb i ms)) = concat (map (\<lambda>(p, m, c). p @ m) ms)
    \<and> list_all node_safe (inline_nodes kb i ms)
    \<and> distinct (concat (map node_keys (inline_nodes kb i ms)))
    \<and> (\<forall>k \<in> set (concat (map node_keys (inline_nodes kb i ms))). \<exists>j x. i \<le> j \<and> k = kb @ 0x2D # x # dec_nat j)"
  using assms
proof (induction kb i ms rule: inline_nodes.induct)
  case (2 kb i pre m c ms)
  from "2.prems" obtain r where "(m, r, c) \<in> set (rx_match inline_rx (m @ r))" by auto
  from inline_node_match [OF this, of kb i] obtain n x where
    n: "inline_node kb i c = [n]" "node_source n = m" "node_safe n" "node_keys n = [kb @ 0x2D # x # dec_nat i]"
    by blast
  let ?ns = "inline_nodes kb (Suc i) ms"
  from 2 have IH: "concat (map node_source ?ns) = concat (map (\<lambda>(p, m, c). p @ m) ms)"
    "list_all node_safe ?ns" "distinct (concat (map node_keys ?ns))"
    and keys: "\<forall>k \<in> set (concat (map node_keys ?ns)). \<exists>j x. Suc i \<le> j \<and> k = kb @ 0x2D # x # dec_nat j"
    by simp_all
  have "kb @ 0x2D # x # dec_nat i \<notin> set (concat (map node_keys ?ns))"
    using keys by fastforce
  moreover have "\<forall>k \<in> set (concat (map node_keys ?ns)). \<exists>j x. i \<le> j \<and> k = kb @ 0x2D # x # dec_nat j"
    using keys by (meson Suc_leD)
  ultimately show ?case using n IH by auto
qed simp

lemma render_inline_facts:
  shows "concat (map node_source (render_inline t kb)) = t"
    and "list_all node_safe (render_inline t kb)"
    and "distinct (concat (map node_keys (render_inline t kb)))"
proof -
  define ms where "ms = fst (rx_all inline_rx t)"
  define tl where "tl = snd (rx_all inline_rx t)"
  have all: "rx_all inline_rx t = (ms, tl)" by (simp add: ms_def tl_def)
  have "\<forall>(p, m, c) \<in> set ms. \<exists>r. (m, r, c) \<in> set (rx_match inline_rx (m @ r))"
    using inline.all_matches unfolding ms_def by blast
  note facts = inline_nodes_facts [OF this, of kb 0]
  have part: "concat (map (\<lambda>(p, m, c). p @ m) ms) @ tl = t"
    using inline.all_partition [of t] by (simp add: ms_def tl_def)
  show "concat (map node_source (render_inline t kb)) = t"
    using facts part by (auto simp: render_inline_def all)
  show "list_all node_safe (render_inline t kb)" "distinct (concat (map node_keys (render_inline t kb)))"
    using facts by (simp_all add: render_inline_def all)
qed

section \<open>Properties of the renderer\<close>

text \<open>The addresses of all anchors on the page.\<close>

definition node_hrefs :: "inode list \<Rightarrow> jstr list" where
  "node_hrefs ns = concat (map (\<lambda>n. case n of NLink k h l \<Rightarrow> [h] | _ \<Rightarrow> []) ns)"

fun line_nodes :: "rline \<Rightarrow> inode list" where
  "line_nodes (RHead k n ns) = ns"
| "line_nodes (RBullet k ns) = ns"
| "line_nodes (RGap k) = []"
| "line_nodes (RPara k ns) = ns"

fun block_nodes :: "rblock \<Rightarrow> inode list" where
  "block_nodes (RCode caption code) = []"
| "block_nodes (RText ls) = concat (map line_nodes ls)"

definition anchors :: "rblock list \<Rightarrow> jstr list" where
  "anchors bs = node_hrefs (concat (map block_nodes bs))"

lemma node_hrefs_safe: "list_all node_safe ns \<Longrightarrow> h \<in> set (node_hrefs ns) \<Longrightarrow> web_address h"
  by (induction ns) (auto simp: node_hrefs_def split: inode.splits)

lemma render_line_safe: "list_all node_safe (line_nodes (render_line k l))"
  using render_inline_facts(2) by (auto simp: render_line_def split: option.split)

lemma text_block_safe: "list_all node_safe (concat (map line_nodes (text_block kb t)))"
  using render_line_safe by (auto simp: text_block_def list_all_iff)

lemma message_content_safe: "list_all node_safe (concat (map block_nodes (message_content t)))"
  using text_block_safe by (auto simp: message_content_def list_all_iff split: block.splits)

text \<open>Whatever text a model answers with, every anchor the renderer puts on the page
  points to an \<open>http://\<close> or \<open>https://\<close> address without blanks: no \<open>javascript:\<close> link can
  come out of a message.\<close>

theorem message_links_are_web_addresses:
  "\<forall>h \<in> set (anchors (message_content text)). web_address h"
  using node_hrefs_safe [OF message_content_safe] by (simp add: anchors_def)

theorem message_links_witness:
  "anchors (message_content (js ''[a](https://b.c/d) [e](javascript:f)'')) = [js ''https://b.c/d'']
    \<and> web_address (js ''https://b.c/d'')"
proof -
  have e: "anchors (message_content (js ''[a](https://b.c/d) [e](javascript:f)'')) = [js ''https://b.c/d'']"
    by code_simp
  show ?thesis
    using message_links_are_web_addresses [of "js ''[a](https://b.c/d) [e](javascript:f)''"] unfolding e by simp
qed

text \<open>C18. Inline rendering loses and invents nothing: putting the delimiters back around the
  nodes gives exactly the text of the line, and no two sibling elements share a React key.\<close>

theorem inline_rendering_is_faithful:
  "concat (map node_source (render_inline text kb)) = text
    \<and> distinct (concat (map node_keys (render_inline text kb)))"
  by (simp add: render_inline_facts)

end
