(* ===== verification/Message_Blocks.thy ===== *)
theory Message_Blocks
  imports Message_Content
begin

text \<open>
  Properties of the block splitter and the page of a message: the blocks cover the text, a
  Markdown text written from blocks is split into those blocks, the keys on the page.
\<close>

section \<open>Properties of the block splitter\<close>

text \<open>The source text a block stands for.\<close>

fun covers :: "jstr \<Rightarrow> block \<Rightarrow> bool" where
  "covers raw (BText t) = (raw = t \<and> t \<noteq> [])"
| "covers raw (BCode l code) = (\<exists>info body. raw = ticks @ info @ [10] @ body @ ticks
     \<and> 10 \<notin> set info \<and> 0x60 \<notin> set info \<and> l = trim info \<and> code = chop_nl body)"

lemma fence_match:
  assumes "(m, r, c) \<in> set (rx_match fence_rx s)"
  shows "covers m (BCode (trim (cap_str 1 c)) (chop_nl (cap_str 2 c)))"
proof -
  from assms obtain info body where "m = ticks @ info @ [10] @ body @ ticks"
    and "c = [(1, info), (2, body)]" and "\<forall>u \<in> set info. u \<noteq> 10 \<and> u \<noteq> 0x60"
    by (auto simp: fence_rx_def rx_match_iffs dest!: rx_match_Rep_dest)
  then have "m = ticks @ info @ [10] @ body @ ticks \<and> 10 \<notin> set info \<and> 0x60 \<notin> set info
      \<and> trim (cap_str 1 c) = trim info \<and> chop_nl (cap_str 2 c) = chop_nl body"
    by (auto simp: cap_str_def cap_def)
  then show ?thesis unfolding covers.simps by blast
qed

lemma blocks_of_cover:
  assumes "\<forall>(p, m, c) \<in> set ms. \<exists>r. (m, r, c) \<in> set (rx_match fence_rx (m @ r))"
  shows "\<exists>raws. concat raws = concat (map (\<lambda>(p, m, c). p @ m) ms) \<and> list_all2 covers raws (blocks_of ms)"
  using assms
proof (induction ms rule: blocks_of.induct)
  case (2 pre m c ms)
  then obtain raws r where raws: "concat raws = concat (map (\<lambda>(p, m, c). p @ m) ms)"
    "list_all2 covers raws (blocks_of ms)" and m: "(m, r, c) \<in> set (rx_match fence_rx (m @ r))"
    by auto
  show ?case
    using raws fence_match [OF m]
    by (intro exI [of _ "(if pre \<noteq> [] then [pre] else []) @ m # raws"]) (auto simp del: covers.simps(2))
qed simp

text \<open>Splitting a message into text and code blocks covers the message: the blocks, in
  their order, stand for consecutive pieces that make up the whole text, a text block for
  itself and a code block for a fence whose info line and body it shows.\<close>

theorem split_blocks_covers:
  "\<exists>raws. concat raws = src \<and> list_all2 covers raws (split_blocks src)"
proof -
  define ms where "ms = fst (rx_all fence_rx src)"
  define tl where "tl = snd (rx_all fence_rx src)"
  have all: "rx_all fence_rx src = (ms, tl)" by (simp add: ms_def tl_def)
  have "\<forall>(p, m, c) \<in> set ms. \<exists>r. (m, r, c) \<in> set (rx_match fence_rx (m @ r))"
    using fence.all_matches unfolding ms_def by blast
  from blocks_of_cover [OF this] obtain raws where
    "concat raws = concat (map (\<lambda>(p, m, c). p @ m) ms)" "list_all2 covers raws (blocks_of ms)" by blast
  moreover have "concat (map (\<lambda>(p, m, c). p @ m) ms) @ tl = src"
    using fence.all_partition [of src] by (simp add: ms_def tl_def)
  ultimately show ?thesis
    unfolding split_blocks_def all prod.case
    by (intro exI [of _ "raws @ (if tl \<noteq> [] then [tl] else [])"] conjI list_all2_appendI) auto
qed

text \<open>Where a fence starts, the pattern takes the rest of the line and the shortest body.\<close>

lemma fence_exec:
  assumes "10 \<notin> set info" and "0x60 \<notin> set info"
  shows "rx_exec_at fence_rx (ticks @ info @ [10] @ s) =
    map_option (\<lambda>(a, b). (ticks @ info @ [10] @ a @ ticks, b, [(1, info), (2, a)])) (cut_at ticks s)"
proof -
  let ?body = "RSeq (RGrp 2 (RRep False 0 None (\<lambda>_. True))) (RLit ticks)"
  let ?line = "RSeq (RGrp 1 (RRep True 0 None (\<lambda>c. c \<noteq> 10 \<and> c \<noteq> 0x60))) (RSeq (RLit [10]) ?body)"
  have line: "rx_match ?line (info @ 10 # s) =
      map (\<lambda>(m, r, c). (info @ 10 # m, r, (1, info) # c)) (rx_match ?body s)"
    using assms by (intro greedy_class_lit) auto
  have "rx_match (RSeq (RLit ticks) x) (ticks @ t) = map (\<lambda>(m, r, c). (ticks @ m, r, c)) (rx_match x t)" for x t
    by (simp add: rx_match.simps)
  from this [of ?line "info @ 10 # s"] have "rx_match fence_rx (ticks @ info @ 10 # s) =
      map (\<lambda>(m, r, c). (ticks @ info @ 10 # m, r, (1, info) # c)) (rx_match ?body s)"
    unfolding fence_rx_def line by (simp add: comp_def case_prod_beta)
  then show ?thesis
    using lazy_lit_cut [of 2 ticks s]
    by (cases "rx_match ?body s"; cases "cut_at ticks s") (auto simp: rx_exec_at_def head_opt_def)
qed

lemma no_fence_in_text: "0x60 \<notin> set a \<Longrightarrow> i < length a \<Longrightarrow> rx_match fence_rx (drop i a @ s) = []"
proof -
  assume a: "0x60 \<notin> set a" and i: "i < length a"
  have "drop i a = a ! i # drop (Suc i) a" using i by (rule Cons_nth_drop_Suc [symmetric])
  moreover have "a ! i \<noteq> 0x60" using a i nth_mem by metis
  ultimately show ?thesis by (simp add: fence_rx_def rx_match.simps)
qed

lemma no_fence_at_all: "0x60 \<notin> set a \<Longrightarrow> rx_search fence_rx a = None"
proof -
  assume a: "0x60 \<notin> set a"
  have "rx_match fence_rx t = []" if "suffix t a" for t
    using a that by (cases t) (auto simp: fence_rx_def rx_match.simps suffix_def)
  then show ?thesis by (simp add: rx_search_None)
qed

text \<open>Writing blocks back as Markdown, and the block lists that can be written.\<close>

fun write_block :: "block \<Rightarrow> jstr" where
  "write_block (BText t) = t"
| "write_block (BCode l code) = ticks @ l @ [10] @ (code @ [10]) @ ticks"

definition text_ok :: "jstr \<Rightarrow> bool" where
  "text_ok t \<longleftrightarrow> t \<noteq> [] \<and> 0x60 \<notin> set t"

definition code_ok :: "jstr \<Rightarrow> jstr \<Rightarrow> bool" where
  "code_ok l code \<longleftrightarrow> trimmed l \<and> 10 \<notin> set l \<and> 0x60 \<notin> set l \<and> \<not> sublist ticks code"

fun blocks_ok :: "block list \<Rightarrow> bool" where
  "blocks_ok [] = True"
| "blocks_ok [BText t] = text_ok t"
| "blocks_ok (BText t # BText u # bs) = False"
| "blocks_ok (BText t # BCode l code # bs) = (text_ok t \<and> code_ok l code \<and> blocks_ok bs)"
| "blocks_ok (BCode l code # bs) = (code_ok l code \<and> blocks_ok bs)"

lemma cut_code:
  assumes "\<not> sublist ticks code"
  shows "cut_at ticks ((code @ [10]) @ ticks @ r) = Some (code @ [10], r)"
proof (rule cut_at_here)
  have "\<not> sublist ticks (code @ [10, 0x60, 0x60])"
    using assms
  proof (induction code)
    case (Cons c code)
    have "\<not> prefix ticks (c # code @ [10, 0x60, 0x60])"
      using Cons.prems by (cases code; cases "tl code"; cases "tl (tl code)") (auto simp: sublist_Cons_right)
    with Cons show ?case by (simp add: sublist_Cons_right)
  qed (simp add: sublist_Cons_right)
  then show "\<not> sublist ticks ((code @ [10]) @ butlast ticks)" by simp
qed simp

text \<open>One step of the splitter on written blocks.\<close>

lemma write_code_exec:
  assumes "code_ok l code"
  shows "rx_exec_at fence_rx (write_block (BCode l code) @ r) =
    Some (write_block (BCode l code), r, [(1, l), (2, code @ [10])])"
  using assms fence_exec [of l "(code @ [10]) @ ticks @ r"] cut_code [of code r]
  by (simp add: code_ok_def)

lemma rx_all_code:
  assumes "code_ok l code" and "0x60 \<notin> set t"
  shows "rx_all fence_rx (t @ write_block (BCode l code) @ r) =
    (let (ms, u) = rx_all fence_rx r in ((t, write_block (BCode l code), [(1, l), (2, code @ [10])]) # ms, u))"
proof -
  have "rx_search fence_rx (t @ write_block (BCode l code) @ r) =
      Some (t, write_block (BCode l code), r, [(1, l), (2, code @ [10])])"
    using assms by (intro rx_search_behind write_code_exec no_fence_in_text)
  then show ?thesis by (subst rx_all.simps) simp
qed

lemma rx_all_text: "0x60 \<notin> set t \<Longrightarrow> rx_all fence_rx t = ([], t)"
  by (subst rx_all.simps) (simp add: no_fence_at_all)

text \<open>C17. Round trip: blocks written as Markdown, code in fences and texts as they are, are split
  into exactly those blocks, languages and code included. The lists that can be written have no
  empty text, no two adjacent texts, no backtick in a text and no fence inside a code block.\<close>

theorem split_blocks_write:
  "blocks_ok bs \<Longrightarrow> split_blocks (concat (map write_block bs)) = bs"
proof (induction bs rule: blocks_ok.induct)
  case (4 t l code bs)
  then show ?case
    using rx_all_code [of l code t "concat (map write_block bs)"]
    by (auto simp: split_blocks_def Let_def text_ok_def code_ok_def cap_str_def cap_def chop_nl_def trim_trimmed
      simp del: write_block.simps(2) split: prod.splits)
next
  case (5 l code bs)
  then show ?case
    using rx_all_code [of l code "[]" "concat (map write_block bs)"]
    by (auto simp: split_blocks_def Let_def code_ok_def cap_str_def cap_def chop_nl_def trim_trimmed
      simp del: write_block.simps(2) split: prod.splits)
qed (auto simp: split_blocks_def rx_all_text text_ok_def)

theorem split_blocks_write_witness:
  "split_blocks (concat (map write_block
      [BText (js ''Hi:''), BCode (js ''py'') (js ''x = 1''), BCode [] [], BText (js ''ok'')])) =
    [BText (js ''Hi:''), BCode (js ''py'') (js ''x = 1''), BCode [] [], BText (js ''ok'')]"
  by (rule split_blocks_write) code_simp

end
