(* ===== verification/Js_Utf8.thy ===== *)
theory Js_Utf8
  imports Js_Json_Facts
begin

text \<open>
  The streaming UTF-8 decoder of the platform, \<open>new TextDecoder()\<close> with
  \<open>decode(chunk, { stream: true })\<close>, and the encoder of request and response bodies. The
  decoder consumes one byte at a time and keeps its state between chunks; a leading byte
  order mark is dropped, a malformed sequence becomes U+FFFD.
\<close>

section \<open>Scalar values\<close>

definition scalar :: "nat \<Rightarrow> bool" where
  "scalar n \<longleftrightarrow> n < 0xD800 \<or> (0xE000 \<le> n \<and> n < 0x110000)"

definition units_of :: "nat \<Rightarrow> jstr" where
  "units_of n = (if n < 0x10000 then [of_nat n]
     else [of_nat (0xD800 + (n - 0x10000) div 1024), of_nat (0xDC00 + (n - 0x10000) mod 1024)])"

text \<open>The scalar values of a string; a lone surrogate counts as U+FFFD.\<close>

fun scalars :: "jstr \<Rightarrow> nat list" where
  "scalars [] = []"
| "scalars [c] = [if is_high c \<or> is_low c then 0xFFFD else unat c]"
| "scalars (c # d # cs) =
     (if is_high c \<and> is_low d
      then (0x10000 + (unat c - 0xD800) * 1024 + (unat d - 0xDC00)) # scalars cs
      else (if is_high c \<or> is_low c then 0xFFFD else unat c) # scalars (d # cs))"

fun well_formed :: "jstr \<Rightarrow> bool" where
  "well_formed [] = True"
| "well_formed [c] = (\<not> is_high c \<and> \<not> is_low c)"
| "well_formed (c # d # cs) =
     (if is_high c then is_low d \<and> well_formed cs else \<not> is_low c \<and> well_formed (d # cs))"

section \<open>Encoding and decoding\<close>

definition utf8_of :: "nat \<Rightarrow> u8 list" where
  "utf8_of n = map of_nat
     (if n < 0x80 then [n]
      else if n < 0x800 then [0xC0 + n div 64, 0x80 + n mod 64]
      else if n < 0x10000 then [0xE0 + n div 4096, 0x80 + n div 64 mod 64, 0x80 + n mod 64]
      else [0xF0 + n div 262144, 0x80 + n div 4096 mod 64, 0x80 + n div 64 mod 64, 0x80 + n mod 64])"

definition utf8_encode :: "jstr \<Rightarrow> u8 list" where
  "utf8_encode s = concat (map utf8_of (scalars s))"

text \<open>
  \<open>needed\<close> continuation bytes are missing for the code point collected in \<open>point\<close>; the
  next one must lie between \<open>lower\<close> and \<open>upper\<close>.
\<close>

record decoder =
  needed :: nat
  point :: nat
  lower :: nat
  upper :: nat
  bom_seen :: bool

definition decoder_init :: decoder where
  "decoder_init = \<lparr>needed = 0, point = 0, lower = 0x80, upper = 0xBF, bom_seen = False\<rparr>"

definition reset_decoder :: "decoder \<Rightarrow> decoder" where
  "reset_decoder d = d\<lparr>needed := 0, point := 0, lower := 0x80, upper := 0xBF\<rparr>"

definition emit_point :: "nat \<Rightarrow> decoder \<Rightarrow> jstr \<times> decoder" where
  "emit_point n d = (if \<not> bom_seen d \<and> n = 0xFEFF then [] else units_of n, (reset_decoder d)\<lparr>bom_seen := True\<rparr>)"

definition start_byte :: "nat \<Rightarrow> decoder \<Rightarrow> jstr \<times> decoder" where
  "start_byte b d =
     (if b < 0x80 then emit_point b d
      else if 0xC2 \<le> b \<and> b \<le> 0xDF then ([], d\<lparr>needed := 1, point := b mod 32\<rparr>)
      else if 0xE0 \<le> b \<and> b \<le> 0xEF
        then ([], d\<lparr>needed := 2, point := b mod 16, lower := if b = 0xE0 then 0xA0 else 0x80,
                upper := if b = 0xED then 0x9F else 0xBF\<rparr>)
      else if 0xF0 \<le> b \<and> b \<le> 0xF4
        then ([], d\<lparr>needed := 3, point := b mod 8, lower := if b = 0xF0 then 0x90 else 0x80,
                upper := if b = 0xF4 then 0x8F else 0xBF\<rparr>)
      else emit_point 0xFFFD d)"

definition decode_byte :: "u8 \<Rightarrow> decoder \<Rightarrow> jstr \<times> decoder" where
  "decode_byte w d = (let b = unat w in
     if needed d = 0 then start_byte b d
     else if b < lower d \<or> upper d < b
       then (let (s, d1) = emit_point 0xFFFD d; (t, d2) = start_byte b d1 in (s @ t, d2))
     else (let p = point d * 64 + b mod 64 in
       if needed d = 1 then emit_point p d
       else ([], d\<lparr>needed := needed d - 1, point := p, lower := 0x80, upper := 0xBF\<rparr>)))"

fun decode_bytes :: "u8 list \<Rightarrow> decoder \<Rightarrow> jstr \<times> decoder" where
  "decode_bytes [] d = ([], d)"
| "decode_bytes (b # bs) d =
     (let (s, d1) = decode_byte b d; (t, d2) = decode_bytes bs d1 in (s @ t, d2))"

text \<open>A whole body, as \<open>Response.json()\<close> reads it: the end of the body is known.\<close>

definition utf8_text :: "u8 list \<Rightarrow> jstr" where
  "utf8_text bs = (let (s, d) = decode_bytes bs decoder_init in
     if needed d = 0 then s else s @ fst (emit_point 0xFFFD d))"

section \<open>Facts\<close>

text \<open>Decoding in two chunks is decoding their concatenation.\<close>

lemma decode_bytes_append:
  "decode_bytes (xs @ ys) d =
     (let (s, d1) = decode_bytes xs d; (t, d2) = decode_bytes ys d1 in (s @ t, d2))"
  by (induction xs arbitrary: d) (auto simp: Let_def split: prod.splits)

definition ready :: "decoder \<Rightarrow> bool" where
  "ready d \<longleftrightarrow> needed d = 0 \<and> point d = 0 \<and> lower d = 0x80 \<and> upper d = 0xBF"

lemma ready_init [simp]: "ready decoder_init"
  by (simp add: ready_def decoder_init_def)

lemma reset_ready: "ready d \<Longrightarrow> reset_decoder d = d"
  by (simp add: ready_def reset_decoder_def)

lemma ready_emit [simp]: "ready ((reset_decoder d)\<lparr>bom_seen := True\<rparr>)"
  by (simp add: ready_def reset_decoder_def)

lemma unat_byte: "n < 256 \<Longrightarrow> unat (of_nat n :: u8) = n"
  by (simp add: unat_of_nat)

lemma decode_lead: "needed d = 0 \<Longrightarrow> n < 256 \<Longrightarrow> decode_byte (of_nat n) d = start_byte n d"
  by (simp add: decode_byte_def unat_byte)

lemma decode_more:
  assumes "1 < needed d" and "b < 256" and "lower d \<le> b" and "b \<le> upper d"
  shows "decode_byte (of_nat b) d =
    ([], d\<lparr>needed := needed d - 1, point := point d * 64 + b mod 64, lower := 0x80, upper := 0xBF\<rparr>)"
  using assms by (simp add: decode_byte_def unat_byte Let_def)

lemma decode_last:
  assumes "needed d = 1" and "b < 256" and "lower d \<le> b" and "b \<le> upper d"
  shows "decode_byte (of_nat b) d = emit_point (point d * 64 + b mod 64) d"
  using assms by (simp add: decode_byte_def unat_byte Let_def)

lemma tail_bits: "n < 64 \<Longrightarrow> (0x80 + n) mod 64 = (n :: nat)" "n < 64 \<Longrightarrow> 0x80 + n < (256 :: nat)"
  using mod_mult_self3 [of 2 64 n] by simp_all

lemma lead_bits:
  "q < 32 \<Longrightarrow> (0xC0 + q) mod 32 = (q :: nat)" "q < 16 \<Longrightarrow> (0xE0 + q) mod 16 = q"
  "q < 8 \<Longrightarrow> (0xF0 + q) mod 8 = q"
  using mod_mult_self3 [of 6 32 q] mod_mult_self3 [of 14 16 q] mod_mult_self3 [of 30 8 q] by simp_all

lemma base64: "n div 64 * 64 + n mod 64 = (n :: nat)" "n div 4096 * 64 + n div 64 mod 64 = n div 64"
  "n div 262144 * 64 + n div 4096 mod 64 = n div 4096"
  using div_mult_mod_eq [of n 64] div_mult_mod_eq [of "n div 64" 64] div_mult_mod_eq [of "n div 4096" 64]
  by (simp_all add: div_mult2_eq [symmetric])

lemma emit_point_upd:
  "ready d \<Longrightarrow> emit_point n (d\<lparr>needed := a, point := b, lower := l, upper := u\<rparr>) = emit_point n d"
  by (simp add: emit_point_def reset_decoder_def)

lemma decode_bytes_quiet: "decode_byte b d = ([], d1) \<Longrightarrow> decode_bytes (b # bs) d = decode_bytes bs d1"
  by (simp split: prod.splits)

lemma decode_bytes_one: "decode_bytes [b] d = decode_byte b d"
  by (simp split: prod.splits)

lemma decode_two:
  assumes "ready d" and "0x80 \<le> n" and "n < 0x800"
  shows "decode_bytes [of_nat (0xC0 + n div 64), of_nat (0x80 + n mod 64)] d = emit_point n d"
proof -
  let ?d = "d\<lparr>needed := 1, point := n div 64\<rparr>"
  have d: "needed d = 0" "point d = 0" "lower d = 0x80" "upper d = 0xBF" using assms(1) by (simp_all add: ready_def)
  have "2 \<le> n div 64" "n div 64 < 32" using assms by linarith+
  then have q: "0xC2 \<le> 0xC0 + n div 64" "0xC0 + n div 64 \<le> 0xDF" "n div 64 < 32" by simp_all
  have m: "(0xC0 + n div 64) mod 32 = n div 64" by (rule lead_bits) (rule q)
  have lead: "decode_byte (of_nat (0xC0 + n div 64)) d = ([], ?d)"
    using decode_lead [of d "0xC0 + n div 64"] d q m by (simp add: start_byte_def del: of_nat_add)
  have l: "n mod 64 < 64" "n mod 64 \<le> 63" by simp_all
  have last: "decode_byte (of_nat (0x80 + n mod 64)) ?d = emit_point n ?d"
    using decode_last [of ?d "0x80 + n mod 64"] d l tail_bits [OF l(1)] base64(1) [of n] by (simp del: of_nat_add)
  have "emit_point n ?d = emit_point n d" by (simp add: emit_point_def reset_decoder_def)
  then show ?thesis by (simp only: decode_bytes_quiet [OF lead] decode_bytes_one last)
qed

lemma decode_three:
  assumes "ready d" and "0x800 \<le> n" and "n < 0x10000" and "scalar n"
  shows "decode_bytes [of_nat (0xE0 + n div 4096), of_nat (0x80 + n div 64 mod 64), of_nat (0x80 + n mod 64)] d
    = emit_point n d"
proof -
  define q where "q = n div 4096"
  define r where "r = n div 64 mod 64"
  define l where "l = n mod 64"
  have q: "q < 16" and r: "r < 64" and l: "l < 64" using assms by (auto simp: q_def r_def l_def)
  have n: "(q * 64 + r) * 64 + l = n" by (simp add: q_def r_def l_def base64)
  let ?lo = "if 0xE0 + q = 0xE0 then 0xA0 else 0x80 :: nat"
  let ?up = "if 0xE0 + q = 0xED then 0x9F else 0xBF :: nat"
  have lo: "?lo \<le> 0x80 + r" using assms(2) n q r l by auto
  have up: "0x80 + r \<le> ?up" using assms(4) n q r l by (auto simp: scalar_def)
  let ?d1 = "d\<lparr>needed := 2, point := q, lower := ?lo, upper := ?up\<rparr>"
  let ?d2 = "d\<lparr>needed := 1, point := q * 64 + r, lower := 0x80, upper := 0xBF\<rparr>"
  have d: "needed d = 0" "point d = 0" "lower d = 0x80" "upper d = 0xBF" using assms(1) by (simp_all add: ready_def)
  have m: "(0xE0 + q) mod 16 = q" by (rule lead_bits) (rule q)
  have lead: "decode_byte (of_nat (0xE0 + q)) d = ([], ?d1)"
    using decode_lead [of d "0xE0 + q"] d q m by (simp add: start_byte_def del: of_nat_add)
  have more: "decode_byte (of_nat (0x80 + r)) ?d1 = ([], ?d2)"
    using decode_more [of ?d1 "0x80 + r"] lo up tail_bits [OF r] by (simp del: of_nat_add)
  have last: "decode_byte (of_nat (0x80 + l)) ?d2 = emit_point ((q * 64 + r) * 64 + l) ?d2"
    using decode_last [of ?d2 "0x80 + l"] l tail_bits [OF l] by (simp del: of_nat_add)
  show ?thesis
    unfolding q_def [symmetric] r_def [symmetric] l_def [symmetric]
    by (simp only: decode_bytes_quiet [OF lead] decode_bytes_quiet [OF more] decode_bytes_one last n
      emit_point_upd [OF assms(1)])
qed

lemma decode_four:
  assumes "ready d" and "0x10000 \<le> n" and "n < 0x110000"
  shows "decode_bytes [of_nat (0xF0 + n div 262144), of_nat (0x80 + n div 4096 mod 64),
      of_nat (0x80 + n div 64 mod 64), of_nat (0x80 + n mod 64)] d = emit_point n d"
proof -
  define q where "q = n div 262144"
  define p where "p = n div 4096 mod 64"
  define r where "r = n div 64 mod 64"
  define l where "l = n mod 64"
  have q: "q < 5" and p: "p < 64" and r: "r < 64" and l: "l < 64" using assms by (auto simp: q_def p_def r_def l_def)
  have n: "((q * 64 + p) * 64 + r) * 64 + l = n" by (simp add: q_def p_def r_def l_def base64)
  let ?lo = "if 0xF0 + q = 0xF0 then 0x90 else 0x80 :: nat"
  let ?up = "if 0xF0 + q = 0xF4 then 0x8F else 0xBF :: nat"
  have lo: "?lo \<le> 0x80 + p" using assms(2) n q p r l by auto
  have up: "0x80 + p \<le> ?up" using assms(3) n q p r l by auto
  let ?d1 = "d\<lparr>needed := 3, point := q, lower := ?lo, upper := ?up\<rparr>"
  let ?d2 = "d\<lparr>needed := 2, point := q * 64 + p, lower := 0x80, upper := 0xBF\<rparr>"
  let ?d3 = "d\<lparr>needed := 1, point := (q * 64 + p) * 64 + r, lower := 0x80, upper := 0xBF\<rparr>"
  have d: "needed d = 0" "point d = 0" "lower d = 0x80" "upper d = 0xBF" using assms(1) by (simp_all add: ready_def)
  have m: "(0xF0 + q) mod 8 = q" by (rule lead_bits) (use q in simp)
  have lead: "decode_byte (of_nat (0xF0 + q)) d = ([], ?d1)"
    using decode_lead [of d "0xF0 + q"] d q m by (simp add: start_byte_def del: of_nat_add)
  have more: "decode_byte (of_nat (0x80 + p)) ?d1 = ([], ?d2)"
    using decode_more [of ?d1 "0x80 + p"] lo up tail_bits [OF p] by (simp del: of_nat_add)
  have more2: "decode_byte (of_nat (0x80 + r)) ?d2 = ([], ?d3)"
    using decode_more [of ?d2 "0x80 + r"] r tail_bits [OF r] by (simp del: of_nat_add)
  have last: "decode_byte (of_nat (0x80 + l)) ?d3 = emit_point (((q * 64 + p) * 64 + r) * 64 + l) ?d3"
    using decode_last [of ?d3 "0x80 + l"] l tail_bits [OF l] by (simp del: of_nat_add)
  show ?thesis
    unfolding q_def [symmetric] p_def [symmetric] r_def [symmetric] l_def [symmetric]
    by (simp only: decode_bytes_quiet [OF lead] decode_bytes_quiet [OF more] decode_bytes_quiet [OF more2]
      decode_bytes_one last n emit_point_upd [OF assms(1)])
qed

lemma decode_utf8_of:
  assumes "ready d" and "scalar n"
  shows "decode_bytes (utf8_of n) d = emit_point n d"
proof -
  consider "n < 0x80" | "0x80 \<le> n" "n < 0x800" | "0x800 \<le> n" "n < 0x10000" | "0x10000 \<le> n" "n < 0x110000"
    using assms(2) by (fastforce simp: scalar_def)
  then show ?thesis
  proof cases
    case 1
    have "decode_byte (of_nat n) d = emit_point n d"
      by (subst decode_lead) (use 1 assms(1) in \<open>simp_all add: start_byte_def ready_def\<close>)
    then show ?thesis using 1 by (simp add: utf8_of_def split: prod.splits)
  qed (use assms in \<open>simp_all add: utf8_of_def decode_two decode_three decode_four del: decode_bytes.simps of_nat_add\<close>)
qed

lemma decode_scalars:
  assumes "ready d" and "\<forall>n \<in> set ns. scalar n" and "bom_seen d"
  shows "decode_bytes (concat (map utf8_of ns)) d = (concat (map units_of ns), d)"
  using assms(2)
proof (induction ns)
  case (Cons n ns)
  have e: "emit_point n d = (units_of n, d)"
    using assms by (simp add: emit_point_def reset_ready)
  show ?case
    using Cons assms(1) by (simp add: decode_bytes_append decode_utf8_of e)
qed simp

text \<open>The units of the scalar values of a well-formed string are the string.\<close>

lemma unit_hi_lo:
  assumes "is_high c" and "is_low d"
  shows "units_of (0x10000 + (unat c - 0xD800) * 1024 + (unat d - 0xDC00)) = [c, d]"
    and "scalar (0x10000 + (unat c - 0xD800) * 1024 + (unat d - 0xDC00))"
proof -
  have c: "0xD800 \<le> unat c" "unat c \<le> 0xDBFF" using assms(1) by (simp_all add: is_high_def word_le_nat_alt)
  have d: "0xDC00 \<le> unat d" "unat d \<le> 0xDFFF" using assms(2) by (simp_all add: is_low_def word_le_nat_alt)
  define h where "h = unat c - 0xD800"
  define l where "l = unat d - 0xDC00"
  have hl: "h < 1024" "l < 1024" using c d by (simp_all add: h_def l_def)
  have "(h * 1024 + l) div 1024 = h" "(h * 1024 + l) mod 1024 = l" using hl(2) by simp_all
  moreover have "0xD800 + h = unat c" "0xDC00 + l = unat d" using c d by (simp_all add: h_def l_def)
  ultimately have "units_of (0x10000 + h * 1024 + l) = [of_nat (unat c), of_nat (unat d)]"
    unfolding units_of_def by (simp del: of_nat_add)
  then show "units_of (0x10000 + (unat c - 0xD800) * 1024 + (unat d - 0xDC00)) = [c, d]"
    by (simp add: h_def l_def)
  show "scalar (0x10000 + (unat c - 0xD800) * 1024 + (unat d - 0xDC00))"
    using hl by (simp add: scalar_def h_def l_def)
qed

lemma unit_single:
  assumes "\<not> is_high c" and "\<not> is_low c"
  shows "units_of (unat c) = [c]" and "scalar (unat c)"
proof -
  have "unat c < 0x10000" using unsigned_less [of c] by simp
  then show "units_of (unat c) = [c]" "scalar (unat c)"
    using assms by (auto simp: units_of_def scalar_def is_high_def is_low_def word_le_nat_alt)
qed

lemma high_not_low: "is_high c \<Longrightarrow> \<not> is_low c"
  unfolding is_high_def is_low_def by (auto simp: word_le_nat_alt)

lemma scalars_well_formed:
  "well_formed s \<Longrightarrow> concat (map units_of (scalars s)) = s \<and> (\<forall>n \<in> set (scalars s). scalar n)"
proof (induction s rule: scalars.induct)
  case (3 c d cs)
  show ?case
  proof (cases "is_high c")
    case True
    then show ?thesis using 3 unit_hi_lo [of c d] by simp
  next
    case False
    then show ?thesis using 3 unit_single [of c] by simp
  qed
qed (simp_all add: unit_single)

text \<open>Round trip of the encoding, for a decoder that has passed the start of its stream.\<close>

lemma decode_encode:
  assumes "well_formed s" and "ready d" and "bom_seen d"
  shows "decode_bytes (utf8_encode s) d = (s, d)"
  using decode_scalars [OF assms(2) _ assms(3)] scalars_well_formed [OF assms(1)] by (simp add: utf8_encode_def)

text \<open>From the start of a stream the string must not begin with a byte order mark.\<close>

lemma decode_encode_start:
  assumes "well_formed s" and "s \<noteq> []" and "hd s \<noteq> 0xFEFF"
  shows "decode_bytes (utf8_encode s) decoder_init = (s, decoder_init\<lparr>bom_seen := True\<rparr>)"
proof -
  let ?d = "decoder_init\<lparr>bom_seen := True\<rparr>"
  have "scalars s \<noteq> []" using assms(2) by (cases s rule: scalars.cases) simp_all
  then obtain n ns where ns: "scalars s = n # ns" by (cases "scalars s") simp_all
  from scalars_well_formed [OF assms(1)] have s: "units_of n @ concat (map units_of ns) = s"
    and sc: "scalar n" "\<forall>n \<in> set ns. scalar n" by (auto simp: ns)
  have "n \<noteq> 0xFEFF"
  proof
    assume "n = 0xFEFF"
    then have "hd s = 0xFEFF" using s by (auto simp: units_of_def)
    with assms(3) show False by simp
  qed
  then have e: "emit_point n decoder_init = (units_of n, ?d)"
    by (simp add: emit_point_def reset_decoder_def decoder_init_def)
  have r: "decode_bytes (concat (map utf8_of ns)) ?d = (concat (map units_of ns), ?d)"
    by (rule decode_scalars) (use sc in \<open>simp_all add: ready_def decoder_init_def\<close>)
  show ?thesis
    unfolding utf8_encode_def ns using r s
    by (simp add: decode_bytes_append decode_utf8_of e sc)
qed

section \<open>JSON on the wire\<close>

lemma well_formed_append: "well_formed a \<Longrightarrow> well_formed b \<Longrightarrow> well_formed (a @ b)"
proof (induction a rule: well_formed.induct)
  case (2 c)
  then show ?case by (cases b) (auto simp: high_not_low)
qed (auto simp: high_not_low split: if_splits)

lemma well_formed_Cons: "\<not> is_high c \<Longrightarrow> \<not> is_low c \<Longrightarrow> well_formed b \<Longrightarrow> well_formed (c # b)"
  using well_formed_append [of "[c]" b] by simp

definition bmp :: "jstr \<Rightarrow> bool" where
  "bmp s \<longleftrightarrow> (\<forall>c \<in> set s. \<not> is_high c \<and> \<not> is_low c)"

lemma bmp_well_formed: "bmp s \<Longrightarrow> well_formed s"
  by (induction s) (auto simp: bmp_def intro: well_formed_Cons)

lemma ascii_bmp: "\<forall>c \<in> set s. c < 0x80 \<Longrightarrow> bmp s"
  by (fastforce simp: bmp_def is_high_def is_low_def word_less_nat_alt word_le_nat_alt)

lemma hex_digit_ascii: "d < 16 \<Longrightarrow> hex_digit d < 0x80"
  by (auto simp: hex_digit_def word_less_nat_alt unat_word_ariths unat_of_nat)

lemma uesc_bmp: "bmp (uesc c)"
proof (rule ascii_bmp)
  have "unat c < 65536" using unsigned_less [of c] by simp
  then have "unat c div 4096 < 16" by simp
  then show "\<forall>x \<in> set (uesc c). x < 0x80"
    by (simp add: uesc_def Let_def hex_digit_ascii)
qed

lemma esc_well_formed: "well_formed (esc c)"
proof -
  have "bmp (esc c)"
    using uesc_bmp [of c] by (auto simp: esc_def bmp_def is_high_def is_low_def)
  then show ?thesis by (rule bmp_well_formed)
qed

lemma quote_units_well_formed: "well_formed (quote_units s)"
proof (induction s rule: quote_units.induct)
  case (3 c d cs)
  then show ?case by (auto intro!: well_formed_append esc_well_formed)
qed (simp_all add: esc_well_formed)

lemma quote_str_well_formed: "well_formed (quote_str s)"
  unfolding quote_str_def
  by (intro well_formed_Cons well_formed_append quote_units_well_formed) (simp_all add: is_high_def is_low_def)

lemma join_well_formed: "\<forall>p \<in> set ps. well_formed p \<Longrightarrow> well_formed (js_join [0x2C] ps)"
proof (induction ps)
  case (Cons p ps)
  have "well_formed [0x2C :: u16]" by (simp add: is_high_def is_low_def)
  with Cons show ?case
    by (cases ps) (auto intro!: well_formed_append well_formed_Cons simp: is_high_def is_low_def)
qed simp

lemma digit_ascii: "digit d < 0x80 \<or> \<not> d < 10"
  by (auto simp: digit_def word_less_nat_alt unat_word_ariths unat_of_nat)

lemma dec_int_well_formed: "well_formed (dec_int i)"
proof -
  have "c < 0x80" if "is_digit c" for c
    using that by (simp add: is_digit_def word_less_nat_alt word_le_nat_alt)
  then have "\<forall>c \<in> set (dec_int i). c < 0x80"
    using dec_nat_digits [of "nat (abs i)"] dec_nat_digits [of "nat i"] dec_nat_digits [of "nat (- i)"]
    by (auto simp: dec_int_def)
  then show ?thesis by (intro bmp_well_formed ascii_bmp)
qed

lemma stringify_well_formed: "plain v \<Longrightarrow> well_formed (stringify v)"
proof (induction v)
  case (JArr vs)
  then show ?case
    by (auto intro!: well_formed_Cons well_formed_append join_well_formed simp: is_high_def is_low_def)
next
  case (JObj ps)
  have "\<forall>p \<in> set ps. well_formed (quote_str (fst p) @ 0x3A # stringify (snd p))"
    using JObj by (auto intro!: well_formed_append well_formed_Cons quote_str_well_formed
      simp: is_high_def is_low_def snds.intros prod_set_simps)
  then show ?case
    unfolding stringify.simps
    by (intro well_formed_Cons well_formed_append join_well_formed) (auto simp: is_high_def is_low_def simp del: well_formed.simps(3))
qed (auto simp: dec_int_well_formed quote_str_well_formed is_high_def is_low_def)

lemma stringify_start: "plain v \<Longrightarrow> stringify v \<noteq> [] \<and> hd (stringify v) \<noteq> 0xFEFF"
proof (cases v)
  case (JInt i)
  obtain c cs where "dec_int i = c # cs" "c = 0x2D \<or> is_digit c" using dec_int_hd by blast
  then show ?thesis using JInt by (auto simp: is_digit_def)
qed (auto simp: quote_str_def)

text \<open>A JSON value written and sent is the value that is read.\<close>

lemma utf8_json: "plain v \<Longrightarrow> json_parse (utf8_text (utf8_encode (stringify v))) = Some v"
proof -
  assume v: "plain v"
  note c = stringify_start [OF v]
  then have "utf8_text (utf8_encode (stringify v)) = stringify v"
    using decode_encode_start [OF stringify_well_formed [OF v]]
    by (simp add: utf8_text_def decoder_init_def)
  then show ?thesis using v by (simp add: json_parse_stringify)
qed

end
