(* ===== verification/Api_Session.thy ===== *)
theory Api_Session
  imports Js_Utf8
begin

text \<open>
  The API client and its session, \<open>panel/lib/api.ts\<close> without the chat stream: the tokens in
  the browser's storage, the request with its one refresh and retry, uploads, protected blobs
  and the login. The server is a parameter: \<open>fetch\<close> of the environment answers a request in
  a world of its own, in any way it likes. Every exchange is kept in a transcript.
\<close>

section \<open>Requests and responses\<close>

record jsfile =
  file_name :: jstr
  file_type :: jstr
  file_bytes :: "u8 list"

datatype form_value = FText jstr | FFile jsfile

datatype body = TextBody jstr | FormBody "(jstr \<times> form_value) list"

type_synonym headers = "(jstr \<times> jstr) list"

text \<open>Header names are compared and stored in lower case.\<close>

definition lower_ascii :: "jstr \<Rightarrow> jstr" where
  "lower_ascii s = map (\<lambda>c. if 0x41 \<le> c \<and> c \<le> 0x5A then c + 0x20 else c) s"

definition header_set :: "jstr \<Rightarrow> jstr \<Rightarrow> headers \<Rightarrow> headers" where
  "header_set k v hs = (lower_ascii k, v) # filter (\<lambda>p. fst p \<noteq> lower_ascii k) hs"

definition header_has :: "jstr \<Rightarrow> headers \<Rightarrow> bool" where
  "header_has k hs = (\<exists>p \<in> set hs. fst p = lower_ascii k)"

definition headers_new :: "(jstr \<times> jstr) list \<Rightarrow> headers" where
  "headers_new ps = foldl (\<lambda>hs (k, v). header_set k v hs) [] ps"

record request =
  req_method :: jstr
  req_url :: jstr
  req_headers :: headers
  req_body :: "body option"

text \<open>
  A body arrives in chunks; \<open>broken\<close> says that the connection fails after the last chunk.
  A response without a body has \<open>None\<close>.
\<close>

record response =
  status :: nat
  status_text :: jstr
  chunks :: "u8 list list option"
  broken :: bool

datatype fetch_result = Rejected | Answered response

definition res_ok :: "response \<Rightarrow> bool" where
  "res_ok r \<longleftrightarrow> 200 \<le> status r \<and> status r \<le> 299"

datatype err = ApiErr nat jstr | NetErr | ParseErr | TypeErr | UriErr

text \<open>
  What the panel is given: the address of the API, whether it runs in a browser, the server,
  the browser's texts for its own errors, and \<open>toLowerCase\<close> with its Unicode tables.
\<close>

record 'w env =
  base :: jstr \<comment> \<open>\<open>NEXT_PUBLIC_API_URL\<close>\<close>
  has_window :: bool
  fetch :: "'w \<Rightarrow> request \<Rightarrow> fetch_result \<times> 'w"
  error_text :: "err \<Rightarrow> jstr"
  to_lower :: "jstr \<Rightarrow> jstr"

text \<open>\<open>e.message\<close>\<close>

definition err_message :: "'w env \<Rightarrow> err \<Rightarrow> jstr" where
  "err_message E e = (case e of ApiErr _ m \<Rightarrow> m | _ \<Rightarrow> error_text E e)"

text \<open>\<open>e instanceof ApiError ? e.message : fallback\<close>\<close>

definition api_error_or :: "jstr \<Rightarrow> err \<Rightarrow> jstr" where
  "api_error_or fallback e = (case e of ApiErr _ m \<Rightarrow> m | _ \<Rightarrow> fallback)"

record 'w net =
  storage :: "jstr \<Rightarrow> jstr option"
  world :: 'w
  traffic :: "(request \<times> fetch_result) list"

type_synonym ('w, 'm, 'a) net_eff = "(('w, 'm) net_scheme, err, 'a) eff"

definition do_fetch :: "'w env \<Rightarrow> request \<Rightarrow> ('w, 'm, response) net_eff" where
  "do_fetch E q = (\<lambda>s. case fetch E (world s) q of (r, w) \<Rightarrow>
     (case r of Rejected \<Rightarrow> Inl NetErr | Answered res \<Rightarrow> Inr res,
      s\<lparr>world := w, traffic := traffic s @ [(q, r)]\<rparr>))"

definition body_bytes :: "response \<Rightarrow> u8 list" where
  "body_bytes r = (case chunks r of None \<Rightarrow> [] | Some cs \<Rightarrow> concat cs)"

text \<open>\<open>await res.json()\<close>: the connection may break, the text may be no JSON.\<close>

definition read_json :: "response \<Rightarrow> err + json" where
  "read_json r = (if broken r then Inl NetErr
     else case json_parse (utf8_text (body_bytes r)) of None \<Rightarrow> Inl ParseErr | Some j \<Rightarrow> Inr j)"

definition res_json :: "response \<Rightarrow> ('w, 'm, json) net_eff" where
  "res_json r = (\<lambda>s. (read_json r, s))"

text \<open>\<open>v.k\<close>: a member of \<open>null\<close> is a \<open>TypeError\<close>.\<close>

definition member_of :: "jstr \<Rightarrow> json \<Rightarrow> err + jval" where
  "member_of k j = (if j = JNull then Inl TypeErr else Inr (jprop k j))"

section \<open>The session\<close>

definition ACCESS :: jstr where "ACCESS = js ''rafine_access''"
definition REFRESH :: jstr where "REFRESH = js ''rafine_refresh''"
definition ROLE :: jstr where "ROLE = js ''rafine_role''"

definition getToken :: "'w env \<Rightarrow> ('w, 'm) net_scheme \<Rightarrow> jstr option" where
  "getToken E s = (if has_window E then storage s ACCESS else None)"

definition getRole :: "'w env \<Rightarrow> ('w, 'm) net_scheme \<Rightarrow> jstr option" where
  "getRole E s = (if has_window E then storage s ROLE else None)"

definition set_items :: "jstr \<Rightarrow> jstr \<Rightarrow> jstr \<Rightarrow> (jstr \<Rightarrow> jstr option) \<Rightarrow> jstr \<Rightarrow> jstr option" where
  "set_items access refresh role st = st(ACCESS \<mapsto> access, REFRESH \<mapsto> refresh, ROLE \<mapsto> role)"

definition setSession :: "jstr \<Rightarrow> jstr \<Rightarrow> jstr \<Rightarrow> ('w, 'm) net_scheme \<Rightarrow> ('w, 'm) net_scheme" where
  "setSession access refresh role s = s\<lparr>storage := set_items access refresh role (storage s)\<rparr>"

definition clearSession :: "('w, 'm) net_scheme \<Rightarrow> ('w, 'm) net_scheme" where
  "clearSession s = s\<lparr>storage := (storage s)(ACCESS := None, REFRESH := None, ROLE := None)\<rparr>"

text \<open>
  Storing the tokens of a login or refresh answer. \<open>setItem\<close> turns what it gets into a
  string, so a missing member is stored as \<open>undefined\<close>.
\<close>

definition store_tokens :: "json \<Rightarrow> ('w, 'm, unit) net_eff" where
  "store_tokens data = (if data = JNull then throwE TypeErr
     else modE (setSession (val_str (jprop (js ''access_token'') data))
       (val_str (jprop (js ''refresh_token'') data)) (val_str (jprop (js ''role'') data))))"

definition json_type :: headers where
  "json_type = headers_new [(js ''Content-Type'', js ''application/json'')]"

definition refresh_request :: "'w env \<Rightarrow> jstr \<Rightarrow> request" where
  "refresh_request E t = \<lparr>req_method = js ''POST'', req_url = base E @ js ''/api/auth/refresh'',
     req_headers = json_type, req_body = Some (TextBody (stringify (JObj [(js ''refresh_token'', JStr t)])))\<rparr>"

definition tryRefresh :: "'w env \<Rightarrow> ('w, 'm, bool) net_eff" where
  "tryRefresh E = getE (\<lambda>s. case storage s REFRESH of
       None \<Rightarrow> retE False
     | Some t \<Rightarrow> if t = [] then retE False else
         bindE (do_fetch E (refresh_request E t)) (\<lambda>res.
           if \<not> res_ok res then retE False
           else bindE (res_json res) (\<lambda>data. thenE (store_tokens data) (retE True))))"

section \<open>A request\<close>

record init =
  opt_method :: "jstr option"
  opt_headers :: "(jstr \<times> jstr) list"
  opt_body :: "body option"

definition no_opts :: init where
  "no_opts = \<lparr>opt_method = None, opt_headers = [], opt_body = None\<rparr>"

definition send_json :: "jstr \<Rightarrow> json \<Rightarrow> init" where
  "send_json m j = \<lparr>opt_method = Some m, opt_headers = [], opt_body = Some (TextBody (stringify j))\<rparr>"

definition just_method :: "jstr \<Rightarrow> init" where
  "just_method m = \<lparr>opt_method = Some m, opt_headers = [], opt_body = None\<rparr>"

definition auth_header :: "jstr option \<Rightarrow> headers \<Rightarrow> headers" where
  "auth_header token hs = (case token of
       None \<Rightarrow> hs
     | Some t \<Rightarrow> if t = [] then hs else header_set (js ''Authorization'') (js ''Bearer '' @ t) hs)"

definition has_text_body :: "init \<Rightarrow> bool" where
  "has_text_body opts = (case opt_body opts of Some (TextBody t) \<Rightarrow> t \<noteq> [] | _ \<Rightarrow> False)"

definition api_headers :: "init \<Rightarrow> jstr option \<Rightarrow> headers" where
  "api_headers opts token = (let hs = auth_header token (headers_new (opt_headers opts)) in
     if has_text_body opts \<and> \<not> header_has (js ''Content-Type'') hs
     then header_set (js ''Content-Type'') (js ''application/json'') hs else hs)"

definition api_request :: "'w env \<Rightarrow> jstr \<Rightarrow> init \<Rightarrow> jstr option \<Rightarrow> request" where
  "api_request E path opts token =
     \<lparr>req_method = (case opt_method opts of None \<Rightarrow> js ''GET'' | Some m \<Rightarrow> m),
      req_url = base E @ path, req_headers = api_headers opts token, req_body = opt_body opts\<rparr>"

text \<open>
  \<open>msg = body.detail ?? body.error?.message ?? msg\<close> inside \<open>try\<close>, and its conversion to a
  string. \<open>uploadFile\<close> looks at \<open>detail\<close> only.
\<close>

definition message_text :: "jval \<Rightarrow> jstr" where
  "message_text v = (case v of None \<Rightarrow> [] | Some (JStr t) \<Rightarrow> t | Some j \<Rightarrow> stringify j)"

definition api_message :: "response \<Rightarrow> jstr" where
  "api_message res = message_text (case read_json res of
       Inl _ \<Rightarrow> Some (JStr (status_text res))
     | Inr body \<Rightarrow> or_nullish (jprop (js ''detail'') body)
         (or_nullish (opt_prop (js ''message'') (jprop (js ''error'') body)) (Some (JStr (status_text res)))))"

definition upload_message :: "response \<Rightarrow> jstr" where
  "upload_message res = message_text (case read_json res of
       Inl _ \<Rightarrow> Some (JStr (status_text res))
     | Inr body \<Rightarrow> or_nullish (jprop (js ''detail'') body) (Some (JStr (status_text res))))"

definition api_finish :: "response \<Rightarrow> ('w, 'm, jval) net_eff" where
  "api_finish res =
     (if \<not> res_ok res then throwE (ApiErr (status res) (api_message res))
      else if status res = 204 then retE None
      else bindE (res_json res) (\<lambda>j. retE (Some j)))"

function api :: "'w env \<Rightarrow> jstr \<Rightarrow> init \<Rightarrow> bool \<Rightarrow> ('w, 'm, jval) net_eff" where
  "api E path opts retry = getE (\<lambda>s.
     bindE (do_fetch E (api_request E path opts (getToken E s))) (\<lambda>res.
       if status res = 401 \<and> retry
       then bindE (tryRefresh E) (\<lambda>ok. if ok then api E path opts False else api_finish res)
       else api_finish res))"
  by pat_completeness auto
termination
  by (relation "measure (\<lambda>(E, path, opts, retry). if retry then 1 else 0)") auto

declare api.simps [simp del]

definition upload_request :: "'w env \<Rightarrow> jstr \<Rightarrow> (jstr \<times> form_value) list \<Rightarrow> jstr option \<Rightarrow> request" where
  "upload_request E path form token =
     \<lparr>req_method = js ''POST'', req_url = base E @ path, req_headers = auth_header token [],
      req_body = Some (FormBody form)\<rparr>"

definition upload_finish :: "response \<Rightarrow> ('w, 'm, jval) net_eff" where
  "upload_finish res =
     (if \<not> res_ok res then throwE (ApiErr (status res) (upload_message res))
      else bindE (res_json res) (\<lambda>j. retE (Some j)))"

function uploadFile :: "'w env \<Rightarrow> jstr \<Rightarrow> (jstr \<times> form_value) list \<Rightarrow> bool \<Rightarrow> ('w, 'm, jval) net_eff" where
  "uploadFile E path form retry = getE (\<lambda>s.
     bindE (do_fetch E (upload_request E path form (getToken E s))) (\<lambda>res.
       if status res = 401 \<and> retry
       then bindE (tryRefresh E) (\<lambda>ok. if ok then uploadFile E path form False else upload_finish res)
       else upload_finish res))"
  by pat_completeness auto
termination
  by (relation "measure (\<lambda>(E, path, form, retry). if retry then 1 else 0)") auto

declare uploadFile.simps [simp del]

text \<open>The object URL stands for the bytes that it shows.\<close>

definition blob_request :: "'w env \<Rightarrow> jstr \<Rightarrow> jstr option \<Rightarrow> request" where
  "blob_request E path token = \<lparr>req_method = js ''GET'', req_url = base E @ path,
     req_headers = auth_header token [], req_body = None\<rparr>"

definition load_failed :: jstr where
  "load_failed = js ''i'' @ [0xE7] @ js ''erik y'' @ [0xFC] @ js ''klenemedi''"

definition authedBlobUrl :: "'w env \<Rightarrow> jstr \<Rightarrow> ('w, 'm, u8 list) net_eff" where
  "authedBlobUrl E path = getE (\<lambda>s.
     bindE (do_fetch E (blob_request E path (getToken E s))) (\<lambda>res.
       if \<not> res_ok res then throwE (ApiErr (status res) load_failed)
       else if broken res then throwE NetErr else retE (body_bytes res)))"

definition login_request :: "'w env \<Rightarrow> jstr \<Rightarrow> jstr \<Rightarrow> request" where
  "login_request E email password = \<lparr>req_method = js ''POST'', req_url = base E @ js ''/api/auth/login'',
     req_headers = json_type,
     req_body = Some (TextBody (stringify (JObj [(js ''email'', JStr email), (js ''password'', JStr password)])))\<rparr>"

definition login :: "'w env \<Rightarrow> jstr \<Rightarrow> jstr \<Rightarrow> ('w, 'm, json) net_eff" where
  "login E email password = bindE (do_fetch E (login_request E email password)) (\<lambda>res.
     if \<not> res_ok res then throwE (ApiErr (status res) (js ''Invalid credentials''))
     else bindE (res_json res) (\<lambda>data. thenE (store_tokens data) (retE data)))"

end
