(* ===== verification/Api_Facts.thy ===== *)
theory Api_Facts
  imports Api_Session
begin

text \<open>
  Facts of the API client: an operation of the client changes nothing of a page's own state
  (\<open>touches_net\<close>, the contract that the pages use), what one call may send and store, how
  its result comes out of its transcript, and what the session holds.
\<close>

section \<open>The frame of the client\<close>

definition touches_net :: "('w, 'm, 'a) net_eff \<Rightarrow> bool" where
  "touches_net m = (\<forall>s. \<exists>a b c. snd (m s) = s\<lparr>storage := a, world := b, traffic := c\<rparr>)"

lemma net_update_id: "\<exists>a b c. s = s\<lparr>storage := a, world := b, traffic := c\<rparr>"
  by (intro exI [of _ "storage s"] exI [of _ "world s"] exI [of _ "traffic s"]) simp

lemma touches_netI: "(\<And>s. snd (m s) = s\<lparr>storage := a s, world := b s, traffic := c s\<rparr>) \<Longrightarrow> touches_net m"
  by (auto simp: touches_net_def)

lemma touches_netE:
  assumes "touches_net m"
  obtains r a b c where "m s = (r, s\<lparr>storage := a, world := b, traffic := c\<rparr>)"
proof -
  obtain a b c where "snd (m s) = s\<lparr>storage := a, world := b, traffic := c\<rparr>"
    using assms unfolding touches_net_def by blast
  then show ?thesis using that [of "fst (m s)"] by (metis prod.collapse)
qed

lemma touches_retE: "touches_net (retE a)"
  by (simp add: touches_net_def retE_def net_update_id)

lemma touches_throwE: "touches_net (throwE e)"
  by (simp add: touches_net_def throwE_def net_update_id)

lemma touches_bindE:
  assumes "touches_net m" and "\<And>x. touches_net (f x)"
  shows "touches_net (bindE m f)"
  unfolding touches_net_def
proof
  fix s
  obtain r s1 where ms: "m s = (r, s1)" by fastforce
  obtain a b c where s1: "s1 = s\<lparr>storage := a, world := b, traffic := c\<rparr>"
    using assms(1) ms by (metis touches_net_def snd_conv)
  show "\<exists>a b c. snd (bindE m f s) = s\<lparr>storage := a, world := b, traffic := c\<rparr>"
  proof (cases r)
    case (Inl e)
    then show ?thesis using ms s1 by (auto simp: bindE_def)
  next
    case (Inr x)
    obtain a' b' c' where "snd (f x s1) = s1\<lparr>storage := a', world := b', traffic := c'\<rparr>"
      using assms(2) by (metis touches_net_def)
    then show ?thesis using ms Inr s1 by (auto simp: bindE_def)
  qed
qed

lemma touches_thenE: "touches_net m \<Longrightarrow> touches_net n \<Longrightarrow> touches_net (thenE m n)"
  by (simp add: thenE_def touches_bindE)

lemma touches_getE: "(\<And>s. touches_net (f s)) \<Longrightarrow> touches_net (getE f)"
  by (simp add: touches_net_def getE_def)

lemma touches_if: "touches_net m \<Longrightarrow> touches_net n \<Longrightarrow> touches_net (if P then m else n)"
  by simp

lemma touches_option: "touches_net m \<Longrightarrow> (\<And>x. touches_net (f x)) \<Longrightarrow> touches_net (case v of None \<Rightarrow> m | Some x \<Rightarrow> f x)"
  by (cases v) simp_all

lemma touches_do_fetch: "touches_net (do_fetch E q)"
  by (rule touches_netI [where a = storage and b = "\<lambda>s. snd (fetch E (world s) q)"
        and c = "\<lambda>s. traffic s @ [(q, fst (fetch E (world s) q))]"])
    (simp add: do_fetch_def split: prod.split)

lemma touches_res_json: "touches_net (res_json r)"
  by (simp add: touches_net_def res_json_def net_update_id)

lemma touches_setSession: "touches_net (modE (setSession a f ro))"
  by (rule touches_netI [where b = world and c = traffic]) (simp add: modE_def setSession_def)

lemmas touches_intros = touches_retE touches_throwE touches_bindE touches_thenE touches_getE touches_if
  touches_option touches_do_fetch touches_res_json touches_setSession

lemma touches_store_tokens: "touches_net (store_tokens d)"
  unfolding store_tokens_def by (intro touches_intros)

lemma touches_tryRefresh: "touches_net (tryRefresh E)"
  unfolding tryRefresh_def by (intro touches_intros touches_store_tokens)

section \<open>One call with its refresh and retry\<close>

text \<open>What a caller gets for a response, without looking at the state.\<close>

definition api_outcome :: "fetch_result \<Rightarrow> err + jval" where
  "api_outcome x = (case x of Rejected \<Rightarrow> Inl NetErr | Answered res \<Rightarrow>
     if \<not> res_ok res then Inl (ApiErr (status res) (api_message res))
     else if status res = 204 then Inr None
     else (case read_json res of Inl e \<Rightarrow> Inl e | Inr j \<Rightarrow> Inr (Some j)))"

definition upload_outcome :: "fetch_result \<Rightarrow> err + jval" where
  "upload_outcome x = (case x of Rejected \<Rightarrow> Inl NetErr | Answered res \<Rightarrow>
     if \<not> res_ok res then Inl (ApiErr (status res) (upload_message res))
     else (case read_json res of Inl e \<Rightarrow> Inl e | Inr j \<Rightarrow> Inr (Some j)))"

text \<open>What a refresh learns: an error, no new session, or the three strings to store.\<close>

definition refreshed :: "fetch_result \<Rightarrow> err + (jstr \<times> jstr \<times> jstr) option" where
  "refreshed y = (case y of Rejected \<Rightarrow> Inl NetErr | Answered res \<Rightarrow>
     if \<not> res_ok res then Inr None
     else (case read_json res of Inl e \<Rightarrow> Inl e | Inr data \<Rightarrow>
       if data = JNull then Inl TypeErr
       else Inr (Some (val_str (jprop (js ''access_token'') data),
         val_str (jprop (js ''refresh_token'') data), val_str (jprop (js ''role'') data)))))"

definition unauthorized :: "fetch_result \<Rightarrow> bool" where
  "unauthorized x = (case x of Rejected \<Rightarrow> False | Answered res \<Rightarrow> status res = 401)"

definition refresh_token :: "('w, 'm) net_scheme \<Rightarrow> jstr option" where
  "refresh_token s = (case storage s REFRESH of None \<Rightarrow> None | Some t \<Rightarrow> if t = [] then None else Some t)"

text \<open>
  The transcript of a call: the first exchange; if it was refused with 401 and a retry is
  allowed, one refresh; if that brought a new session, the same request with the new token.
\<close>

definition call_transcript ::
    "'w env \<Rightarrow> (jstr option \<Rightarrow> request) \<Rightarrow> (fetch_result \<Rightarrow> err + 'a) \<Rightarrow> bool \<Rightarrow> ('w, 'm) net_scheme
      \<Rightarrow> (err + 'a) \<times> ('w, 'm) net_scheme \<Rightarrow> bool" where
  "call_transcript E mk outcome retry s rs = (\<exists>x xs.
     traffic (snd rs) = traffic s @ (mk (getToken E s), x) # xs \<and>
     (if unauthorized x \<and> retry then
        (case refresh_token s of
           None \<Rightarrow> xs = [] \<and> storage (snd rs) = storage s \<and> fst rs = outcome x
         | Some t \<Rightarrow> (\<exists>y ys. xs = (refresh_request E t, y) # ys \<and>
            (case refreshed y of
               Inl e \<Rightarrow> ys = [] \<and> storage (snd rs) = storage s \<and> fst rs = Inl e
             | Inr None \<Rightarrow> ys = [] \<and> storage (snd rs) = storage s \<and> fst rs = outcome x
             | Inr (Some (a, f, ro)) \<Rightarrow> storage (snd rs) = set_items a f ro (storage s) \<and>
                 (\<exists>z. ys = [(mk (if has_window E then Some a else None), z)] \<and> fst rs = outcome z))))
      else xs = [] \<and> storage (snd rs) = storage s \<and> fst rs = outcome x))"

lemma call_transcript_cases:
  assumes "call_transcript E mk outcome retry s rs"
  obtains (single) x where "traffic (snd rs) = traffic s @ [(mk (getToken E s), x)]"
      "storage (snd rs) = storage s" "fst rs = outcome x"
  | (refused) x t y where "retry" "traffic (snd rs) = traffic s @ [(mk (getToken E s), x), (refresh_request E t, y)]"
      "storage (snd rs) = storage s"
  | (retried) x t y a f ro z where "retry"
      "traffic (snd rs) = traffic s @ [(mk (getToken E s), x), (refresh_request E t, y),
         (mk (if has_window E then Some a else None), z)]"
      "refreshed y = Inr (Some (a, f, ro))" "storage (snd rs) = set_items a f ro (storage s)" "fst rs = outcome z"
proof -
  from assms obtain x xs where tr: "traffic (snd rs) = traffic s @ (mk (getToken E s), x) # xs"
    and rest: "if unauthorized x \<and> retry then
        (case refresh_token s of
           None \<Rightarrow> xs = [] \<and> storage (snd rs) = storage s \<and> fst rs = outcome x
         | Some t \<Rightarrow> (\<exists>y ys. xs = (refresh_request E t, y) # ys \<and>
            (case refreshed y of
               Inl e \<Rightarrow> ys = [] \<and> storage (snd rs) = storage s \<and> fst rs = Inl e
             | Inr None \<Rightarrow> ys = [] \<and> storage (snd rs) = storage s \<and> fst rs = outcome x
             | Inr (Some (a, f, ro)) \<Rightarrow> storage (snd rs) = set_items a f ro (storage s) \<and>
                 (\<exists>z. ys = [(mk (if has_window E then Some a else None), z)] \<and> fst rs = outcome z))))
      else xs = [] \<and> storage (snd rs) = storage s \<and> fst rs = outcome x"
    unfolding call_transcript_def by blast
  show thesis
  proof (cases "(unauthorized x \<and> retry) \<and> refresh_token s \<noteq> None")
    case False
    then show ?thesis using tr rest by (intro single [of x]) (auto split: if_splits)
  next
    case True
    then obtain t where t: "refresh_token s = Some t" by auto
    with True rest obtain y ys where y: "xs = (refresh_request E t, y) # ys"
      and ys: "case refreshed y of
               Inl e \<Rightarrow> ys = [] \<and> storage (snd rs) = storage s \<and> fst rs = Inl e
             | Inr None \<Rightarrow> ys = [] \<and> storage (snd rs) = storage s \<and> fst rs = outcome x
             | Inr (Some (a, f, ro)) \<Rightarrow> storage (snd rs) = set_items a f ro (storage s) \<and>
                 (\<exists>z. ys = [(mk (if has_window E then Some a else None), z)] \<and> fst rs = outcome z)"
      by auto
    show ?thesis
    proof (cases "\<exists>a f ro. refreshed y = Inr (Some (a, f, ro))")
      case False
      then have "ys = [] \<and> storage (snd rs) = storage s"
        using ys by (auto split: sum.splits option.splits)
      then show ?thesis using True tr y by (intro refused [of x t y]) auto
    next
      case got: True
      then obtain a f ro where p: "refreshed y = Inr (Some (a, f, ro))" by blast
      with ys obtain z where "ys = [(mk (if has_window E then Some a else None), z)]" "fst rs = outcome z"
        "storage (snd rs) = set_items a f ro (storage s)" by auto
      then show ?thesis using True tr y p by (intro retried [of x t y a z f ro]) auto
    qed
  qed
qed

lemma tryRefresh_cases:
  obtains (none) "refresh_token s = None" "tryRefresh E s = (Inr False, s)"
  | (asked) t y w where "refresh_token s = Some t" "fetch E (world s) (refresh_request E t) = (y, w)"
      "tryRefresh E s = (let s1 = s\<lparr>world := w, traffic := traffic s @ [(refresh_request E t, y)]\<rparr> in
         case refreshed y of Inl e \<Rightarrow> (Inl e, s1) | Inr None \<Rightarrow> (Inr False, s1)
           | Inr (Some (a, f, ro)) \<Rightarrow> (Inr True, setSession a f ro s1))"
proof (cases "refresh_token s")
  case None
  then have "tryRefresh E s = (Inr False, s)"
    by (auto simp: tryRefresh_def refresh_token_def getE_def retE_def split: option.splits if_splits)
  with None show ?thesis by (rule none)
next
  case (Some t)
  then have t: "storage s REFRESH = Some t" "t \<noteq> []"
    by (auto simp: refresh_token_def split: option.splits if_splits)
  obtain y w where yw: "fetch E (world s) (refresh_request E t) = (y, w)" by fastforce
  show ?thesis
    using asked [OF Some yw]
    by (simp add: tryRefresh_def getE_def t bindE_def do_fetch_def yw refreshed_def res_json_def retE_def
        thenE_def store_tokens_def throwE_def modE_def Let_def split: fetch_result.splits sum.splits)
qed

locale retried_call =
  fixes E :: "'w env"
    and mk :: "jstr option \<Rightarrow> request"
    and finish :: "response \<Rightarrow> ('w, 'm, 'a) net_eff"
    and outcome :: "fetch_result \<Rightarrow> err + 'a"
    and call :: "bool \<Rightarrow> ('w, 'm, 'a) net_eff"
  assumes call: "call retry = getE (\<lambda>s. bindE (do_fetch E (mk (getToken E s))) (\<lambda>res.
      if status res = 401 \<and> retry
      then bindE (tryRefresh E) (\<lambda>ok. if ok then call False else finish res)
      else finish res))"
    and finish: "finish res s = (outcome (Answered res), s)"
    and rejected: "outcome Rejected = Inl NetErr"
begin

lemma touches_finish: "touches_net (finish res)"
  by (simp add: touches_net_def finish net_update_id)

lemma touches_last: "touches_net (call False)"
  by (subst call) (auto intro!: touches_intros touches_tryRefresh touches_finish)

lemma touches: "touches_net (call retry)"
  by (subst call) (auto intro!: touches_intros touches_tryRefresh touches_finish touches_last)

text \<open>A call that may not retry is one exchange.\<close>

lemma last_attempt:
  assumes "fetch E (world s) (mk (getToken E s)) = (x, w)" and "\<not> (unauthorized x \<and> retry)"
  shows "call retry s = (outcome x, s\<lparr>world := w, traffic := traffic s @ [(mk (getToken E s), x)]\<rparr>)"
  using assms
  by (subst call) (auto simp: getE_def bindE_def do_fetch_def finish rejected unauthorized_def
      split: fetch_result.splits if_splits)

lemma transcript: "call_transcript E mk outcome retry s (call retry s)"
proof -
  obtain x w where x: "fetch E (world s) (mk (getToken E s)) = (x, w)" by fastforce
  let ?s = "s\<lparr>world := w, traffic := traffic s @ [(mk (getToken E s), x)]\<rparr>"
  show ?thesis
  proof (cases "unauthorized x \<and> retry")
    case False
    show ?thesis
      unfolding last_attempt [OF x False] call_transcript_def using False by auto
  next
    case True
    then obtain res where res: "x = Answered res" "status res = 401" and retry
      by (auto simp: unauthorized_def split: fetch_result.splits)
    have step: "call retry s = bindE (tryRefresh E) (\<lambda>ok. if ok then call False else finish res) ?s"
      by (subst call) (simp add: getE_def bindE_def do_fetch_def x res \<open>retry\<close>)
    have tok: "refresh_token ?s = refresh_token s" by (simp add: refresh_token_def)
    show ?thesis
    proof (cases rule: tryRefresh_cases [of ?s E])
      case none
      have eq: "call retry s = (outcome x, ?s)"
        unfolding step using none res by (simp add: bindE_def finish)
      show ?thesis unfolding call_transcript_def eq using True none tok by simp
    next
      case (asked t y w')
      let ?s1 = "?s\<lparr>world := w', traffic := traffic ?s @ [(refresh_request E t, y)]\<rparr>"
      show ?thesis
      proof (cases "refreshed y")
        case (Inl e)
        have eq: "call retry s = (Inl e, ?s1)" unfolding step using asked Inl by (simp add: bindE_def)
        show ?thesis unfolding call_transcript_def eq using True asked tok Inl by simp
      next
        case (Inr o')
        show ?thesis
        proof (cases o')
          case None
          have eq: "call retry s = (outcome x, ?s1)"
            unfolding step using asked Inr None res by (simp add: bindE_def finish)
          show ?thesis unfolding call_transcript_def eq using True asked tok Inr None by simp
        next
          case (Some p)
          obtain a f ro where p: "p = (a, f, ro)" by (cases p) auto
          let ?s2 = "setSession a f ro ?s1"
          obtain z w2 where z: "fetch E (world ?s2) (mk (getToken E ?s2)) = (z, w2)" by fastforce
          have tk: "getToken E ?s2 = (if has_window E then Some a else None)"
            by (simp add: getToken_def setSession_def set_items_def ACCESS_def REFRESH_def ROLE_def)
          have "call retry s = call False ?s2"
            unfolding step using asked Inr Some p by (simp add: bindE_def)
          also have "\<dots> = (outcome z, ?s2\<lparr>world := w2, traffic := traffic ?s2 @ [(mk (getToken E ?s2), z)]\<rparr>)"
            by (rule last_attempt [OF z]) simp
          finally have eq: "call retry s =
            (outcome z, ?s2\<lparr>world := w2, traffic := traffic ?s2 @ [(mk (getToken E ?s2), z)]\<rparr>)" .
          show ?thesis
            unfolding call_transcript_def eq tk using True asked tok Inr Some p by (simp add: setSession_def)
        qed
      qed
    qed
  qed
qed

text \<open>The storage changes only by a refresh, and then only at the three keys of the session.\<close>

lemma storage_frame:
  assumes "k \<notin> {ACCESS, REFRESH, ROLE}"
  shows "storage (snd (call retry s)) k = storage s k"
  using transcript [of retry s]
proof (cases rule: call_transcript_cases)
  case (retried x t y a f ro z)
  then show ?thesis using assms by (simp add: set_items_def)
qed simp_all

lemma traffic_bound:
  "\<exists>l. traffic (snd (call retry s)) = traffic s @ l \<and> 1 \<le> length l \<and> length l \<le> (if retry then 3 else 1)"
  using transcript [of retry s] by (cases rule: call_transcript_cases) auto

end

lemma api_finish_outcome: "api_finish res s = (api_outcome (Answered res), s)"
  by (simp add: api_outcome_def api_finish_def throwE_def retE_def bindE_def res_json_def split: sum.split)

lemma upload_finish_outcome: "upload_finish res s = (upload_outcome (Answered res), s)"
  by (simp add: upload_outcome_def upload_finish_def throwE_def retE_def bindE_def res_json_def split: sum.split)

interpretation api: retried_call E "api_request E path opts" api_finish api_outcome "api E path opts"
  for E path opts
  by unfold_locales (rule api.simps, rule api_finish_outcome, simp add: api_outcome_def)

interpretation upload: retried_call E "upload_request E path form" upload_finish upload_outcome "uploadFile E path form"
  for E path form
  by unfold_locales (rule uploadFile.simps, rule upload_finish_outcome, simp add: upload_outcome_def)

section \<open>Headers\<close>

lemma header_set_lookup:
  "map_of (header_set k v hs) k' = (if k' = lower_ascii k then Some v else map_of hs k')"
proof -
  have "map_of (filter (\<lambda>p. fst p \<noteq> a) hs) k' = map_of hs k'" if "k' \<noteq> a" for a
    using that by (induction hs) auto
  then show ?thesis by (simp add: header_set_def)
qed

lemma header_set_distinct: "distinct (map fst hs) \<Longrightarrow> distinct (map fst (header_set k v hs))"
  by (auto simp: header_set_def distinct_map_filter)

lemma headers_new_distinct: "distinct (map fst (headers_new ps))"
proof -
  have "distinct (map fst hs) \<Longrightarrow> distinct (map fst (foldl (\<lambda>hs (k, v). header_set k v hs) hs ps))" for hs
    by (induction ps arbitrary: hs) (auto simp: header_set_distinct)
  then show ?thesis by (simp add: headers_new_def)
qed

lemma api_headers_distinct: "distinct (map fst (api_headers opts token))"
  by (auto simp: api_headers_def auth_header_def Let_def headers_new_distinct header_set_distinct split: option.split)

lemma header_names: "lower_ascii (js ''Authorization'') = js ''authorization''"
  "lower_ascii (js ''Content-Type'') = js ''content-type''"
  by code_simp+

lemma header_has_iff: "header_has k hs \<longleftrightarrow> map_of hs (lower_ascii k) \<noteq> None"
  by (force simp: header_has_def map_of_eq_None_iff)

section \<open>A JSON answer\<close>

definition json_answer :: "nat \<Rightarrow> json \<Rightarrow> response" where
  "json_answer st j = \<lparr>status = st, status_text = [], chunks = Some [utf8_encode (stringify j)], broken = False\<rparr>"

lemma read_json_sent:
  "\<not> broken res \<Longrightarrow> body_bytes res = utf8_encode (stringify j) \<Longrightarrow> plain j \<Longrightarrow> read_json res = Inr j"
  by (simp add: read_json_def utf8_json)

lemma api_json_answer:
  assumes "fetch E (world s) (api_request E path opts (getToken E s)) = (Answered res, w)"
    and "res_ok res" and "status res \<noteq> 204" and "\<not> broken res"
    and "chunks res = Some cs" and "concat cs = utf8_encode (stringify j)" and "plain j"
  shows "api E path opts retry s =
    (Inr (Some j), s\<lparr>world := w, traffic := traffic s @ [(api_request E path opts (getToken E s), Answered res)]\<rparr>)"
proof -
  have "status res \<noteq> 401" using assms(2) by (auto simp: res_ok_def)
  then have "\<not> (unauthorized (Answered res) \<and> retry)" by (simp add: unauthorized_def)
  moreover have "read_json res = Inr j"
    using assms by (intro read_json_sent) (simp_all add: body_bytes_def)
  ultimately show ?thesis
    using api.last_attempt [OF assms(1)] assms(2,3) by (simp add: api_outcome_def)
qed

section \<open>Properties of the client\<close>

text \<open>C3. The transcript of an API call, on every branch: the request is sent once with the stored
  token; only a 401 answer with a refresh token in the storage leads to one refresh; only a
  refresh that brought a new session leads to the same request again, with the new token; the
  result is the outcome of the last of these requests, a failed refresh apart; the storage
  changes exactly when a refresh succeeded.\<close>

theorem api_call_transcript:
  "call_transcript E (api_request E path opts) api_outcome retry s (api E path opts retry s)"
  by (rule api.transcript)

text \<open>The same for uploads, whose body is a form.\<close>

lemma upload_call_transcript:
  "call_transcript E (upload_request E path form) upload_outcome retry s (uploadFile E path form retry s)"
  by (rule upload.transcript)

text \<open>C22. A call sends one to three requests, leaves every storage key but the three of the
  session alone, and changes nothing of the page that made it.\<close>

theorem api_call_frame:
  "(\<exists>l. traffic (snd (api E path opts retry s)) = traffic s @ l \<and> 1 \<le> length l \<and> length l \<le> 3)
    \<and> {k. storage (snd (api E path opts retry s)) k \<noteq> storage s k} \<subseteq> {ACCESS, REFRESH, ROLE}
    \<and> touches_net (api E path opts retry :: ('w, 'm, jval) net_eff)"
proof (intro conjI)
  obtain l where "traffic (snd (api E path opts retry s)) = traffic s @ l" "1 \<le> length l"
    "length l \<le> (if retry then 3 else 1)"
    using api.traffic_bound by blast
  then show "\<exists>l. traffic (snd (api E path opts retry s)) = traffic s @ l \<and> 1 \<le> length l \<and> length l \<le> 3"
    by (intro exI [of _ l]) (simp split: if_splits)
  show "{k. storage (snd (api E path opts retry s)) k \<noteq> storage s k} \<subseteq> {ACCESS, REFRESH, ROLE}"
    using api.storage_frame by blast
  show "touches_net (api E path opts retry :: ('w, 'm, jval) net_eff)"
    by (rule api.touches)
qed

text \<open>C21. What the server sends as JSON, in any chunks, is what the caller gets.\<close>

theorem api_returns_sent_json:
  assumes "fetch E (world s) (api_request E path opts (getToken E s)) = (Answered res, w)"
    and "res_ok res" and "status res \<noteq> 204" and "\<not> broken res"
    and "chunks res = Some cs" and "concat cs = utf8_encode (stringify j)" and "plain j"
  shows "api E path opts retry s =
    (Inr (Some j), s\<lparr>world := w, traffic := traffic s @ [(api_request E path opts (getToken E s), Answered res)]\<rparr>)"
  using assms by (rule api_json_answer)

definition demo_env :: "fetch_result list \<Rightarrow> nat env" where
  "demo_env answers = \<lparr>base = [], has_window = True,
     fetch = (\<lambda>w q. (if w < length answers then answers ! w else Rejected, Suc w)),
     error_text = (\<lambda>_. js ''error''), to_lower = lower_ascii\<rparr>"

definition demo_net :: "(jstr \<times> jstr) list \<Rightarrow> nat net" where
  "demo_net st = \<lparr>storage = map_of st, world = 0, traffic = []\<rparr>"

theorem api_returns_sent_json_witness:
  "fst (api (demo_env [Answered (json_answer 200 (JArr [JInt 7, JStr (js ''a'')]))]) (js ''/api/x'') no_opts True
     (demo_net [(ACCESS, js ''t'')])) = Inr (Some (JArr [JInt 7, JStr (js ''a'')]))"
  using api_returns_sent_json [where E = "demo_env [Answered (json_answer 200 (JArr [JInt 7, JStr (js ''a'')]))]"
      and path = "js ''/api/x''" and opts = no_opts and retry = True and s = "demo_net [(ACCESS, js ''t'')]"
      and res = "json_answer 200 (JArr [JInt 7, JStr (js ''a'')])" and w = 1
      and cs = "[utf8_encode (stringify (JArr [JInt 7, JStr (js ''a'')]))]"
      and j = "JArr [JInt 7, JStr (js ''a'')]"]
  by (simp add: demo_env_def demo_net_def json_answer_def res_ok_def)

text \<open>The headers of a request: a stored token is sent as the one \<open>Authorization\<close> header,
  whatever the caller passed; without a token the caller's headers stay; a JSON content type is
  added exactly to a text body that has no content type, so a form keeps the boundary of the
  browser; no header appears twice.\<close>

theorem api_request_headers:
  "let hs = req_headers (api_request E path opts token); own = headers_new (opt_headers opts) in
    map_of hs (js ''authorization'') =
      (case token of Some (c # cs) \<Rightarrow> Some (js ''Bearer '' @ c # cs) | _ \<Rightarrow> map_of own (js ''authorization''))
    \<and> map_of hs (js ''content-type'') =
      (case map_of own (js ''content-type'') of Some v \<Rightarrow> Some v
        | None \<Rightarrow> if has_text_body opts then Some (js ''application/json'') else None)
    \<and> distinct (map fst hs)"
proof -
  have ne: "js ''authorization'' \<noteq> js ''content-type''" by code_simp
  show ?thesis
    unfolding Let_def
  proof (intro conjI)
    show "distinct (map fst (req_headers (api_request E path opts token)))"
      by (simp add: api_request_def api_headers_distinct)
  next
    show "map_of (req_headers (api_request E path opts token)) (js ''authorization'') = (case token of
        Some (c # cs) \<Rightarrow> Some (js ''Bearer '' @ c # cs)
      | _ \<Rightarrow> map_of (headers_new (opt_headers opts)) (js ''authorization''))"
      unfolding api_request_def api_headers_def auth_header_def Let_def
      using ne by (simp add: header_set_lookup header_names del: js_Cons split: option.split list.split)
  next
    show "map_of (req_headers (api_request E path opts token)) (js ''content-type'') =
        (case map_of (headers_new (opt_headers opts)) (js ''content-type'') of Some v \<Rightarrow> Some v
        | None \<Rightarrow> if has_text_body opts then Some (js ''application/json'') else None)"
      unfolding api_request_def api_headers_def auth_header_def Let_def
      using ne by (auto simp: header_set_lookup header_names header_has_iff simp del: js_Cons split: option.split)
  qed
qed

text \<open>A failed login stores nothing; a successful one stores the tokens and the role of the
  answer, and logging out afterwards leaves the storage without the three keys.\<close>

theorem login_session:
  "case login E email password s of (r, s') \<Rightarrow>
     (case r of Inl e \<Rightarrow> storage s' = storage s
      | Inr d \<Rightarrow> storage s' = set_items (val_str (jprop (js ''access_token'') d))
           (val_str (jprop (js ''refresh_token'') d)) (val_str (jprop (js ''role'') d)) (storage s)
         \<and> getToken E s' = (if has_window E then Some (val_str (jprop (js ''access_token'') d)) else None)
         \<and> getRole E s' = (if has_window E then Some (val_str (jprop (js ''role'') d)) else None))
     \<and> storage (clearSession s') = (storage s)(ACCESS := None, REFRESH := None, ROLE := None)
     \<and> getToken E (clearSession s') = None"
proof -
  have keys: "ACCESS \<noteq> ROLE" "ACCESS \<noteq> REFRESH" "REFRESH \<noteq> ROLE" by code_simp+
  show ?thesis
    using keys
    by (auto simp: login_def bindE_def do_fetch_def throwE_def res_json_def thenE_def store_tokens_def modE_def
      retE_def setSession_def set_items_def getToken_def getRole_def clearSession_def fun_eq_iff
      split: prod.splits fetch_result.splits sum.splits if_splits)
qed

text \<open>A protected blob is fetched once: a 401 is an error even when a refresh token is
  stored, and the session is not touched.\<close>

lemma blob_is_not_retried:
  "\<exists>x. traffic (snd (authedBlobUrl E path s)) = traffic s @ [(blob_request E path (getToken E s), x)]
    \<and> storage (snd (authedBlobUrl E path s)) = storage s
    \<and> fst (authedBlobUrl E path s) = (case x of Rejected \<Rightarrow> Inl NetErr
        | Answered res \<Rightarrow> if \<not> res_ok res then Inl (ApiErr (status res) load_failed)
            else if broken res then Inl NetErr else Inr (body_bytes res))"
  by (auto simp: authedBlobUrl_def getE_def bindE_def do_fetch_def throwE_def retE_def
    split: prod.splits fetch_result.splits)

end
