(* ===== verification/Api_Stream.thy ===== *)
theory Api_Stream
  imports Api_Facts
begin

text \<open>
  The chat stream, \<open>streamChat\<close> of \<open>panel/lib/api.ts\<close>: bytes arrive in chunks of any size,
  are decoded, cut into events at blank lines, and each event calls \<open>onDelta\<close> or
  \<open>onError\<close>, until \<open>[DONE]\<close> or the end of the body.
\<close>

section \<open>One event\<close>

text \<open>The calls of the two callbacks; the piece is any truthy JSON value.\<close>

datatype reply = Delta json | Fault json

datatype event_step = Skip | Finish | Emit reply

abbreviation nn :: jstr where "nn \<equiv> [10, 10]"

definition data_prefix :: jstr where "data_prefix = js ''data:''"
definition done_mark :: jstr where "done_mark = 0x5B # js ''DONE'' @ [0x5D]"

definition event_line :: "jstr \<Rightarrow> jstr option" where
  "event_line evt = List.find (\<lambda>l. starts_with l data_prefix) (js_split [10] evt)"

definition chunk_piece :: "json \<Rightarrow> jval" where
  "chunk_piece chunk =
     opt_prop (js ''content'') (opt_prop (js ''delta'') (opt_index0 (jprop (js ''choices'') chunk)))"

definition handle_event :: "bool \<Rightarrow> jstr \<Rightarrow> event_step" where
  "handle_event has_on_error evt = (case event_line evt of
      None \<Rightarrow> Skip
    | Some line \<Rightarrow> (let payload = trim (drop (length data_prefix) line) in
        if payload = done_mark then Finish
        else (case json_parse payload of
            None \<Rightarrow> Skip
          | Some chunk \<Rightarrow>
              if chunk = JNull then Skip
              else (case chunk_piece chunk of
                  None \<Rightarrow> Skip
                | Some piece \<Rightarrow>
                    if \<not> truthy (Some piece) then Skip
                    else if truthy (jprop (js ''error'') chunk) \<and> has_on_error then Emit (Fault piece)
                    else Emit (Delta piece)))))"

section \<open>The read loop\<close>

text \<open>The events of one chunk: the calls made, and whether the function returned.\<close>

fun run_events :: "bool \<Rightarrow> jstr list \<Rightarrow> reply list \<times> bool" where
  "run_events h [] = ([], False)"
| "run_events h (e # es) = (case handle_event h e of
      Skip \<Rightarrow> run_events h es
    | Finish \<Rightarrow> ([], True)
    | Emit r \<Rightarrow> (let (rs, fin) = run_events h es in (r # rs, fin)))"

text \<open>\<open>buffer += text; events = buffer.split(..); buffer = events.pop()\<close>.\<close>

definition cut_events :: "jstr \<Rightarrow> jstr \<Rightarrow> jstr list \<times> jstr" where
  "cut_events text buffer = (let parts = js_split nn (buffer @ text) in (butlast parts, last parts))"

fun read_chunks :: "bool \<Rightarrow> u8 list list \<Rightarrow> decoder \<Rightarrow> jstr \<Rightarrow> reply list \<times> bool" where
  "read_chunks h [] d buffer = ([], False)"
| "read_chunks h (c # cs) d buffer =
     (let (text, d1) = decode_bytes c d;
          (events, buffer1) = cut_events text buffer;
          (rs, fin) = run_events h events
      in if fin then (rs, True)
         else (let (rs2, fin2) = read_chunks h cs d1 buffer1 in (rs @ rs2, fin2)))"

definition stream_calls :: "bool \<Rightarrow> u8 list list \<Rightarrow> reply list \<times> bool" where
  "stream_calls h cs = read_chunks h cs decoder_init []"

section \<open>The request\<close>

definition stream_request :: "'w env \<Rightarrow> jstr \<Rightarrow> jstr \<Rightarrow> jstr option \<Rightarrow> request" where
  "stream_request E conversationId content token =
     \<lparr>req_method = js ''POST'',
      req_url = base E @ js ''/api/conversations/'' @ conversationId @ js ''/chat/stream'',
      req_headers = auth_header token json_type,
      req_body = Some (TextBody (stringify (JObj [(js ''content'', JStr content)])))\<rparr>"

text \<open>
  The open stream: the calls it will make, and whether \<open>read()\<close> rejects behind them because
  the connection breaks before \<open>[DONE]\<close>.
\<close>

definition open_stream :: "'w env \<Rightarrow> jstr \<Rightarrow> jstr \<Rightarrow> bool \<Rightarrow> ('w, 'm, reply list \<times> bool) net_eff" where
  "open_stream E conversationId content has_on_error = getE (\<lambda>s.
     bindE (do_fetch E (stream_request E conversationId content (getToken E s))) (\<lambda>res.
       case chunks res of
         None \<Rightarrow> throwE (ApiErr (status res) (js ''stream failed''))
       | Some cs \<Rightarrow>
           if \<not> res_ok res then throwE (ApiErr (status res) (js ''stream failed''))
           else (let (rs, fin) = stream_calls has_on_error cs in retE (rs, \<not> fin \<and> broken res))))"

text \<open>\<open>call\<close> is what a call of a callback does to the state.\<close>

definition streamChat ::
    "'w env \<Rightarrow> jstr \<Rightarrow> jstr \<Rightarrow> bool \<Rightarrow> (reply \<Rightarrow> ('w, 'm) net_scheme \<Rightarrow> ('w, 'm) net_scheme)
      \<Rightarrow> ('w, 'm, unit) net_eff" where
  "streamChat E conversationId content has_on_error call =
     bindE (open_stream E conversationId content has_on_error) (\<lambda>(rs, breaks).
       thenE (modE (fold call rs)) (if breaks then throwE NetErr else retE ()))"

section \<open>Chunked reading\<close>

text \<open>
  The contract of a stage that consumes a stream in pieces: feeding two pieces is feeding
  their concatenation. The client's fact: only the concatenation of all pieces matters.
\<close>

fun feed_all :: "('c list \<Rightarrow> 's \<Rightarrow> 'o list \<times> 's) \<Rightarrow> 'c list list \<Rightarrow> 's \<Rightarrow> 'o list \<times> 's" where
  "feed_all feed [] s = ([], s)"
| "feed_all feed (c # cs) s = (let (a, s1) = feed c s; (b, s2) = feed_all feed cs s1 in (a @ b, s2))"

locale chunked =
  fixes feed :: "'c list \<Rightarrow> 's \<Rightarrow> 'o list \<times> 's" and ready_state :: "'s \<Rightarrow> bool"
  assumes feed_Nil: "ready_state s \<Longrightarrow> feed [] s = ([], s)"
    and feed_append: "ready_state s \<Longrightarrow>
      feed (xs @ ys) s = (let (a, s1) = feed xs s; (b, s2) = feed ys s1 in (a @ b, s2))"
    and feed_ready: "ready_state s \<Longrightarrow> ready_state (snd (feed xs s))"
begin

lemma feed_all_concat: "ready_state s \<Longrightarrow> feed_all feed cs s = feed (concat cs) s"
proof (induction cs arbitrary: s)
  case Nil
  then show ?case by (simp add: feed_Nil)
next
  case (Cons c cs)
  have "ready_state (snd (feed c s))" using Cons.prems by (rule feed_ready)
  with Cons show ?case by (simp add: feed_append Let_def case_prod_beta)
qed

lemma chunking_irrelevant:
  "ready_state s \<Longrightarrow> concat cs = concat cs' \<Longrightarrow> feed_all feed cs s = feed_all feed cs' s"
  by (simp add: feed_all_concat)

end

interpretation utf8: chunked decode_bytes "\<lambda>_. True"
  by unfold_locales (simp_all add: decode_bytes_append)

text \<open>A buffer between two chunks never holds a blank line.\<close>

interpretation events: chunked cut_events "\<lambda>b. \<not> sublist nn b"
proof unfold_locales
  fix s :: jstr and xs ys :: jstr
  assume s: "\<not> sublist nn s"
  show "cut_events [] s = ([], s)" using s by (simp add: cut_events_def js_split_None)
  show "\<not> sublist nn (snd (cut_events xs s))"
    using js_split_pieces [of nn "last (js_split nn (s @ xs))" "s @ xs"]
    by (simp add: cut_events_def Let_def)
  show "cut_events (xs @ ys) s =
    (let (a, s1) = cut_events xs s; (b, s2) = cut_events ys s1 in (a @ b, s2))"
    using js_split_append [of nn "s @ xs" ys]
    by (simp add: cut_events_def Let_def butlast_append)
qed

text \<open>The two stages together.\<close>

definition feed_bytes :: "u8 list \<Rightarrow> decoder \<times> jstr \<Rightarrow> jstr list \<times> decoder \<times> jstr" where
  "feed_bytes bs db = (let (text, d1) = decode_bytes bs (fst db); (es, b1) = cut_events text (snd db)
     in (es, d1, b1))"

interpretation stream: chunked feed_bytes "\<lambda>db. \<not> sublist nn (snd db)"
proof unfold_locales
  fix db :: "decoder \<times> jstr" and xs ys :: "u8 list"
  assume db: "\<not> sublist nn (snd db)"
  show "feed_bytes [] db = ([], db)"
    using events.feed_Nil [OF db] by (simp add: feed_bytes_def)
  show "\<not> sublist nn (snd (snd (feed_bytes xs db)))"
    using events.feed_ready [OF db] by (simp add: feed_bytes_def Let_def case_prod_beta)
  show "feed_bytes (xs @ ys) db =
    (let (a, s1) = feed_bytes xs db; (b, s2) = feed_bytes ys s1 in (a @ b, s2))"
    using events.feed_append [OF db]
    by (simp add: feed_bytes_def utf8.feed_append Let_def case_prod_beta)
qed

lemma run_events_append:
  "run_events h (xs @ ys) = (let (a, fin) = run_events h xs in
     if fin then (a, True) else (let (b, fin2) = run_events h ys in (a @ b, fin2)))"
  by (induction xs) (auto simp: Let_def split: event_step.splits prod.splits)

lemma read_chunks_feed: "read_chunks h cs d b = run_events h (fst (feed_all feed_bytes cs (d, b)))"
  by (induction cs arbitrary: d b)
    (auto simp: feed_bytes_def run_events_append Let_def split: prod.splits)

end
