(* ===== verification/Stream_Facts.thy ===== *)
theory Stream_Facts
  imports Api_Stream
begin

text \<open>
  Properties of the chat stream: the calls depend on the bytes and not on the chunks, they only
  grow while bytes arrive, and the messages that the server writes as events come out of the
  callbacks unchanged.
\<close>

section \<open>Events as the server writes them\<close>

definition delta_json :: "bool \<Rightarrow> jstr \<Rightarrow> json" where
  "delta_json failed t = JObj ((if failed then [(js ''error'', JBool True)] else []) @
     [(js ''choices'', JArr [JObj [(js ''delta'', JObj [(js ''content'', JStr t)])]])])"

definition wire_event :: "jstr \<Rightarrow> jstr" where
  "wire_event payload = js ''data: '' @ payload @ nn"

definition wire :: "(bool \<times> jstr) list \<Rightarrow> jstr" where
  "wire msgs = concat (map (\<lambda>(failed, t). wire_event (stringify (delta_json failed t))) msgs) @ wire_event done_mark"

definition call_of :: "bool \<times> jstr \<Rightarrow> reply" where
  "call_of m = (if fst m then Fault (JStr (snd m)) else Delta (JStr (snd m)))"

lemma no_break_here: "10 \<notin> set a \<Longrightarrow> \<not> sublist nn (a @ [10])"
  by (induction a) (auto simp: sublist_Cons_right prefix_Cons)

lemma single_line: "10 \<notin> set a \<Longrightarrow> js_split [10] a = [a]"
proof -
  assume "10 \<notin> set a"
  then have "\<not> sublist [10] a" by (induction a) (auto simp: sublist_Cons_right)
  then show ?thesis by (simp add: js_split_None)
qed

lemma split_wire_event:
  "10 \<notin> set p \<Longrightarrow> js_split nn (wire_event p @ r) = (js ''data: '' @ p) # js_split nn r"
  using js_split_here [of nn "js ''data: '' @ p" r] no_break_here [of "js ''data: '' @ p"]
  by (simp add: wire_event_def)

lemma event_line_wire: "10 \<notin> set p \<Longrightarrow> event_line (js ''data: '' @ p) = Some (js ''data: '' @ p)"
  using single_line [of "js ''data: '' @ p"] by (simp add: event_line_def starts_with_def data_prefix_def)

lemma payload_wire: "trimmed p \<Longrightarrow> trim (drop (length data_prefix) (js ''data: '' @ p)) = p"
  using trim_trimmed [of p] by (simp add: data_prefix_def trim_def trim_start_def is_ws_def)

lemma delta_json_plain: "plain (delta_json failed t)"
  by (simp add: delta_json_def)

lemma stringify_object: "trimmed (stringify (JObj ps)) \<and> stringify (JObj ps) \<noteq> done_mark"
  by (simp add: trimmed_def is_ws_def done_mark_def)

lemma stringify_no_lf: "plain j \<Longrightarrow> 10 \<notin> set (stringify j)"
  using stringify_visible [of j 10] by auto

lemma handle_delta:
  "t \<noteq> [] \<Longrightarrow> handle_event True (js ''data: '' @ stringify (delta_json failed t)) = Emit (call_of (failed, t))"
proof -
  assume t: "t \<noteq> []"
  let ?p = "stringify (delta_json failed t)"
  have p: "trimmed ?p" "?p \<noteq> done_mark" unfolding delta_json_def using stringify_object by blast+
  have line: "event_line (js ''data: '' @ ?p) = Some (js ''data: '' @ ?p)"
    by (intro event_line_wire stringify_no_lf delta_json_plain)
  have piece: "chunk_piece (delta_json failed t) = Some (JStr t)"
    "jprop (js ''error'') (delta_json failed t) = (if failed then Some (JBool True) else None)"
    "delta_json failed t \<noteq> JNull"
    by (simp_all add: chunk_piece_def delta_json_def opt_index0_def)
  show ?thesis
    unfolding handle_event_def line option.case Let_def payload_wire [OF p(1)]
    using p(2) piece t by (simp add: json_parse_stringify [OF delta_json_plain] call_of_def)
qed

lemma handle_done: "handle_event h (js ''data: '' @ done_mark) = Finish"
proof -
  have "trimmed done_mark" "10 \<notin> set done_mark" by (simp_all add: done_mark_def trimmed_def is_ws_def)
  then show ?thesis
    unfolding handle_event_def event_line_wire [OF \<open>10 \<notin> set done_mark\<close>] option.case Let_def
    by (simp only: payload_wire if_True refl)
qed

lemma run_wire:
  "\<forall>m \<in> set msgs. snd m \<noteq> [] \<Longrightarrow>
    run_events True (butlast (js_split nn (wire msgs @ r))) = (map call_of msgs, True)"
proof (induction msgs)
  case Nil
  have "10 \<notin> set done_mark" by (simp add: done_mark_def)
  then have "js_split nn (wire [] @ r) = (js ''data: '' @ done_mark) # js_split nn r"
    using split_wire_event [of done_mark r] by (simp add: wire_def del: js_Cons)
  then show ?case by (simp add: handle_done del: js_Cons)
next
  case (Cons m msgs)
  have lf: "10 \<notin> set (stringify (delta_json (fst m) (snd m)))" by (intro stringify_no_lf delta_json_plain)
  have h: "handle_event True (js ''data: '' @ stringify (delta_json (fst m) (snd m))) = Emit (call_of m)"
    using handle_delta [of "snd m" "fst m"] Cons.prems by simp
  have "js_split nn (wire (m # msgs) @ r) =
      (js ''data: '' @ stringify (delta_json (fst m) (snd m))) # js_split nn (wire msgs @ r)"
    using split_wire_event [OF lf, of "wire msgs @ r"] by (simp add: wire_def case_prod_beta)
  then show ?case using Cons h by (simp del: js_Cons)
qed

lemma wire_well_formed: "well_formed (wire msgs)"
proof -
  have ev: "well_formed (wire_event p)" if "well_formed p" for p
    unfolding wire_event_def
    by (intro well_formed_append bmp_well_formed that) (simp_all add: bmp_def is_high_def is_low_def)
  have "well_formed (concat (map (\<lambda>(failed, t). wire_event (stringify (delta_json failed t))) msgs))"
    by (induction msgs) (auto intro!: well_formed_append ev stringify_well_formed delta_json_plain)
  moreover have "well_formed done_mark"
    by (rule bmp_well_formed) (simp add: bmp_def done_mark_def is_high_def is_low_def)
  ultimately show ?thesis unfolding wire_def by (intro well_formed_append ev)
qed

lemma wire_hd: "wire msgs \<noteq> [] \<and> hd (wire msgs) \<noteq> 0xFEFF"
  by (cases msgs) (auto simp: wire_def wire_event_def)

lemma stream_calls_text:
  "stream_calls h cs = run_events h (butlast (js_split nn (fst (decode_bytes (concat cs) decoder_init))))"
proof -
  have "\<not> sublist nn (snd (decoder_init, []))" by simp
  from stream.feed_all_concat [OF this, of cs] show ?thesis
    unfolding stream_calls_def read_chunks_feed
    by (simp add: feed_bytes_def cut_events_def Let_def case_prod_beta)
qed

lemma wire_delivered:
  assumes "concat cs = utf8_encode (wire msgs) @ rest" and "\<forall>m \<in> set msgs. snd m \<noteq> []"
  shows "stream_calls True cs = (map call_of msgs, True)"
proof -
  have "fst (decode_bytes (concat cs) decoder_init) =
      wire msgs @ fst (decode_bytes rest (decoder_init\<lparr>bom_seen := True\<rparr>))"
    using decode_encode_start [OF wire_well_formed, of msgs] wire_hd [of msgs]
    by (simp add: assms(1) decode_bytes_append case_prod_beta Let_def)
  then show ?thesis using run_wire [OF assms(2)] by (simp add: stream_calls_text)
qed

section \<open>Properties\<close>

text \<open>C2. The calls of the callbacks do not depend on how the network cuts the stream: reading
  chunk by chunk, with a code point or a blank line split between chunks, gives what decoding the
  whole body and cutting the whole text at blank lines gives.\<close>

theorem stream_chunking_irrelevant:
  "stream_calls h cs = run_events h (butlast (js_split nn (fst (decode_bytes (concat cs) decoder_init))))"
  by (rule stream_calls_text)

text \<open>C1. End to end: the messages that the server writes as events, in any chunks and with
  anything behind \<open>[DONE]\<close>, arrive one by one, in order and unchanged, errors in
  \<open>onError\<close> and tokens in \<open>onDelta\<close>, and the function returns at \<open>[DONE]\<close>.\<close>

theorem stream_delivers_messages:
  assumes "concat cs = utf8_encode (wire msgs) @ rest" and "\<forall>m \<in> set msgs. snd m \<noteq> []"
  shows "stream_calls True cs = (map call_of msgs, True)"
  using assms by (rule wire_delivered)

theorem stream_delivers_messages_witness:
  "stream_calls True (map (\<lambda>b. [b]) (utf8_encode (wire [(False, js ''Mer'' @ [0xD83D, 0xDE00]), (True, js ''no'')])))
    = ([Delta (JStr (js ''Mer'' @ [0xD83D, 0xDE00])), Fault (JStr (js ''no''))], True)"
  using stream_delivers_messages [where rest = "[]"
      and cs = "map (\<lambda>b. [b]) (utf8_encode (wire [(False, js ''Mer'' @ [0xD83D, 0xDE00]), (True, js ''no'')]))"
      and msgs = "[(False, js ''Mer'' @ [0xD83D, 0xDE00]), (True, js ''no'')]"]
  by (simp add: call_of_def)

text \<open>Calls are never taken back: what was delivered after some chunks is a prefix of what
  is delivered after more chunks, and after the end of the stream nothing changes any more.\<close>

lemma stream_is_incremental:
  "prefix (fst (stream_calls h cs)) (fst (stream_calls h (cs @ ds)))
    \<and> (if snd (stream_calls h cs) then stream_calls h (cs @ ds) = stream_calls h cs else True)"
proof -
  have app: "feed_all feed_bytes (cs @ ds) st =
      (let (a, s1) = feed_all feed_bytes cs st; (b, s2) = feed_all feed_bytes ds s1 in (a @ b, s2))" for st
    by (induction cs arbitrary: st) (auto simp: Let_def split: prod.splits)
  show ?thesis
    by (auto simp: stream_calls_def read_chunks_feed app run_events_append Let_def split: prod.splits)
qed

text \<open>Opening a stream is one request: a 401 answer ends it with an error and the session
  stays as it is, though a refresh token may be stored, unlike the calls of \<open>api\<close> and unlike what
  \<open>panel/README.md\<close> says of all of \<open>lib/api.ts\<close>.\<close>

theorem stream_401_is_not_refreshed:
  assumes "fetch E (world s) (stream_request E c t (getToken E s)) = (Answered res, w)" and "status res = 401"
  shows "streamChat E c t h call s = (Inl (ApiErr 401 (js ''stream failed'')),
    s\<lparr>world := w, traffic := traffic s @ [(stream_request E c t (getToken E s), Answered res)]\<rparr>)"
  using assms by (simp add: streamChat_def open_stream_def getE_def bindE_def do_fetch_def throwE_def res_ok_def split: option.split)

definition expired :: response where
  "expired = \<lparr>status = 401, status_text = js ''Unauthorized'', chunks = None, broken = False\<rparr>"

theorem stream_401_witness:
  "let s = demo_net [(ACCESS, js ''old''), (REFRESH, js ''r'')];
       E = demo_env [Answered expired] in
   fst (streamChat E (js ''c'') (js ''hi'') True (\<lambda>_ s. s) s) = Inl (ApiErr 401 (js ''stream failed''))
     \<and> refresh_token (snd (streamChat E (js ''c'') (js ''hi'') True (\<lambda>_ s. s) s)) = Some (js ''r'')"
proof -
  let ?s = "demo_net [(ACCESS, js ''old''), (REFRESH, js ''r'')]"
  let ?E = "demo_env [Answered expired]"
  have "ACCESS \<noteq> REFRESH" by code_simp
  then show ?thesis
    using stream_401_is_not_refreshed [of ?E ?s "js ''c''" "js ''hi''" expired 1 True "\<lambda>_ s. s"]
    by (simp add: demo_env_def demo_net_def expired_def refresh_token_def)
qed

end
