(* ===== verification/Panel_Theme.thy ===== *)
theory Panel_Theme
  imports Api_Facts
begin

text \<open>
  Appearance: the dark mode and the server's theme and branding, \<open>panel/lib/theme-bootstrap.tsx\<close>
  and \<open>panel/lib/settings-context.tsx\<close>. The document is the state of the page that both write.
\<close>

section \<open>The document\<close>

record 'w doc = "'w net" +
  html_dark :: bool \<comment> \<open>class \<open>dark\<close> of the root element\<close>
  data_theme :: "jstr option"

definition DARK :: jstr where "DARK = js ''rafine_dark''"
definition THEME :: jstr where "THEME = js ''rafine_theme''"

definition set_item :: "jstr \<Rightarrow> jstr \<Rightarrow> ('w, 'm) net_scheme \<Rightarrow> ('w, 'm) net_scheme" where
  "set_item k v s = s\<lparr>storage := (storage s)(k \<mapsto> v)\<rparr>"

definition apply_saved_dark :: "('w, 'm) doc_scheme \<Rightarrow> ('w, 'm) doc_scheme" where
  "apply_saved_dark s = s\<lparr>html_dark := (storage s DARK = Some (js ''1''))\<rparr>"

definition toggleDark :: "('w, 'm) doc_scheme \<Rightarrow> ('w, 'm) doc_scheme" where
  "toggleDark s = (let isDark = \<not> html_dark s in
     set_item DARK (if isDark then js ''1'' else js ''0'') (s\<lparr>html_dark := isDark\<rparr>))"

definition getDark :: "'w env \<Rightarrow> ('w, 'm) doc_scheme \<Rightarrow> bool" where
  "getDark E s = (has_window E \<and> html_dark s)"

definition settings_request :: "'w env \<Rightarrow> request" where
  "settings_request E = \<lparr>req_method = js ''GET'', req_url = base E @ js ''/api/settings'',
     req_headers = [], req_body = None\<rparr>"

section \<open>ThemeBootstrap\<close>

definition theme_bootstrap :: "'w env \<Rightarrow> ('w, 'm doc_ext, unit) net_eff" where
  "theme_bootstrap E = thenE (modE apply_saved_dark)
     (catchE
       (bindE (do_fetch E (settings_request E)) (\<lambda>r. bindE (res_json r) (\<lambda>s.
          if s = JNull then throwE TypeErr
          else (let theme = val_str (or_nullish (jprop (js ''chat_theme'') s) (Some (JStr (js ''default'')))) in
            thenE (modE (\<lambda>d. d\<lparr>data_theme := Some theme\<rparr>)) (modE (set_item THEME theme))))))
       (\<lambda>_. retE ()))"

section \<open>SettingsProvider\<close>

type_synonym settings = "(jstr \<times> json) list"

definition SETTING_DEFAULTS :: settings where
  "SETTING_DEFAULTS = [
     (js ''chat_theme'', JStr (js ''default'')),
     (js ''app_name'', JStr (js ''RafineAI'')),
     (js ''app_logo'', JStr (js ''R'')),
     (js ''app_logo_url'', JStr []),
     (js ''app_tagline'', JStr (js ''AI Gateway'')),
     (js ''chat_welcome_title'', JStr (js ''Yeni bir sohbet ba'' @ [0x15F] @ js ''lat'')),
     (js ''chat_welcome_subtitle'', JStr (js ''Yukar'' @ [0x131] @ js ''dan modeli se'' @ [0xE7] @ js '', mesaj''
        @ [0x131] @ js ''n'' @ [0x131] @ js '' yaz.'')),
     (js ''chat_placeholder'', JStr (js ''Mesaj'' @ [0x131] @ js ''n'' @ [0x131] @ js '' yaz'' @ [0x2026]
        @ js ''  (Enter ile g'' @ [0xF6] @ js ''nder, Shift+Enter yeni sat'' @ [0x131] @ js ''r)'')),
     (js ''chat_send_label'', JStr (js ''G'' @ [0xF6] @ js ''nder''))]"

text \<open>\<open>{ ...SETTING_DEFAULTS, ...s }\<close>, as far as a member of \<open>AppSettings\<close> is read.\<close>

definition merge_settings :: "json \<Rightarrow> settings" where
  "merge_settings s = map (\<lambda>(k, d). (k, case jprop k s of None \<Rightarrow> d | Some v \<Rightarrow> v)) SETTING_DEFAULTS"

definition setting :: "jstr \<Rightarrow> settings \<Rightarrow> jstr" where
  "setting k st = val_str (map_of st k)"

definition apply_theme :: "jstr \<Rightarrow> ('w, 'm) doc_scheme \<Rightarrow> ('w, 'm) doc_scheme" where
  "apply_theme theme d = d\<lparr>data_theme := Some theme\<rparr>"

text \<open>The effect of the provider; its result is the context value.\<close>

definition load_settings :: "'w env \<Rightarrow> ('w, 'm doc_ext, settings) net_eff" where
  "load_settings E = thenE (modE apply_saved_dark)
     (catchE
       (bindE (do_fetch E (settings_request E)) (\<lambda>r. bindE (res_json r) (\<lambda>s.
          let merged = merge_settings s; theme = setting (js ''chat_theme'') merged in
          thenE (modE (\<lambda>d. set_item THEME theme (apply_theme theme d))) (retE merged))))
       (\<lambda>_. thenE (modE (\<lambda>d. apply_theme (case storage d THEME of None \<Rightarrow> js ''default'' | Some c \<Rightarrow> c) d))
          (retE SETTING_DEFAULTS)))"

section \<open>Properties\<close>

text \<open>A page that is loaded later over the same storage.\<close>

definition reloaded :: "('w, 'm) doc_scheme \<Rightarrow> ('w, 'm) doc_scheme" where
  "reloaded s = s\<lparr>html_dark := False, data_theme := None\<rparr>"

lemma theme_keys: "DARK \<noteq> THEME" "DARK \<noteq> ACCESS" "DARK \<noteq> REFRESH" "DARK \<noteq> ROLE" "THEME \<noteq> ACCESS"
  by code_simp+

text \<open>The dark mode survives: after a toggle, in any state, a page loaded from the same storage
  starts in the mode that is shown, and two toggles bring the first mode back.\<close>

lemma dark_mode_survives_reload:
  "html_dark (apply_saved_dark (reloaded (toggleDark s))) = html_dark (toggleDark s)
    \<and> html_dark (toggleDark s) = (\<not> html_dark s)
    \<and> html_dark (toggleDark (toggleDark s)) = html_dark s"
  by (simp add: toggleDark_def apply_saved_dark_def reloaded_def set_item_def Let_def)

lemma load_settings_cases:
  "load_settings E s = (let s0 = apply_saved_dark s in case fetch E (world s0) (settings_request E) of (x, w) \<Rightarrow>
     let s1 = s0\<lparr>world := w, traffic := traffic s0 @ [(settings_request E, x)]\<rparr> in
     case (case x of Rejected \<Rightarrow> Inl NetErr | Answered r \<Rightarrow> read_json r) of
       Inl e \<Rightarrow> (Inr SETTING_DEFAULTS, apply_theme (case storage s1 THEME of None \<Rightarrow> js ''default'' | Some c \<Rightarrow> c) s1)
     | Inr j \<Rightarrow> (let theme = setting (js ''chat_theme'') (merge_settings j) in
         (Inr (merge_settings j), set_item THEME theme (apply_theme theme s1))))"
  by (auto simp: load_settings_def thenE_def bindE_def modE_def catchE_def do_fetch_def res_json_def retE_def Let_def
    apply_theme_def set_item_def split: prod.splits fetch_result.splits sum.splits)

text \<open>C24. The page always gets a complete set of settings, whatever the server does; and when a page
  loaded later cannot reach the server, it shows the theme that the last successful load cached.\<close>

theorem settings_are_complete_and_cached:
  "(\<exists>st s'. load_settings E s = (Inr st, s') \<and> map fst st = map fst SETTING_DEFAULTS \<and> data_theme s' \<noteq> None)
    \<and> (case load_settings E s of (_, s') \<Rightarrow>
        case fetch E (world s) (settings_request E) of
          (Answered r, _) \<Rightarrow> (case read_json r of Inl _ \<Rightarrow> True
            | Inr _ \<Rightarrow> data_theme (snd (load_settings (E\<lparr>fetch := \<lambda>w q. (Rejected, w)\<rparr>) (reloaded s'))) = data_theme s')
        | _ \<Rightarrow> True)"
  by (auto simp: load_settings_cases apply_theme_def set_item_def reloaded_def apply_saved_dark_def merge_settings_def
    Let_def comp_def split: prod.splits fetch_result.splits sum.splits)

end
