(* ===== verification/Page_Kit.thy ===== *)
theory Page_Kit
  imports Api_Facts
begin

text \<open>
  What the pages of the panel share: reading members of the server's JSON objects with their
  declared types, the role test, number parsing, and the handling of a call inside a handler.
  A page is a record that extends the network state; a handler is an effect over it.
\<close>

section \<open>Members of JSON objects\<close>

definition str_field :: "jstr \<Rightarrow> json \<Rightarrow> jstr" where
  "str_field k j = (case jprop k j of Some (JStr t) \<Rightarrow> t | _ \<Rightarrow> [])"

definition bool_field :: "jstr \<Rightarrow> json \<Rightarrow> bool" where
  "bool_field k j = truthy (jprop k j)"

definition items_of :: "jval \<Rightarrow> json list" where
  "items_of v = (case v of Some (JArr vs) \<Rightarrow> vs | _ \<Rightarrow> [])"

definition str_items :: "jval \<Rightarrow> jstr list" where
  "str_items v = map (\<lambda>j. case j of JStr t \<Rightarrow> t | _ \<Rightarrow> []) (items_of v)"

definition value_of :: "jval \<Rightarrow> json" where
  "value_of v = (case v of None \<Rightarrow> JNull | Some j \<Rightarrow> j)"

text \<open>The object behind a result of which a member is read next; \<open>null\<close> throws.\<close>

definition objectE :: "jval \<Rightarrow> ('s, err, json) eff" where
  "objectE v = (if nullish v then throwE TypeErr else retE (value_of v))"

section \<open>Roles\<close>

definition is_admin :: "'w env \<Rightarrow> ('w, 'm) net_scheme \<Rightarrow> bool" where
  "is_admin E s \<longleftrightarrow> getRole E s = Some (js ''owner'') \<or> getRole E s = Some (js ''admin'')"

section \<open>Numbers from text\<close>

text \<open>
  \<open>parseInt(s, 10)\<close>: blanks, a sign, digits; what follows is ignored, and without a digit
  the result is \<open>NaN\<close>, here \<open>None\<close>. \<open>JSON.stringify\<close> writes \<open>NaN\<close> as \<open>null\<close>.
\<close>

definition parse_int :: "jstr \<Rightarrow> int option" where
  "parse_int s = (let t = trim_start s;
       (neg, u) = (case t of c # cs \<Rightarrow> if c = 0x2D then (True, cs) else if c = 0x2B then (False, cs) else (False, t)
         | [] \<Rightarrow> (False, []));
       ds = takeWhile is_digit u
     in if ds = [] then None else Some (if neg then - int (nat_of_digits ds) else int (nat_of_digits ds)))"

definition int_json :: "int option \<Rightarrow> json" where
  "int_json n = (case n of None \<Rightarrow> JNull | Some i \<Rightarrow> JInt i)"

lemma parse_int_nat: "parse_int (dec_nat n) = Some (int n)"
proof -
  obtain c cs where c: "dec_nat n = c # cs" by (cases "dec_nat n") auto
  have d: "\<forall>x \<in> set (c # cs). is_digit x" using dec_nat_digits [of n] by (simp add: c)
  then have "\<not> is_ws c" "c \<noteq> 0x2D" "c \<noteq> 0x2B"
    by (auto simp: is_digit_def is_ws_def word_le_nat_alt)
  moreover have "takeWhile is_digit (c # cs) = c # cs" using d by (simp add: takeWhile_eq_all_conv)
  ultimately have "parse_int (c # cs) = Some (int (nat_of_digits (c # cs)))"
    by (simp add: parse_int_def trim_start_def Let_def)
  then show ?thesis using nat_of_digits_dec_nat [of n] by (simp add: c)
qed

section \<open>Calls in handlers\<close>

text \<open>A call whose promise no one waits for: its rejection reaches no code.\<close>

definition voidE :: "('s, err, 'a) eff \<Rightarrow> ('s, err, unit) eff" where
  "voidE m = catchE (thenE m (retE ())) (\<lambda>_. retE ())"

text \<open>\<open>try { m } catch (e) { h(e.message) }\<close>\<close>

definition tryE :: "'w env \<Rightarrow> ('s, err, unit) eff \<Rightarrow> (jstr \<Rightarrow> 's \<Rightarrow> 's) \<Rightarrow> ('s, err, unit) eff" where
  "tryE E m h = catchE m (\<lambda>e. modE (h (err_message E e)))"

text \<open>
  \<open>Promise.all\<close> of calls: every one is made, whatever the others answer, and the first
  failure is the failure of all. The calls run one after the other here, where in the browser
  their requests are under way together.
\<close>

definition attemptE :: "('s, 'e, 'a) eff \<Rightarrow> ('s, 'e, 'e + 'a) eff" where
  "attemptE m = (\<lambda>s. case m s of (r, s') \<Rightarrow> (Inr r, s'))"

fun runE :: "('s, 'e, 'a) eff list \<Rightarrow> ('s, 'e, ('e + 'a) list) eff" where
  "runE [] = retE []"
| "runE (m # ms) = bindE (attemptE m) (\<lambda>r. bindE (runE ms) (\<lambda>rs. retE (r # rs)))"

fun settled :: "('e + 'a) list \<Rightarrow> 'e + 'a list" where
  "settled [] = Inr []"
| "settled (Inl e # rs) = Inl e"
| "settled (Inr a # rs) = (case settled rs of Inl e \<Rightarrow> Inl e | Inr as \<Rightarrow> Inr (a # as))"

definition allE :: "('s, 'e, 'a) eff list \<Rightarrow> ('s, 'e, 'a list) eff" where
  "allE ms = bindE (runE ms) (\<lambda>rs. case settled rs of Inl e \<Rightarrow> throwE e | Inr as \<Rightarrow> retE as)"

lemma settled_map_Inr [simp]: "settled (map Inr as) = Inr as"
  by (induction as) simp_all

lemma settled_Inr: "settled rs = Inr as \<longleftrightarrow> rs = map Inr as"
  by (induction rs arbitrary: as rule: settled.induct) (auto split: sum.splits)

lemma voidE_returns: "fst (voidE m s) = Inr ()"
  by (auto simp: voidE_def eff_defs split: prod.split sum.split)

lemma tryE_returns: "fst (tryE E m h s) = Inr ()"
  by (auto simp: tryE_def eff_defs split: prod.split sum.split)

text \<open>What a handler does whose call is a request that may fail.\<close>

lemma tryE_call:
  assumes "c s = (r, s1)"
  shows "tryE E (thenE c (retE ())) h s = (Inr (), (case r of Inl e \<Rightarrow> h (err_message E e) s1 | Inr _ \<Rightarrow> s1))"
  using assms by (cases r) (simp_all add: tryE_def eff_defs)

text \<open>How a handler behaves when its one call is a request that may fail.\<close>

lemma bindE_cases:
  obtains (thrown) e s1 where "m s = (Inl e, s1)" "bindE m f s = (Inl e, s1)"
  | (returned) a s1 where "m s = (Inr a, s1)" "bindE m f s = f a s1"
proof (cases "m s")
  case (Pair r s1)
  then show ?thesis using that by (cases r) (simp_all add: bindE_def)
qed

lemma touches_attemptE: "touches_net m \<Longrightarrow> touches_net (attemptE m)"
  by (simp add: touches_net_def attemptE_def split_beta)

lemma touches_runE: "\<forall>m \<in> set ms. touches_net m \<Longrightarrow> touches_net (runE ms)"
  by (induction ms) (simp_all add: touches_retE touches_bindE touches_attemptE)

lemma touches_allE: "\<forall>m \<in> set ms. touches_net m \<Longrightarrow> touches_net (allE ms)"
  unfolding allE_def
  by (intro touches_bindE touches_runE) (auto split: sum.split simp: touches_retE touches_throwE)

text \<open>A continuation: what follows a failure and what follows a success.\<close>

definition settle :: "('s, err, 'a) eff \<Rightarrow> (err \<Rightarrow> 's \<Rightarrow> 's) \<Rightarrow> ('a \<Rightarrow> 's \<Rightarrow> 's) \<Rightarrow> 's \<Rightarrow> 's" where
  "settle m bad good s = (case m s of (Inl e, s1) \<Rightarrow> bad e s1 | (Inr v, s1) \<Rightarrow> good v s1)"

lemma settle_keeps:
  assumes "touches_net m"
    and "\<And>e a b c. P (bad e (s\<lparr>storage := a, world := b, traffic := c\<rparr>))"
    and "\<And>v a b c. P (good v (s\<lparr>storage := a, world := b, traffic := c\<rparr>))"
  shows "P (settle m bad good s)"
proof -
  obtain r a b c where "m s = (r, s\<lparr>storage := a, world := b, traffic := c\<rparr>)"
    using assms(1) by (rule touches_netE)
  then show ?thesis using assms(2,3) by (cases r) (simp_all add: settle_def)
qed

text \<open>A call leaves all of the page but the network state alone.\<close>

lemma api_net:
  assumes "api E path opts retry s = (r, s1)"
  obtains a b c where "s1 = s\<lparr>storage := a, world := b, traffic := c\<rparr>"
  using touches_netE [OF api.touches [of E path opts retry], where s = s] assms by (metis prod.inject)

text \<open>The scripted server of the examples answers a call with a JSON value.\<close>

lemma demo_api:
  assumes "world s < length answers" and "answers ! world s = Answered (json_answer 200 j)" and "plain j"
  shows "\<exists>l. api (demo_env answers) path opts retry s = (Inr (Some j), s\<lparr>world := Suc (world s), traffic := l\<rparr>)"
proof -
  have "fetch (demo_env answers) (world s) (api_request (demo_env answers) path opts (getToken (demo_env answers) s))
      = (Answered (json_answer 200 j), Suc (world s))"
    using assms(1,2) by (simp add: demo_env_def)
  then have "api (demo_env answers) path opts retry s = (Inr (Some j), s\<lparr>world := Suc (world s), traffic := traffic s @
      [(api_request (demo_env answers) path opts (getToken (demo_env answers) s), Answered (json_answer 200 j))]\<rparr>)"
    by (rule api_json_answer [where cs = "[utf8_encode (stringify j)]"]) (use assms(3) in \<open>simp_all add: json_answer_def res_ok_def\<close>)
  then show ?thesis by blast
qed

section \<open>Pages as machines\<close>

text \<open>
  A page whose handlers await more than once is a machine: its events, the continuations of
  its calls among them, are steps in any order.
\<close>

inductive reaches :: "('e \<Rightarrow> 's \<Rightarrow> 's) \<Rightarrow> ('s \<Rightarrow> bool) \<Rightarrow> 's \<Rightarrow> bool" for step start where
  reaches_start: "start s \<Longrightarrow> reaches step start s"
| reaches_step: "reaches step start s \<Longrightarrow> reaches step start (step e s)"

lemma reaches_fold: "reaches step start s \<Longrightarrow> reaches step start (fold step es s)"
  by (induction es arbitrary: s) (simp_all add: reaches_step)

text \<open>The contract of an invariant: it holds at the start and every step keeps it.\<close>

locale page_invariant =
  fixes step :: "'e \<Rightarrow> 's \<Rightarrow> 's" and start :: "'s \<Rightarrow> bool" and ok :: "'s \<Rightarrow> bool"
  assumes ok_start: "start s \<Longrightarrow> ok s"
    and ok_step: "ok s \<Longrightarrow> ok (step e s)"
begin

lemma ok_reached: "reaches step start s \<Longrightarrow> ok s"
  by (induction rule: reaches.induct) (simp_all add: ok_start ok_step)

lemma ok_run: "start s \<Longrightarrow> ok (fold step es s)"
  by (rule ok_reached [OF reaches_fold [OF reaches_start]])

end

end
