(* ===== verification/Chat_Content.thy ===== *)
theory Chat_Content
  imports Js_Regex Js_Json_Facts
begin

text \<open>
  What a chat message is made of: \<open>send\<close> of \<open>panel/app/(dash)/chat/page.tsx\<close> writes the
  user's text, document blocks and attachment data into one string, and
  \<open>parseMessageContent\<close> takes the string apart for the bubble. Attachments and contexts are
  the server's JSON objects, kept as they came.
\<close>

section \<open>Composing\<close>

definition field_text :: "jstr \<Rightarrow> json \<Rightarrow> jstr" where
  "field_text k j = val_str (jprop k j)"

definition document_block :: "jstr \<Rightarrow> jstr \<Rightarrow> jstr" where
  "document_block name text = [10, 10] @ js ''<document filename='' @ [0x22] @ name @ [0x22] @ js ''>'' @ [10]
     @ text @ [10] @ js ''</document>''"

definition doc_blocks :: "json list \<Rightarrow> jstr" where
  "doc_blocks atts = concat (map (\<lambda>a. document_block (field_text (js ''filename'') a) (field_text (js ''text_content'') a))
     (filter (\<lambda>a. truthy (jprop (js ''text_content'') a)) atts))"

definition ctx_blocks :: "json list \<Rightarrow> jstr" where
  "ctx_blocks ctxs = concat (map (\<lambda>c. document_block (field_text (js ''label'') c) (field_text (js ''text'') c)) ctxs)"

definition att_meta :: "json list \<Rightarrow> jstr" where
  "att_meta atts = (if length atts > 0
     then [10, 10] @ js ''<!--rafine-attachments:'' @ stringify (JArr atts) @ js ''-->'' else [])"

definition compose_content :: "jstr \<Rightarrow> json list \<Rightarrow> json list \<Rightarrow> jstr" where
  "compose_content text atts ctxs = text @ doc_blocks atts @ ctx_blocks ctxs @ att_meta atts"

section \<open>Taking apart\<close>

text \<open>\<open>/\n\n<!--rafine-attachments:(\[[\s\S]*?\])-->$/\<close>\<close>

definition att_rx :: rx where
  "att_rx = RSeq (RLit ([10, 10] @ js ''<!--rafine-attachments:''))
     (RSeq (RGrp 1 (RSeq (RLit [0x5B]) (RSeq (RRep False 0 None (\<lambda>_. True)) (RLit [0x5D]))))
       (RSeq (RLit (js ''-->'')) REnd))"

text \<open>\<open>/<document filename="[^"]*">[\s\S]*?<\/document>/g\<close>\<close>

definition doc_rx :: rx where
  "doc_rx = RSeq (RLit (js ''<document filename='' @ [0x22])) (RSeq (RRep True 0 None (\<lambda>c. c \<noteq> 0x22))
     (RSeq (RLit [0x22]) (RSeq (RLit (js ''>'')) (RSeq (RRep False 0 None (\<lambda>_. True)) (RLit (js ''</document>''))))))"

text \<open>The result of \<open>JSON.parse\<close> on text that starts with \<open>[\<close> is an array, if it parses.\<close>

definition json_items :: "json option \<Rightarrow> json list" where
  "json_items v = (case v of Some (JArr vs) \<Rightarrow> vs | _ \<Rightarrow> [])"

definition parseMessageContent :: "jstr \<Rightarrow> jstr \<times> json list" where
  "parseMessageContent content =
     (let (text, attachments) = (case rx_search att_rx content of
            None \<Rightarrow> (content, [])
          | Some (before, _, _, c) \<Rightarrow> (before, json_items (json_parse (cap_str 1 c))))
      in (trim (rx_remove_all doc_rx text), attachments))"

section \<open>Words that do not overlap themselves\<close>

definition unbordered :: "'a list \<Rightarrow> bool" where
  "unbordered w \<longleftrightarrow> (\<forall>k \<in> set [1..<length w]. \<not> prefix (drop k w) w)"

lemma unbordered_straddle:
  assumes "unbordered w" and "\<not> sublist w a"
  shows "\<not> sublist w (a @ butlast w)"
proof
  assume "sublist w (a @ butlast w)"
  then consider "sublist w a" | "sublist w (butlast w)"
    | x y where "w = x @ y" "suffix x a" "prefix y (butlast w)"
    by (auto simp: sublist_append)
  then show False
  proof cases
    case 2
    then have "length w \<le> length (butlast w)" by (rule sublist_length_le)
    then have "w = []" by (cases w rule: rev_cases) auto
    with assms(2) show ?thesis by simp
  next
    case (3 x y)
    show ?thesis
    proof (cases "x = [] \<or> y = []")
      case True
      then show ?thesis
      proof
        assume "x = []"
        then have "prefix w (butlast w)" using 3 by simp
        then have "length w \<le> length (butlast w)" by (rule prefix_length_le)
        then have "w = []" by (cases w rule: rev_cases) auto
        with assms(2) show False by simp
      next
        assume "y = []"
        then show False using 3 assms(2) by (auto intro: suffix_imp_sublist)
      qed
    next
      case False
      then have "length x \<in> set [1..<length w]" using 3(1) by (simp add: Suc_le_eq)
      moreover have "prefix (drop (length x) w) w"
        using 3 by (metis append_eq_conv_conj prefix_order.trans prefixeq_butlast)
      ultimately show ?thesis using assms(1) by (auto simp: unbordered_def)
    qed
  qed (use assms in simp)
qed

lemma not_sublist_append:
  assumes "\<not> sublist w a" and "\<forall>c \<in> set b. c \<notin> set w"
  shows "\<not> sublist w (a @ b)"
proof
  assume "sublist w (a @ b)"
  then consider "sublist w a" | "sublist w b" | x y where "w = x @ y" "suffix x a" "prefix y b"
    by (auto simp: sublist_append)
  then show False
  proof cases
    case 2
    then have "w = []" using assms(2) set_mono_sublist [of w b] by (cases w) auto
    with assms(1) show ?thesis by simp
  next
    case (3 x y)
    then have "y = []" using assms(2) set_mono_prefix [of y b] by (cases y) auto
    with 3 assms(1) show ?thesis by (auto intro: suffix_imp_sublist)
  qed (use assms in simp)
qed

lemma cut_at_unbordered:
  "unbordered w \<Longrightarrow> w \<noteq> [] \<Longrightarrow> \<not> sublist w a \<Longrightarrow> cut_at w (a @ w @ b) = Some (a, b)"
  by (intro cut_at_here unbordered_straddle)

text \<open>Before the first place of a word no match that starts with the word can begin.\<close>

lemma no_match_before:
  assumes "unbordered w" and "\<not> sublist w a" and "w \<noteq> []" and "i < length a"
  shows "rx_match (RSeq (RLit w) x) (drop i a @ w @ s) = []"
proof -
  have "\<not> prefix w (drop i a @ w @ s)"
  proof
    assume p: "prefix w (drop i a @ w @ s)"
    have "length w \<le> length (drop i a @ butlast w)" using assms(3,4) by (cases w rule: rev_cases) auto
    moreover have "drop i a @ w @ s = (drop i a @ butlast w) @ last w # s"
      using assms(3) by (metis append.assoc append_Cons append_Nil append_butlast_last_id)
    ultimately have "prefix w (drop i a @ butlast w)"
      using p by (metis prefix_length_prefix prefixI)
    then have "sublist w (drop i (a @ butlast w))" using assms(4) by (simp add: prefix_imp_sublist)
    then have "sublist w (a @ butlast w)" by (metis sublist_drop sublist_order.order_trans)
    with unbordered_straddle [OF assms(1,2)] show False by simp
  qed
  then show ?thesis by (simp add: rx_match.simps)
qed

lemma no_match_at_all: "\<not> sublist w a \<Longrightarrow> rx_search (RSeq (RLit w) x) a = None"
proof -
  assume "\<not> sublist w a"
  then have "rx_match (RSeq (RLit w) x) t = []" if "suffix t a" for t
    using that by (auto simp: rx_match.simps dest!: prefix_imp_sublist suffix_imp_sublist
      dest: sublist_order.order_trans)
  then show ?thesis by (simp add: rx_search_None)
qed

section \<open>The patterns on composed text\<close>

definition doc_mark :: jstr where "doc_mark = js ''<document filename='' @ [0x22]"
definition doc_end :: jstr where "doc_end = js ''</document>''"
definition att_mark :: jstr where "att_mark = [10, 10] @ js ''<!--rafine-attachments:''"

lemma unbordered_marks: "unbordered doc_mark" "unbordered doc_end" "unbordered att_mark"
  by code_simp+

lemma marks_ne [simp]: "doc_mark \<noteq> []" "doc_end \<noteq> []" "att_mark \<noteq> []"
  by (simp_all add: doc_mark_def doc_end_def att_mark_def)

text \<open>Without the group the scanners of the library capture nothing.\<close>

lemma rx_match_ungroup:
  "rx_match (RSeq (RRep g lo hi P) x) s = map (\<lambda>(m, r, c). (m, r, tl c)) (rx_match (RSeq (RGrp k (RRep g lo hi P)) x) s)"
  by (auto simp: rx_match.simps map_concat intro!: arg_cong [where f = concat] map_cong)

lemma doc_exec:
  assumes "0x22 \<notin> set name" and "\<not> sublist doc_end text"
  shows "rx_exec_at doc_rx (doc_mark @ name @ [0x22] @ js ''>'' @ text @ doc_end @ r) =
    Some (doc_mark @ name @ [0x22] @ js ''>'' @ text @ doc_end, r, [])"
proof -
  let ?lazy = "RSeq (RRep False 0 None (\<lambda>_. True)) (RLit doc_end)"
  have lazy: "head_opt (rx_match ?lazy (text @ doc_end @ r)) = Some (text @ doc_end, r, [])"
    using lazy_lit_cut [of 0 doc_end "text @ doc_end @ r"] cut_at_unbordered [OF unbordered_marks(2) marks_ne(2) assms(2)]
    by (auto simp: rx_match_ungroup [where k = 0] head_opt_Some)
  have close: "rx_match (RSeq (RLit (js ''>'')) ?lazy) (js ''>'' @ text @ doc_end @ r) =
      map (\<lambda>(m, r, c). (js ''>'' @ m, r, c)) (rx_match ?lazy (text @ doc_end @ r))"
    by (simp add: rx_match.simps(1,3))
  have name: "rx_match (RSeq (RRep True 0 None (\<lambda>c. c \<noteq> 0x22)) (RSeq (RLit [0x22]) x)) (name @ 0x22 # s) =
      map (\<lambda>(m, r, c). (name @ 0x22 # m, r, c)) (rx_match x s)" for x s
    by (subst rx_match_ungroup [where k = 0], subst greedy_class_lit) (use assms(1) in auto)
  have open_tag: "rx_match (RSeq (RLit doc_mark) x) (doc_mark @ s) = map (\<lambda>(m, r, c). (doc_mark @ m, r, c)) (rx_match x s)" for x s
    by (simp add: rx_match.simps)
  have rx: "doc_rx = RSeq (RLit doc_mark) (RSeq (RRep True 0 None (\<lambda>c. c \<noteq> 0x22))
     (RSeq (RLit [0x22]) (RSeq (RLit (js ''>'')) ?lazy)))"
    by (simp add: doc_rx_def doc_mark_def doc_end_def)
  have "rx_match doc_rx (doc_mark @ name @ 0x22 # js ''>'' @ text @ doc_end @ r) =
      map (\<lambda>(m, r, c). (doc_mark @ name @ 0x22 # js ''>'' @ m, r, c)) (rx_match ?lazy (text @ doc_end @ r))"
    unfolding rx open_tag name close by (simp add: comp_def case_prod_beta)
  with lazy show ?thesis by (auto simp: rx_exec_at_def head_opt_Some)
qed

interpretation document: global_pattern doc_rx
  by unfold_locales (auto simp: doc_rx_def rx_match_iffs)

lemma remove_none: "\<not> sublist doc_mark t \<Longrightarrow> rx_remove_all doc_rx t = t"
  using no_match_at_all [of doc_mark t] document.all_None [of t]
  by (simp add: rx_remove_all_def doc_rx_def doc_mark_def)

lemma remove_block:
  assumes "\<not> sublist doc_mark t" and "0x22 \<notin> set name" and "\<not> sublist doc_end text"
  shows "rx_remove_all doc_rx (t @ document_block name text @ r) = t @ [10, 10] @ rx_remove_all doc_rx r"
proof -
  have br: "\<not> sublist doc_mark (t @ [10, 10])"
    by (rule not_sublist_append) (use assms(1) in \<open>simp_all add: doc_mark_def\<close>)
  have "\<not> sublist doc_end (text @ [10])"
    by (rule not_sublist_append) (use assms(3) in \<open>simp_all add: doc_end_def\<close>)
  then have te: "\<not> sublist doc_end ([10] @ text @ [10])"
    by (simp add: sublist_Cons_right doc_end_def)
  let ?m = "doc_mark @ name @ [0x22] @ js ''>'' @ ([10] @ text @ [10]) @ doc_end"
  have "rx_search doc_rx ((t @ [10, 10]) @ ?m @ r) = Some (t @ [10, 10], ?m, r, [])"
  proof (rule rx_search_behind)
    show "rx_exec_at doc_rx (?m @ r) = Some (?m, r, [])"
      using doc_exec [OF assms(2) te, of r] by simp
    show "rx_match doc_rx (drop i (t @ [10, 10]) @ ?m @ r) = []" if "i < length (t @ [10, 10])" for i
      using no_match_before [OF unbordered_marks(1) br _ that] by (simp add: doc_rx_def doc_mark_def)
  qed
  then show ?thesis
    using document.all_Some by (simp add: rx_remove_all_def document_block_def doc_mark_def doc_end_def case_prod_beta)
qed

lemma remove_blocks:
  assumes "\<not> sublist doc_mark t" and "\<forall>b \<in> set bs. 0x22 \<notin> set (fst b) \<and> \<not> sublist doc_end (snd b)"
  shows "rx_remove_all doc_rx (t @ concat (map (\<lambda>b. document_block (fst b) (snd b)) bs))
    = t @ concat (map (\<lambda>_. [10, 10]) bs)"
  using assms
proof (induction bs arbitrary: t)
  case Nil
  then show ?case by (simp add: remove_none)
next
  case (Cons b bs)
  have "\<not> sublist doc_mark []" by simp
  then have "rx_remove_all doc_rx (concat (map (\<lambda>b. document_block (fst b) (snd b)) bs)) = concat (map (\<lambda>_. [10, 10]) bs)"
    using Cons.IH [of "[]"] Cons.prems by simp
  then show ?case using remove_block Cons.prems by simp
qed

text \<open>The attachment data at the end of a text is found, and taken whole.\<close>

lemma att_match_all:
  assumes "(m, r, c) \<in> set (rx_match att_rx (att_mark @ 0x5B # s @ js '']-->''))"
  shows "r = [] \<and> m = att_mark @ 0x5B # s @ js '']-->'' \<and> c = [(1, 0x5B # s @ [0x5D])]"
  using assms
  by (auto simp: att_rx_def rx_match_iffs att_mark_def dest!: rx_match_Rep_dest)

lemma att_match_some: "rx_match att_rx (att_mark @ 0x5B # s @ js '']-->'') \<noteq> []"
proof -
  let ?t = "s @ js '']-->''"
  have tw: "takeWhile (\<lambda>_. True) ?t = ?t" by (induction s) simp_all
  have n: "length s \<in> set (rep_lengths False 0 None (length ?t))" by (simp add: rep_lengths_def)
  have lazy: "(s, js '']-->'', []) \<in> set (rx_match (RRep False 0 None (\<lambda>_. True)) ?t)"
    unfolding rx_match.simps tw using n by force
  have close: "(js '']'', js ''-->'', []) \<in> set (rx_match (RLit [0x5D]) (js '']-->''))"
    "(js ''-->'', [], []) \<in> set (rx_match (RLit (js ''-->'')) (js ''-->''))"
    "([], [], []) \<in> set (rx_match REnd [])"
    by (simp_all add: rx_match_iffs)
  have "\<exists>m r c. (m, r, c) \<in> set (rx_match att_rx (att_mark @ 0x5B # ?t))"
    unfolding att_rx_def att_mark_def [symmetric] rx_match_Seq_iff rx_match_Grp_iff
    using lazy close by (fastforce simp: rx_match_Lit_iff)
  then show ?thesis by auto
qed

lemma att_search:
  assumes "\<not> sublist att_mark body"
  shows "\<exists>m. rx_search att_rx (body @ att_mark @ 0x5B # s @ js '']-->'') = Some (body, m, [], [(1, 0x5B # s @ [0x5D])])"
proof -
  obtain q where q: "rx_exec_at att_rx (att_mark @ 0x5B # s @ js '']-->'') = Some q"
    using att_match_some [of s] by (cases "rx_match att_rx (att_mark @ 0x5B # s @ js '']-->'')")
      (auto simp: rx_exec_at_def)
  obtain m r c where "q = (m, r, c)" by (cases q) auto
  then have m: "q = (m, [], [(1, 0x5B # s @ [0x5D])])"
    using att_match_all rx_exec_at_Some q by metis
  have "rx_search att_rx (body @ att_mark @ 0x5B # s @ js '']-->'') = Some (body, q)"
  proof (rule rx_search_behind [OF _ q])
    show "rx_match att_rx (drop i body @ att_mark @ 0x5B # s @ js '']-->'') = []" if "i < length body" for i
      using no_match_before [OF unbordered_marks(3) assms _ that] by (simp add: att_rx_def att_mark_def)
  qed
  then show ?thesis using m by blast
qed

section \<open>Properties\<close>

text \<open>The messages whose parts cannot be mistaken for the marks around them.\<close>

definition block_pairs :: "json list \<Rightarrow> json list \<Rightarrow> (jstr \<times> jstr) list" where
  "block_pairs atts ctxs =
     map (\<lambda>a. (field_text (js ''filename'') a, field_text (js ''text_content'') a))
       (filter (\<lambda>a. truthy (jprop (js ''text_content'') a)) atts) @
     map (\<lambda>c. (field_text (js ''label'') c, field_text (js ''text'') c)) ctxs"

definition composable :: "jstr \<Rightarrow> json list \<Rightarrow> json list \<Rightarrow> bool" where
  "composable text atts ctxs \<longleftrightarrow> trimmed text \<and> \<not> sublist doc_mark text
     \<and> (\<forall>b \<in> set (block_pairs atts ctxs). 0x22 \<notin> set (fst b) \<and> \<not> sublist doc_end (snd b))
     \<and> \<not> sublist att_mark (text @ doc_blocks atts @ ctx_blocks ctxs) \<and> (\<forall>a \<in> set atts. plain a)"

lemma blocks_pairs:
  "doc_blocks atts @ ctx_blocks ctxs = concat (map (\<lambda>b. document_block (fst b) (snd b)) (block_pairs atts ctxs))"
  by (simp add: doc_blocks_def ctx_blocks_def block_pairs_def comp_def)

lemma stringify_items: "stringify (JArr vs) = 0x5B # js_join [0x2C] (map stringify vs) @ [0x5D]"
  by simp

lemma parse_compose:
  assumes "composable text atts ctxs"
  shows "parseMessageContent (compose_content text atts ctxs) = (text, atts)"
proof -
  let ?body = "text @ doc_blocks atts @ ctx_blocks ctxs"
  have mark: "\<not> sublist att_mark ?body" using assms by (simp add: composable_def)
  have "rx_remove_all doc_rx ?body = text @ concat (map (\<lambda>_. [10, 10]) (block_pairs atts ctxs))"
    using remove_blocks [of "text" "block_pairs atts ctxs"] assms by (simp add: composable_def blocks_pairs)
  moreover have "trim (text @ concat (map (\<lambda>_. [10, 10]) (block_pairs atts ctxs))) = trim text"
    by (rule trim_append_ws) (auto simp: is_ws_def)
  moreover have "trim text = text" by (rule trim_trimmed) (use assms in \<open>simp add: composable_def\<close>)
  ultimately have bubble: "trim (rx_remove_all doc_rx ?body) = text" by simp
  show ?thesis
  proof (cases "atts = []")
    case True
    have "rx_search att_rx ?body = None"
      using no_match_at_all [OF mark] by (simp add: att_rx_def att_mark_def)
    then show ?thesis using True bubble by (simp add: parseMessageContent_def compose_content_def att_meta_def)
  next
    case False
    let ?s = "js_join [0x2C] (map stringify atts)"
    have content: "compose_content text atts ctxs = ?body @ att_mark @ 0x5B # ?s @ js '']-->''"
      using False by (simp add: compose_content_def att_meta_def att_mark_def)
    obtain m where m: "rx_search att_rx (?body @ att_mark @ 0x5B # ?s @ js '']-->'') =
        Some (?body, m, [], [(1, 0x5B # ?s @ [0x5D])])"
      using att_search [OF mark] by blast
    have "json_parse (stringify (JArr atts)) = Some (JArr atts)"
      using assms by (intro json_parse_stringify) (simp add: composable_def)
    then show ?thesis
      unfolding parseMessageContent_def content m using bubble by (simp add: json_items_def cap_str_def cap_def)
  qed
qed


definition demo_att :: "jstr \<Rightarrow> jstr \<Rightarrow> json" where
  "demo_att name content = JObj [(js ''url'', JStr (js ''/u/1'')), (js ''filename'', JStr name),
     (js ''size'', JInt 3), (js ''text_content'', JStr content)]"


text \<open>
  Outside these conditions the document text shows in the bubble: a quotation mark in a file
  name, or \<open></document>\<close> in a file. And a text that contains the attachment mark itself
  loses the attachments and the rest of the text.
\<close>

lemma quoted_filename_leaks:
  "fst (parseMessageContent (compose_content (js ''hi'') [demo_att (js ''a'' @ [0x22] @ js ''.txt'') (js ''secret'')] []))
    \<noteq> js ''hi''"
  by code_simp

lemma document_end_leaks:
  "fst (parseMessageContent (compose_content (js ''hi'') [demo_att (js ''a.xml'') (js ''x</document>secret'')] []))
    \<noteq> js ''hi''"
  by code_simp

lemma typed_mark_drops_attachments:
  "parseMessageContent (compose_content (js ''hi'' @ [10, 10] @ js ''<!--rafine-attachments:'' @ [0x5B])
     [JObj []] []) = (js ''hi'', [])"
  by code_simp

end
