(* ===== verification/Chat_Page.thy ===== *)
theory Chat_Page
  imports Panel_Theme Page_Kit Api_Stream Chat_Content
begin

text \<open>
  The chat page, \<open>panel/app/(dash)/chat/page.tsx\<close>, as a state machine. Its state is what the
  component keeps with \<open>useState\<close>; every event handler is one step; an \<open>async\<close> function is
  cut at its \<open>await\<close>s into tasks that wait in the state with the variables they captured,
  and a step may run any waiting task. So all interleavings of requests, stream events, timers
  and clicks are sequences of steps.
\<close>

section \<open>Data\<close>

record provider =
  prov_id :: jstr
  prov_name :: jstr
  auth_mode :: jstr
  has_api_key :: bool
  default_model :: jstr
  prov_active :: bool
  connected :: bool
  own_key :: bool

definition provider_of :: "json \<Rightarrow> provider" where
  "provider_of j = \<lparr>prov_id = str_field (js ''id'') j, prov_name = str_field (js ''name'') j,
     auth_mode = str_field (js ''auth_mode'') j, has_api_key = bool_field (js ''has_api_key'') j,
     default_model = str_field (js ''default_model'') j, prov_active = bool_field (js ''is_active'') j,
     connected = bool_field (js ''connected'') j, own_key = bool_field (js ''own_key'') j\<rparr>"

text \<open>An absent or \<open>null\<close> provider of a conversation is the empty string: both are falsy.\<close>

record conversation =
  conv_id :: jstr
  conv_provider :: jstr
  conv_model :: jstr
  conv_title :: jstr

definition conversation_of :: "json \<Rightarrow> conversation" where
  "conversation_of j = \<lparr>conv_id = str_field (js ''id'') j, conv_provider = str_field (js ''provider_id'') j,
     conv_model = str_field (js ''model'') j, conv_title = str_field (js ''title'') j\<rparr>"

record message =
  msg_id :: jstr
  msg_role :: jstr
  msg_content :: jstr

definition message_of :: "json \<Rightarrow> message" where
  "message_of j = \<lparr>msg_id = str_field (js ''id'') j, msg_role = str_field (js ''role'') j,
     msg_content = str_field (js ''content'') j\<rparr>"

record source =
  src_slug :: jstr
  src_name :: jstr
  src_icon :: jstr

definition usable :: "provider \<Rightarrow> bool" where
  "usable p \<longleftrightarrow> own_key p \<or> (prov_active p \<and>
     ((auth_mode p = js ''api_key'' \<and> has_api_key p) \<or> (auth_mode p = js ''oauth2'' \<and> connected p)))"

text \<open>Keep the current selection if it is still usable, else take the first usable provider.\<close>

definition pick_provider :: "provider list \<Rightarrow> jstr \<Rightarrow> jstr" where
  "pick_provider ps cur = (let us = filter usable ps in
     if cur \<noteq> [] \<and> (\<exists>p \<in> set us. prov_id p = cur) then cur
     else (case us of [] \<Rightarrow> [] | p # _ \<Rightarrow> prov_id p))"

text \<open>The keys of \<open>CONTEXT_SOURCES\<close> with their hints.\<close>

definition CONTEXT_SOURCES :: "(jstr \<times> jstr) list" where
  "CONTEXT_SOURCES = [
     (js ''web'', js ''Sayfa adresi (https://'' @ [0x2026] @ js '')''),
     (js ''sentry'', js ''Sentry issue linki veya id''),
     (js ''github'', js ''GitHub dosya linki veya owner/repo/yol''),
     (js ''slack'', js ''Slack kanal id (Cxxx) veya #kanal'')]"

definition WEB_SOURCE :: source where
  "WEB_SOURCE = \<lparr>src_slug = js ''web'', src_name = js ''Web sayfas'' @ [0x131], src_icon = [0xD83C, 0xDF10]\<rparr>"

definition sources_of :: "json list \<Rightarrow> source list" where
  "sources_of apps = WEB_SOURCE # map (\<lambda>a. \<lparr>src_slug = str_field (js ''slug'') a,
       src_name = str_field (js ''name'') a, src_icon = str_field (js ''icon'') a\<rparr>)
     (filter (\<lambda>a. bool_field (js ''installed'') a \<and> bool_field (js ''enabled'') a
       \<and> str_field (js ''slug'') a \<in> set (map fst CONTEXT_SOURCES)) apps)"

section \<open>State\<close>

text \<open>
  The waiting continuations. The arguments are the captured variables: \<open>OpenMessages\<close> has the
  provider of the conversation as the list showed it at the click, \<open>SendReplies\<close> the calls the
  stream still has to make, whether it breaks behind them, and \<open>hadStreamError\<close>.
\<close>

datatype task =
    LoadProviders
  | LoadConversations
  | LoadSources
  | OpenMessages jstr jstr
  | AddContext jstr jstr
  | AttachCreate jsfile jstr
  | AttachRefresh jsfile jstr
  | AttachUpload jsfile jstr
  | SwitchPatch jstr jstr
  | SwitchRefresh
  | SwitchReload
  | SendCreate jstr jstr jstr \<comment> \<open>provider, title, content\<close>
  | SendRefresh jstr jstr
  | SendStream jstr jstr
  | SendReplies jstr "reply list" bool bool
  | SendReload jstr
  | ToastTimer

record 'w chat = "'w doc" +
  providers :: "provider list"
  conversations :: "conversation list"
  activeId :: "jstr option"
  messages :: "message list"
  selectedProvider :: jstr
  input :: jstr
  sending :: bool
  error :: jstr
  toast :: "jstr option"
  dark :: bool
  search :: jstr
  modelOpen :: bool
  pendingAttachments :: "json list"
  uploadingFile :: bool
  ctxSources :: "source list"
  ctxMenuOpen :: bool
  ctxSource :: jstr
  ctxRef :: jstr
  ctxLoading :: bool
  pendingContexts :: "json list"
  tasks :: "task list"
  route :: "jstr option" \<comment> \<open>where \<open>router.replace\<close> went\<close>

definition spawn :: "task \<Rightarrow> ('w, 'm) chat_scheme \<Rightarrow> ('w, 'm) chat_scheme" where
  "spawn t s = s\<lparr>tasks := tasks s @ [t]\<rparr>"

definition fail_with :: "jstr \<Rightarrow> ('w, 'm) chat_scheme \<Rightarrow> ('w, 'm) chat_scheme" where
  "fail_with m s = s\<lparr>error := m\<rparr>"

definition NO_MODEL :: jstr where
  "NO_MODEL = [0xD6] @ js ''nce bir model se'' @ [0xE7] @ js ''in.''"

section \<open>Handlers\<close>

definition mount :: "'w env \<Rightarrow> ('w, 'm) chat_scheme \<Rightarrow> ('w, 'm) chat_scheme" where
  "mount E s = spawn LoadSources (spawn LoadConversations (spawn LoadProviders (s\<lparr>dark := getDark E s\<rparr>)))"

definition addContext :: "('w, 'm) chat_scheme \<Rightarrow> ('w, 'm) chat_scheme" where
  "addContext s = (if ctxSource s = [] \<or> trim (ctxRef s) = [] then s
     else spawn (AddContext (ctxSource s) (trim (ctxRef s))) (s\<lparr>ctxLoading := True, error := []\<rparr>))"

definition openConversation :: "jstr \<Rightarrow> ('w, 'm) chat_scheme \<Rightarrow> ('w, 'm) chat_scheme" where
  "openConversation i s = spawn (OpenMessages i
       (case List.find (\<lambda>c. conv_id c = i) (conversations s) of None \<Rightarrow> [] | Some c \<Rightarrow> conv_provider c))
     (s\<lparr>activeId := Some i, error := []\<rparr>)"

definition newChat :: "('w, 'm) chat_scheme \<Rightarrow> ('w, 'm) chat_scheme" where
  "newChat s = s\<lparr>activeId := None, messages := [], error := [], pendingAttachments := [],
     pendingContexts := [], ctxSource := [], ctxRef := []\<rparr>"

text \<open>\<open>!convId\<close>: no conversation, or one with an empty id.\<close>

definition active_conv :: "('w, 'm) chat_scheme \<Rightarrow> jstr" where
  "active_conv s = (case activeId s of None \<Rightarrow> [] | Some i \<Rightarrow> i)"

definition attachFile :: "jsfile \<Rightarrow> ('w, 'm) chat_scheme \<Rightarrow> ('w, 'm) chat_scheme" where
  "attachFile f s = (if selectedProvider s = [] then fail_with NO_MODEL s
     else (let s1 = s\<lparr>uploadingFile := True\<rparr> in
       if active_conv s = [] then spawn (AttachCreate f (selectedProvider s)) s1
       else spawn (AttachUpload f (active_conv s)) s1))"

definition switchProvider :: "jstr \<Rightarrow> ('w, 'm) chat_scheme \<Rightarrow> ('w, 'm) chat_scheme" where
  "switchProvider p s = (let s1 = s\<lparr>modelOpen := False, selectedProvider := p\<rparr> in
     if active_conv s = [] then s1 else spawn (SwitchPatch (active_conv s) p) s1)"

definition logout :: "('w, 'm) chat_scheme \<Rightarrow> ('w, 'm) chat_scheme" where
  "logout s = (clearSession s)\<lparr>route := Some (js ''/login'')\<rparr>"

definition nothing_to_send :: "('w, 'm) chat_scheme \<Rightarrow> bool" where
  "nothing_to_send s \<longleftrightarrow> trim (input s) = [] \<and> length (pendingAttachments s) = 0 \<and> length (pendingContexts s) = 0"

text \<open>\<open>(text || atts[0]?.filename || "Yeni sohbet").slice(0, 40)\<close>\<close>

definition send_title :: "jstr \<Rightarrow> json list \<Rightarrow> jstr" where
  "send_title text atts = js_slice 0 40 (if text \<noteq> [] then text
     else (case atts of a # _ \<Rightarrow> (if str_field (js ''filename'') a \<noteq> [] then str_field (js ''filename'') a
         else js ''Yeni sohbet'')
       | [] \<Rightarrow> js ''Yeni sohbet''))"

text \<open>From the first \<open>setMessages\<close> of \<open>send\<close> to the opening of the stream.\<close>

definition tmp_u :: "jstr \<Rightarrow> message" where
  "tmp_u content = \<lparr>msg_id = js ''tmp-u'', msg_role = js ''user'', msg_content = content\<rparr>"

definition tmp_a :: message where
  "tmp_a = \<lparr>msg_id = js ''tmp-a'', msg_role = js ''assistant'', msg_content = []\<rparr>"

definition start_stream :: "jstr \<Rightarrow> jstr \<Rightarrow> ('w, 'm) chat_scheme \<Rightarrow> ('w, 'm) chat_scheme" where
  "start_stream conv content s =
     spawn (SendStream conv content) (s\<lparr>messages := messages s @ [tmp_u content, tmp_a]\<rparr>)"

definition send :: "('w, 'm) chat_scheme \<Rightarrow> ('w, 'm) chat_scheme" where
  "send s = (if nothing_to_send s \<or> sending s then s
     else (let text = trim (input s); atts = pendingAttachments s; ctxs = pendingContexts s;
               content = compose_content text atts ctxs;
               s1 = s\<lparr>input := [], pendingAttachments := [], pendingContexts := [], sending := True, error := []\<rparr>
       in if active_conv s = [] then
            (if selectedProvider s = [] then (fail_with NO_MODEL s1)\<lparr>sending := False\<rparr>
             else spawn (SendCreate (selectedProvider s) (send_title text atts) content) s1)
          else start_stream (active_conv s) content s1))"

section \<open>Requests of the tasks\<close>

definition conv_path :: "jstr \<Rightarrow> jstr" where
  "conv_path i = js ''/api/conversations/'' @ i"

definition create_opts :: "jstr \<Rightarrow> jstr \<Rightarrow> init" where
  "create_opts prov title = send_json (js ''POST'') (JObj [(js ''provider_id'', JStr prov), (js ''title'', JStr title)])"

fun task_call :: "task \<Rightarrow> jstr \<times> init" where
  "task_call LoadProviders = (js ''/api/providers'', no_opts)"
| "task_call LoadSources = (js ''/api/marketplace'', no_opts)"
| "task_call (OpenMessages i p) = (conv_path i @ js ''/messages'', no_opts)"
| "task_call (AddContext source ref) = (js ''/api/tools/context'',
     send_json (js ''POST'') (JObj [(js ''source'', JStr source), (js ''ref'', JStr ref)]))"
| "task_call (AttachCreate f p) = (js ''/api/conversations'', create_opts p (js_slice 0 40 (file_name f)))"
| "task_call (SwitchPatch i p) = (conv_path i, send_json (js ''PATCH'') (JObj [(js ''provider_id'', JStr p)]))"
| "task_call (SendCreate p title c) = (js ''/api/conversations'', create_opts p title)"
| "task_call (SendReload i) = (conv_path i @ js ''/messages'', no_opts)"
| "task_call t = (js ''/api/conversations'', no_opts)"

section \<open>Continuations\<close>

definition end_send :: "('w, 'm) chat_scheme \<Rightarrow> ('w, 'm) chat_scheme" where
  "end_send s = s\<lparr>sending := False\<rparr>"

definition set_conversations :: "jval \<Rightarrow> ('w, 'm) chat_scheme \<Rightarrow> ('w, 'm) chat_scheme" where
  "set_conversations v s = s\<lparr>conversations := map conversation_of (items_of v)\<rparr>"

fun after_error :: "'w env \<Rightarrow> task \<Rightarrow> err \<Rightarrow> ('w, 'm) chat_scheme \<Rightarrow> ('w, 'm) chat_scheme" where
  "after_error E LoadSources e s = s\<lparr>ctxSources := [WEB_SOURCE]\<rparr>"
| "after_error E (AddContext src ref) e s = (fail_with (err_message E e) s)\<lparr>ctxLoading := False\<rparr>"
| "after_error E (AttachCreate f p) e s = (fail_with (err_message E e) s)\<lparr>uploadingFile := False\<rparr>"
| "after_error E (AttachRefresh f i) e s = (fail_with (err_message E e) s)\<lparr>uploadingFile := False\<rparr>"
| "after_error E (AttachUpload f i) e s = (fail_with (err_message E e) s)\<lparr>uploadingFile := False\<rparr>"
| "after_error E (SwitchPatch i p) e s = fail_with (err_message E e) s"
| "after_error E SwitchRefresh e s = fail_with (err_message E e) s"
| "after_error E SwitchReload e s = fail_with (err_message E e) s"
| "after_error E (SendCreate p t c) e s = end_send (fail_with (err_message E e) s)"
| "after_error E (SendRefresh i c) e s = end_send (fail_with (err_message E e) s)"
| "after_error E (SendStream i c) e s = end_send (fail_with (err_message E e) s)"
| "after_error E (SendReplies i rs b h) e s = end_send (fail_with (err_message E e) s)"
| "after_error E (SendReload i) e s = end_send (fail_with (err_message E e) s)"
| "after_error E t e s = s"

text \<open>\<open>convo.id\<close> of a missing object throws.\<close>

fun after_value :: "'w env \<Rightarrow> task \<Rightarrow> jval \<Rightarrow> ('w, 'm) chat_scheme \<Rightarrow> ('w, 'm) chat_scheme" where
  "after_value E LoadProviders v s = (let ps = map provider_of (items_of v) in
     s\<lparr>providers := ps, selectedProvider := pick_provider ps (selectedProvider s)\<rparr>)"
| "after_value E LoadConversations v s = set_conversations v s"
| "after_value E LoadSources v s = s\<lparr>ctxSources := sources_of (items_of v)\<rparr>"
| "after_value E (OpenMessages i p) v s = (let s1 = s\<lparr>messages := map message_of (items_of v)\<rparr> in
     if p \<noteq> [] then s1\<lparr>selectedProvider := p\<rparr> else s1)"
| "after_value E (AddContext src ref) v s =
     s\<lparr>pendingContexts := pendingContexts s @ [value_of v], ctxSource := [], ctxRef := [], ctxLoading := False\<rparr>"
| "after_value E (AttachCreate f p) v s =
     (if nullish v then after_error E (AttachCreate f p) TypeErr s
      else (let i = str_field (js ''id'') (value_of v) in spawn (AttachRefresh f i) (s\<lparr>activeId := Some i\<rparr>)))"
| "after_value E (AttachRefresh f i) v s = spawn (AttachUpload f i) (set_conversations v s)"
| "after_value E (AttachUpload f i) v s =
     s\<lparr>pendingAttachments := pendingAttachments s @ [value_of v], uploadingFile := False\<rparr>"
| "after_value E (SwitchPatch i p) v s = spawn SwitchRefresh s"
| "after_value E SwitchRefresh v s = spawn SwitchReload (set_conversations v s)"
| "after_value E SwitchReload v s = set_conversations v s"
| "after_value E (SendCreate p t c) v s =
     (if nullish v then after_error E (SendCreate p t c) TypeErr s
      else (let i = str_field (js ''id'') (value_of v) in spawn (SendRefresh i c) (s\<lparr>activeId := Some i\<rparr>)))"
| "after_value E (SendRefresh i c) v s = start_stream i c (set_conversations v s)"
| "after_value E (SendReload i) v s =
     end_send (spawn LoadConversations (s\<lparr>messages := map message_of (items_of v)\<rparr>))"
| "after_value E t v s = s"

text \<open>The two callbacks that \<open>send\<close> gives to the stream.\<close>

definition append_delta :: "json \<Rightarrow> message list \<Rightarrow> message list" where
  "append_delta d ms = (if ms \<noteq> [] \<and> msg_role (last ms) = js ''assistant''
     then butlast ms @ [(last ms)\<lparr>msg_content := msg_content (last ms) @ to_str d\<rparr>] else ms)"

fun on_reply :: "reply \<Rightarrow> ('w, 'm) chat_scheme \<Rightarrow> ('w, 'm) chat_scheme" where
  "on_reply (Delta d) s = s\<lparr>messages := append_delta d (messages s)\<rparr>"
| "on_reply (Fault m) s = spawn ToastTimer (s\<lparr>toast := Some (to_str m),
     messages := filter (\<lambda>x. msg_id x \<noteq> js ''tmp-a'') (messages s)\<rparr>)"

definition is_fault :: "reply \<Rightarrow> bool" where
  "is_fault r = (case r of Fault _ \<Rightarrow> True | _ \<Rightarrow> False)"

text \<open>After the stream: reload the messages unless an error was shown.\<close>

definition stream_ended :: "'w env \<Rightarrow> jstr \<Rightarrow> bool \<Rightarrow> bool \<Rightarrow> ('w, 'm) chat_scheme \<Rightarrow> ('w, 'm) chat_scheme" where
  "stream_ended E i breaks had s =
     (if breaks then after_error E (SendReplies i [] breaks had) NetErr s
      else if had then end_send (spawn LoadConversations s)
      else spawn (SendReload i) s)"

fun run_task :: "'w env \<Rightarrow> task \<Rightarrow> ('w, 'm) chat_scheme \<Rightarrow> ('w, 'm) chat_scheme" where
  "run_task E ToastTimer s = s\<lparr>toast := None\<rparr>"
| "run_task E (SendReplies i [] breaks had) s = stream_ended E i breaks had s"
| "run_task E (SendReplies i (r # rs) breaks had) s =
     spawn (SendReplies i rs breaks (had \<or> is_fault r)) (on_reply r s)"
| "run_task E (SendStream i c) s = (case open_stream E i c True s of
     (Inl e, s1) \<Rightarrow> after_error E (SendStream i c) e s1
   | (Inr (rs, breaks), s1) \<Rightarrow> spawn (SendReplies i rs breaks False) s1)"
| "run_task E (AttachUpload f i) s =
     (case uploadFile E (conv_path i @ js ''/upload'') [(js ''file'', FFile f)] True s of
        (Inl e, s1) \<Rightarrow> after_error E (AttachUpload f i) e s1
      | (Inr v, s1) \<Rightarrow> after_value E (AttachUpload f i) v s1)"
| "run_task E t s = (case api E (fst (task_call t)) (snd (task_call t)) True s of
     (Inl e, s1) \<Rightarrow> after_error E t e s1
   | (Inr v, s1) \<Rightarrow> after_value E t v s1)"

section \<open>Events\<close>

text \<open>A pasted item: its kind and type, and the file if there is one.\<close>

type_synonym paste_item = "jstr \<times> jstr \<times> jsfile option"

text \<open>\<open>file.type.split("/")[1] ?? "png"\<close>\<close>

definition paste_ext :: "jstr \<Rightarrow> jstr" where
  "paste_ext ty = (let parts = js_split (js ''/'') ty in
     if length parts > 1 then parts ! 1 else js ''png'')"

definition pasted_name :: "int \<Rightarrow> jsfile \<Rightarrow> jsfile" where
  "pasted_name now f = f\<lparr>file_name := js ''screenshot-'' @ dec_int now @ js ''.'' @ paste_ext (file_type f)\<rparr>"

definition paste :: "int \<Rightarrow> paste_item list \<Rightarrow> ('w, 'm) chat_scheme \<Rightarrow> ('w, 'm) chat_scheme" where
  "paste now its s =
     (case List.find (\<lambda>(kind, ty, _). kind = js ''file'' \<and> starts_with ty (js ''image/'')) its of
        Some (_, _, Some f) \<Rightarrow> attachFile (pasted_name now f) s
      | _ \<Rightarrow> s)"

datatype chat_event =
    Mount
  | Focus
  | SearchInput jstr
  | TextInput jstr
  | DarkClick
  | ModelToggle
  | ModelOutside
  | ModelPick jstr
  | OpenClick jstr
  | NewClick
  | LogoutClick
  | ToastClose
  | ChipRemove nat
  | ContextRemove nat
  | CtxToggle
  | CtxOutside
  | CtxPick jstr
  | CtxCancel
  | CtxInput jstr
  | CtxEnter
  | CtxAdd
  | FilePick "jsfile option"
  | Paste int "paste_item list"
  | EnterKey bool \<comment> \<open>with Shift\<close>
  | SendClick
  | Run nat

fun chat_step :: "'w env \<Rightarrow> chat_event \<Rightarrow> ('w, 'm) chat_scheme \<Rightarrow> ('w, 'm) chat_scheme" where
  "chat_step E Mount s = mount E s"
| "chat_step E Focus s = spawn LoadProviders s"
| "chat_step E (SearchInput t) s = s\<lparr>search := t\<rparr>"
| "chat_step E (TextInput t) s = s\<lparr>input := t\<rparr>"
| "chat_step E DarkClick s = (let s1 = toggleDark s in s1\<lparr>dark := html_dark s1\<rparr>)"
| "chat_step E ModelToggle s = s\<lparr>modelOpen := \<not> modelOpen s\<rparr>"
| "chat_step E ModelOutside s = s\<lparr>modelOpen := False\<rparr>"
| "chat_step E (ModelPick p) s = switchProvider p s"
| "chat_step E (OpenClick i) s = openConversation i s"
| "chat_step E NewClick s = newChat s"
| "chat_step E LogoutClick s = logout s"
| "chat_step E ToastClose s = s\<lparr>toast := None\<rparr>"
| "chat_step E (ChipRemove i) s = s\<lparr>pendingAttachments := remove_at i (pendingAttachments s)\<rparr>"
| "chat_step E (ContextRemove i) s = s\<lparr>pendingContexts := remove_at i (pendingContexts s)\<rparr>"
| "chat_step E CtxToggle s = (if sending s then s else s\<lparr>ctxMenuOpen := \<not> ctxMenuOpen s\<rparr>)"
| "chat_step E CtxOutside s = s\<lparr>ctxMenuOpen := False\<rparr>"
| "chat_step E (CtxPick t) s = s\<lparr>ctxSource := t, ctxRef := [], ctxMenuOpen := False\<rparr>"
| "chat_step E CtxCancel s = s\<lparr>ctxSource := [], ctxRef := []\<rparr>"
| "chat_step E (CtxInput t) s = s\<lparr>ctxRef := t\<rparr>"
| "chat_step E CtxEnter s = addContext s"
| "chat_step E CtxAdd s = (if ctxLoading s \<or> trim (ctxRef s) = [] then s else addContext s)"
| "chat_step E (FilePick f) s = (case f of None \<Rightarrow> s | Some f \<Rightarrow> attachFile f s)"
| "chat_step E (Paste now its) s = paste now its s"
| "chat_step E (EnterKey shift) s = (if shift \<or> sending s then s else send s)"
| "chat_step E SendClick s = (if sending s \<or> nothing_to_send s then s else send s)"
| "chat_step E (Run i) s = (if i < length (tasks s)
     then run_task E (tasks s ! i) (s\<lparr>tasks := remove_at i (tasks s)\<rparr>) else s)"

end
