(* ===== verification/Chat_View.thy ===== *)
theory Chat_View
  imports Chat_Page Message_Content
begin

text \<open>
  What the chat page shows for a state: the returned elements of
  \<open>panel/app/(dash)/chat/page.tsx\<close> as data, that is texts, links, marks and which
  controls are disabled. Styling is left out.
\<close>

section \<open>Derived values\<close>

definition activeConvo :: "('w, 'm) chat_scheme \<Rightarrow> conversation option" where
  "activeConvo s = List.find (\<lambda>c. Some (conv_id c) = activeId s) (conversations s)"

definition currentProvider :: "('w, 'm) chat_scheme \<Rightarrow> provider option" where
  "currentProvider s = List.find (\<lambda>p. prov_id p = selectedProvider s) (providers s)"

definition filteredConvos :: "'w env \<Rightarrow> ('w, 'm) chat_scheme \<Rightarrow> conversation list" where
  "filteredConvos E s = filter (\<lambda>c. search s = [] \<or>
     js_includes (to_lower E (conv_title c)) (to_lower E (search s))) (conversations s)"

section \<open>The sidebar\<close>

record side_item =
  item_id :: jstr
  item_title :: jstr
  item_model :: jstr
  item_active :: bool

record sidebar =
  home_link :: jstr
  search_text :: jstr
  empty_note :: "jstr option"
  side_items :: "side_item list"
  connections_link :: bool
  dark_icon :: jstr

definition sidebar_view :: "'w env \<Rightarrow> ('w, 'm) chat_scheme \<Rightarrow> sidebar" where
  "sidebar_view E s =
     \<lparr>home_link = (if is_admin E s then js ''/dashboard'' else js ''/chat''),
      search_text = search s,
      empty_note = (if length (filteredConvos E s) = 0
        then Some (if search s \<noteq> [] then js ''Bulunamad'' @ [0x131] @ js ''.''
          else js ''Hen'' @ [0xFC] @ js ''z sohbet yok.'') else None),
      side_items = map (\<lambda>c. \<lparr>item_id = conv_id c, item_title = conv_title c, item_model = conv_model c,
        item_active = (activeId s = Some (conv_id c))\<rparr>) (filteredConvos E s),
      connections_link = (\<not> is_admin E s),
      dark_icon = (if dark s then js ''sun'' else js ''moon'')\<rparr>"

section \<open>The model selector\<close>

record model_item =
  mod_id :: jstr
  mod_name :: jstr
  mod_default :: jstr
  mod_checked :: bool

datatype model_box =
    NoUsableModel
  | ModelBox jstr "jstr option" "model_item list option" \<comment> \<open>label, model, the open list\<close>

definition model_view :: "('w, 'm) chat_scheme \<Rightarrow> model_box" where
  "model_view s = (let us = filter usable (providers s) in
     if length us = 0 then NoUsableModel
     else ModelBox (case currentProvider s of None \<Rightarrow> js ''Model se'' @ [0xE7] | Some p \<Rightarrow> prov_name p)
       (map_option default_model (currentProvider s))
       (if modelOpen s then Some (map (\<lambda>p. \<lparr>mod_id = prov_id p, mod_name = prov_name p,
          mod_default = default_model p, mod_checked = (selectedProvider s = prov_id p)\<rparr>) us) else None))"

section \<open>The messages\<close>

text \<open>
  An attachment is an image or a download link. A missing \<open>content_type\<close> throws while
  rendering, which React answers by unmounting the page.
\<close>

datatype chip = ImageChip jstr jstr | FileChip jstr jstr \<comment> \<open>address, name\<close>

definition chip_of :: "json \<Rightarrow> err + chip" where
  "chip_of a = (case jprop (js ''content_type'') a of
       Some (JStr t) \<Rightarrow> Inr ((if starts_with t (js ''image/'') then ImageChip else FileChip)
         (str_field (js ''url'') a) (str_field (js ''filename'') a))
     | _ \<Rightarrow> Inl TypeErr)"

datatype shown = Plain jstr | Rendered "rblock list" | Blank

record bubble =
  bub_key :: jstr
  bub_mine :: bool
  bub_text :: shown
  bub_atts :: "(err + chip) list"
  bub_caret :: bool

definition bubble_of :: "bool \<Rightarrow> bool \<Rightarrow> nat \<Rightarrow> message \<Rightarrow> bubble" where
  "bubble_of busy is_last i m = (let (text, atts) = parseMessageContent (msg_content m);
       mine = (msg_role m = js ''user'');
       streaming = (busy \<and> is_last \<and> msg_role m = js ''assistant'')
     in \<lparr>bub_key = msg_id m @ dec_nat i, bub_mine = mine,
         bub_text = (if text = [] then Blank else if mine then Plain text else Rendered (message_content text)),
         bub_atts = map chip_of atts, bub_caret = streaming\<rparr>)"

text \<open>Nothing but the welcome text without messages and without a conversation.\<close>

definition bubbles :: "('w, 'm) chat_scheme \<Rightarrow> bubble list option" where
  "bubbles s = (if length (messages s) = 0 \<and> active_conv s = [] then None
     else Some (map (\<lambda>(i, m). bubble_of (sending s) (Suc i = length (messages s)) i m) (enumerate 0 (messages s))))"

section \<open>The composer\<close>

text \<open>The chip of a pending attachment: its icon, its name, and whether its text was read.\<close>

datatype icon = Picture | Pdf | Clip

definition pending_chip :: "json \<Rightarrow> icon \<times> jstr \<times> bool" where
  "pending_chip a = (let t = str_field (js ''content_type'') a in
     (if starts_with t (js ''image/'') then Picture else if t = js ''application/pdf'' then Pdf else Clip,
      str_field (js ''filename'') a, truthy (jprop (js ''text_content'') a)))"

record context_row =
  row_source :: "source option"
  row_hint :: "jstr option"
  row_text :: jstr
  row_busy :: bool
  row_disabled :: bool

record composer =
  error_line :: "jstr option"
  toast_line :: "jstr option"
  att_chips :: "(icon \<times> jstr \<times> bool) list"
  ctx_chips :: "jstr list"
  ctx_row :: "context_row option"
  ctx_button :: "bool option" \<comment> \<open>shown at all, and then disabled\<close>
  ctx_menu :: "source list option"
  attach_busy :: bool
  attach_disabled :: bool
  hint_text :: jstr
  draft :: jstr
  send_label :: jstr
  send_disabled :: bool

definition composer_view :: "settings \<Rightarrow> ('w, 'm) chat_scheme \<Rightarrow> composer" where
  "composer_view st s =
     \<lparr>error_line = (if error s \<noteq> [] then Some (error s) else None),
      toast_line = (case toast s of None \<Rightarrow> None | Some t \<Rightarrow> if t = [] then None else Some t),
      att_chips = map pending_chip (pendingAttachments s),
      ctx_chips = map (field_text (js ''label'')) (pendingContexts s),
      ctx_row = (if ctxSource s \<noteq> [] then
          Some \<lparr>row_source = List.find (\<lambda>t. src_slug t = ctxSource s) (ctxSources s),
            row_hint = map_of CONTEXT_SOURCES (ctxSource s), row_text = ctxRef s, row_busy = ctxLoading s,
            row_disabled = (ctxLoading s \<or> trim (ctxRef s) = [])\<rparr>
        else None),
      ctx_button = (if length (ctxSources s) > 0 then Some (sending s) else None),
      ctx_menu = (if length (ctxSources s) > 0 \<and> ctxMenuOpen s then Some (ctxSources s) else None),
      attach_busy = uploadingFile s,
      attach_disabled = (uploadingFile s \<or> sending s),
      hint_text = setting (js ''chat_placeholder'') st,
      draft = input s,
      send_label = (if sending s then [0x2026] else setting (js ''chat_send_label'') st),
      send_disabled = (sending s \<or> nothing_to_send s)\<rparr>"

end
