(* ===== verification/Chat_Facts.thy ===== *)
theory Chat_Facts
  imports Chat_View Stream_Facts
begin

text \<open>
  Properties of the chat page over all interleavings of its events and tasks: the flag
  \<open>sending\<close> and the one task in flight, the end of every send, what a streamed answer and a
  sent message look like, which model is selected.
\<close>

section \<open>Reachable states\<close>

definition chat_init :: "('w, unit) doc_scheme \<Rightarrow> 'w chat" where
  "chat_init d = doc.extend d \<lparr>providers = [], conversations = [], activeId = None, messages = [],
     selectedProvider = [], input = [], sending = False, error = [], toast = None, dark = False,
     search = [], modelOpen = False, pendingAttachments = [], uploadingFile = False, ctxSources = [],
     ctxMenuOpen = False, ctxSource = [], ctxRef = [], ctxLoading = False, pendingContexts = [],
     tasks = [], route = None\<rparr>"

inductive reachable :: "'w env \<Rightarrow> 'w chat \<Rightarrow> bool" for E where
  start: "reachable E (chat_init d)"
| step: "reachable E s \<Longrightarrow> reachable E (chat_step E ev s)"

lemma reachable_run: "reachable E s \<Longrightarrow> reachable E (fold (chat_step E) evs s)"
  by (induction evs arbitrary: s) (auto intro: reachable.step)

section \<open>The tasks of a send\<close>

fun is_send :: "task \<Rightarrow> bool" where
  "is_send (SendCreate p t c) = True"
| "is_send (SendRefresh i c) = True"
| "is_send (SendStream i c) = True"
| "is_send (SendReplies i rs b h) = True"
| "is_send (SendReload i) = True"
| "is_send t = False"

definition send_tasks :: "('w, 'm) chat_scheme \<Rightarrow> task list" where
  "send_tasks s = filter is_send (tasks s)"

definition flag_ok :: "('w, 'm) chat_scheme \<Rightarrow> bool" where
  "flag_ok s \<longleftrightarrow> length (send_tasks s) = (if sending s then 1 else 0)"

text \<open>The same while a task is being run and no longer in the list.\<close>

definition flag_ok_with :: "task \<Rightarrow> ('w, 'm) chat_scheme \<Rightarrow> bool" where
  "flag_ok_with t s \<longleftrightarrow> length (send_tasks s) + (if is_send t then 1 else 0) = (if sending s then 1 else 0)"

lemmas handler_defs = spawn_def fail_with_def end_send_def set_conversations_def start_stream_def Let_def

lemma spawn_fields [simp]:
  "sending (spawn t s) = sending s" "send_tasks (spawn t s) = send_tasks s @ (if is_send t then [t] else [])"
  by (simp_all add: spawn_def send_tasks_def)

lemma send_tasks_update [simp]:
  "send_tasks (s\<lparr>tasks := ts\<rparr>) = filter is_send ts"
  by (simp add: send_tasks_def)

lemma touches_same:
  assumes "touches_net m" and "m s = (r, s1)"
  obtains a b c where "s1 = (s :: ('w, 'm) chat_scheme)\<lparr>storage := a, world := b, traffic := c\<rparr>"
  using assms by (metis touches_net_def snd_conv)

lemma after_error_flag: "flag_ok_with t s \<Longrightarrow> flag_ok (after_error E t e s)"
  by (cases t) (auto simp: flag_ok_with_def flag_ok_def handler_defs send_tasks_def split: if_splits)

lemma after_value_flag: "flag_ok_with t s \<Longrightarrow> t \<noteq> ToastTimer \<Longrightarrow> (\<And>i rs b h. t \<noteq> SendReplies i rs b h) \<Longrightarrow>
    (\<And>i c. t \<noteq> SendStream i c) \<Longrightarrow> flag_ok (after_value E t v s)"
  by (cases t) (auto simp: flag_ok_with_def flag_ok_def handler_defs send_tasks_def split: if_splits)

lemma on_reply_fields: "sending (on_reply r s) = sending s" "send_tasks (on_reply r s) = send_tasks s"
  by (cases r; simp add: handler_defs send_tasks_def)+

lemma stream_ended_flag: "flag_ok_with (SendReplies i rs b h) s \<Longrightarrow> flag_ok (stream_ended E i breaks had s)"
  by (auto simp: flag_ok_with_def flag_ok_def stream_ended_def handler_defs send_tasks_def split: if_splits)

lemma flag_ok_with_net: "flag_ok_with t (s\<lparr>storage := a, world := b, traffic := c\<rparr>) = flag_ok_with t s"
  by (simp add: flag_ok_with_def send_tasks_def)

lemma touches_open_stream: "touches_net (open_stream E i c h)"
  unfolding open_stream_def
  by (intro touches_intros) (auto intro!: touches_intros split: option.split prod.split)

lemma api_task_flag:
  assumes "flag_ok_with t s" and "t \<noteq> ToastTimer" and "\<And>i rs b h. t \<noteq> SendReplies i rs b h"
    and "\<And>i c. t \<noteq> SendStream i c"
  shows "flag_ok (case api E p opts True s of (Inl e, s1) \<Rightarrow> after_error E t e s1 | (Inr v, s1) \<Rightarrow> after_value E t v s1)"
proof -
  obtain r s1 where r: "api E p opts True s = (r, s1)" by fastforce
  from touches_same [OF api.touches r] have s1: "flag_ok_with t s1"
    using assms(1) flag_ok_with_net by metis
  then show ?thesis
    using after_error_flag [OF s1] after_value_flag [OF s1] assms by (auto simp: r split: sum.split)
qed

lemma run_task_flag: "flag_ok_with t s \<Longrightarrow> flag_ok (run_task E t s)"
proof (induction E t s rule: run_task.induct)
  case (1 E s)
  then show ?case by (simp add: flag_ok_with_def flag_ok_def send_tasks_def)
next
  case (2 E i breaks had s)
  then show ?case by (simp add: stream_ended_flag)
next
  case (3 E i r rs breaks had s)
  then show ?case by (simp add: flag_ok_with_def flag_ok_def on_reply_fields split: if_splits)
next
  case (4 E i c s)
  obtain r s1 where r: "open_stream E i c True s = (r, s1)" by fastforce
  from touches_same [OF touches_open_stream r] have s1: "flag_ok_with (SendStream i c) s1"
    using 4 flag_ok_with_net by metis
  then show ?case
    using after_error_flag [OF s1, of E]
    by (cases r) (auto simp: r flag_ok_with_def flag_ok_def simp del: after_error.simps split: if_splits)
next
  case (5 E f i s)
  obtain r s1 where r: "uploadFile E (conv_path i @ js ''/upload'') [(js ''file'', FFile f)] True s = (r, s1)"
    by fastforce
  from touches_same [OF upload.touches r] have s1: "flag_ok_with (AttachUpload f i) s1"
    using 5 flag_ok_with_net by metis
  have "flag_ok (case r of Inl e \<Rightarrow> after_error E (AttachUpload f i) e s1
      | Inr v \<Rightarrow> after_value E (AttachUpload f i) v s1)"
    using after_error_flag [OF s1] after_value_flag [OF s1]
    by (cases r) (simp_all del: after_error.simps after_value.simps)
  then show ?case unfolding run_task.simps r prod.case .
qed (unfold run_task.simps, (rule api_task_flag, assumption, simp, simp, simp)+)

lemma remove_at_filter:
  "i < length xs \<Longrightarrow> length (filter P (remove_at i xs)) + (if P (xs ! i) then 1 else 0) = length (filter P xs)"
proof -
  assume "i < length xs"
  then have "xs = take i xs @ xs ! i # drop (Suc i) xs" by (rule id_take_nth_drop)
  then have "length (filter P xs) = length (filter P (take i xs @ xs ! i # drop (Suc i) xs))" by simp
  then show ?thesis by (simp add: remove_at_def)
qed

lemma send_flag: "flag_ok s \<Longrightarrow> flag_ok (send s)"
  by (auto simp: send_def flag_ok_def handler_defs send_tasks_def)

lemma chat_step_flag: "flag_ok s \<Longrightarrow> flag_ok (chat_step E ev s)"
proof (cases ev)
  case (Run i)
  assume ok: "flag_ok s"
  show ?thesis
  proof (cases "i < length (tasks s)")
    case True
    then have "flag_ok_with (tasks s ! i) (s\<lparr>tasks := remove_at i (tasks s)\<rparr>)"
      using ok remove_at_filter [OF True, of is_send] by (simp add: flag_ok_with_def flag_ok_def send_tasks_def)
    then show ?thesis using True Run by (simp add: run_task_flag)
  qed (use ok Run in simp)
qed (auto simp: flag_ok_def handler_defs send_tasks_def mount_def switchProvider_def openConversation_def newChat_def
    logout_def clearSession_def toggleDark_def set_item_def addContext_def attachFile_def paste_def
    dest: send_flag [unfolded flag_ok_def send_tasks_def] split: option.split)

lemma chat_init_fields: "tasks (chat_init d) = []" "\<not> sending (chat_init d)"
  by (simp_all add: chat_init_def doc.defs)

lemma reachable_flag: "reachable E s \<Longrightarrow> flag_ok s"
proof (induction rule: reachable.induct)
  case (start d)
  show ?case by (simp add: flag_ok_def send_tasks_def chat_init_fields)
qed (rule chat_step_flag)

section \<open>A send ends\<close>

text \<open>Running the task of the send in flight, whatever else waits.\<close>

definition drive :: "'w env \<Rightarrow> ('w, 'm) chat_scheme \<Rightarrow> ('w, 'm) chat_scheme" where
  "drive E s = chat_step E (Run (length (takeWhile (\<lambda>t. \<not> is_send t) (tasks s)))) s"

definition can_finish :: "'w env \<Rightarrow> ('w, 'm) chat_scheme \<Rightarrow> bool" where
  "can_finish E s \<longleftrightarrow> (\<exists>n. \<not> sending ((drive E ^^ n) s))"

lemma send_tasks_is_send: "send_tasks s = t # ts \<Longrightarrow> is_send t"
  unfolding send_tasks_def by (metis filter_eq_ConsD)

lemma can_finish_now: "\<not> sending s \<Longrightarrow> can_finish E s"
  unfolding can_finish_def by (intro exI [of _ 0]) simp

lemma can_finish_next: "can_finish E (drive E s) \<Longrightarrow> can_finish E s"
  unfolding can_finish_def by (metis funpow_Suc_right comp_apply)

lemma can_finish_stop: "\<not> sending (drive E s) \<Longrightarrow> can_finish E s"
  by (rule can_finish_next, rule can_finish_now)

lemma first_send_index: "\<exists>x \<in> set xs. P x \<Longrightarrow> length (takeWhile (\<lambda>x. \<not> P x) xs) < length xs"
  by (induction xs) auto

lemma drive_only:
  assumes "send_tasks s = [t]"
  obtains ts where "drive E s = run_task E t (s\<lparr>tasks := ts\<rparr>)" "filter is_send ts = []"
proof -
  let ?i = "length (takeWhile (\<lambda>t. \<not> is_send t) (tasks s))"
  have "t \<in> set (filter is_send (tasks s))" using assms by (simp add: send_tasks_def)
  then have "\<exists>x \<in> set (tasks s). is_send x" by auto
  then have i: "?i < length (tasks s)" by (rule first_send_index)
  then have p: "is_send (tasks s ! ?i)" using nth_length_takeWhile [of "\<lambda>t. \<not> is_send t" "tasks s"] by simp
  then have "tasks s ! ?i \<in> set (send_tasks s)" using i by (simp add: send_tasks_def)
  then have t: "tasks s ! ?i = t" using assms by simp
  have "filter is_send (remove_at ?i (tasks s)) = []"
    using remove_at_filter [OF i, of is_send] p assms by (simp add: send_tasks_def)
  then show ?thesis using that [of "remove_at ?i (tasks s)"] i t by (simp add: drive_def)
qed

lemma stream_ended_cases:
  assumes "filter is_send (tasks s) = []"
  shows "\<not> sending (stream_ended E i breaks had s) \<or> send_tasks (stream_ended E i breaks had s) = [SendReload i]"
  using assms by (simp add: stream_ended_def handler_defs send_tasks_def)

text \<open>One API task of a send: an error ends the send, a value leads to the next task.\<close>

fun calls_api :: "task \<Rightarrow> bool" where
  "calls_api (SendReplies i rs b h) = False"
| "calls_api (SendStream i c) = False"
| "calls_api (AttachUpload f i) = False"
| "calls_api ToastTimer = False"
| "calls_api t = True"

lemma run_task_api: "calls_api t \<Longrightarrow> run_task E t s = (case api E (fst (task_call t)) (snd (task_call t)) True s of
     (Inl e, s1) \<Rightarrow> after_error E t e s1 | (Inr v, s1) \<Rightarrow> after_value E t v s1)"
  by (cases t) (simp_all only: run_task.simps calls_api.simps)

lemma drive_api:
  assumes "send_tasks s = [t]" and "calls_api t"
  obtains (failed) e s1 where "drive E s = after_error E t e s1"
  | (answered) v s1 where "drive E s = after_value E t v s1" "send_tasks s1 = []"
proof -
  obtain ts where ts: "drive E s = run_task E t (s\<lparr>tasks := ts\<rparr>)" "filter is_send ts = []"
    using drive_only [OF assms(1)] .
  obtain r s1 where r: "api E (fst (task_call t)) (snd (task_call t)) True (s\<lparr>tasks := ts\<rparr>) = (r, s1)" by fastforce
  obtain a b c where "s1 = s\<lparr>tasks := ts\<rparr>\<lparr>storage := a, world := b, traffic := c\<rparr>"
    using touches_same [OF api.touches r] .
  then have s1: "send_tasks s1 = []" using ts(2) by (simp add: send_tasks_def)
  have d: "drive E s = (case r of Inl e \<Rightarrow> after_error E t e s1 | Inr v \<Rightarrow> after_value E t v s1)"
    unfolding ts(1) run_task_api [OF assms(2)] r by simp
  show ?thesis
  proof (cases r)
    case (Inl e)
    then show ?thesis using d failed by simp
  next
    case (Inr v)
    then show ?thesis using d s1 answered by simp
  qed
qed

lemma send_error_stops: "is_send t \<Longrightarrow> \<not> sending (after_error E t e s)"
  by (cases t) (simp_all add: end_send_def)

lemma finish_reload:
  assumes "send_tasks s = [SendReload i]"
  shows "can_finish E s"
proof -
  have "calls_api (SendReload i)" by simp
  from assms this show ?thesis
  proof (cases rule: drive_api [where E = E])
    case (failed e s1)
    then show ?thesis by - (rule can_finish_stop, simp add: end_send_def)
  next
    case (answered v s1)
    then show ?thesis by - (rule can_finish_stop, simp add: end_send_def)
  qed
qed

lemma finish_ended: "filter is_send (tasks s) = [] \<Longrightarrow> can_finish E (stream_ended E i breaks had s)"
  using stream_ended_cases finish_reload can_finish_now by blast

lemma finish_replies: "send_tasks s = [SendReplies i rs breaks had] \<Longrightarrow> can_finish E s"
proof (induction rs arbitrary: s had)
  case Nil
  obtain ts where "drive E s = run_task E (SendReplies i [] breaks had) (s\<lparr>tasks := ts\<rparr>)"
    and ts: "filter is_send ts = []"
    using drive_only [OF Nil] .
  then have d: "drive E s = stream_ended E i breaks had (s\<lparr>tasks := ts\<rparr>)" by simp
  show ?case by (rule can_finish_next, unfold d, rule finish_ended, simp add: ts)
next
  case (Cons r rs)
  obtain ts where "drive E s = run_task E (SendReplies i (r # rs) breaks had) (s\<lparr>tasks := ts\<rparr>)"
    and ts: "filter is_send ts = []"
    using drive_only [OF Cons.prems] .
  then have "drive E s = spawn (SendReplies i rs breaks (had \<or> is_fault r)) (on_reply r (s\<lparr>tasks := ts\<rparr>))"
    by simp
  then have "send_tasks (drive E s) = [SendReplies i rs breaks (had \<or> is_fault r)]"
    using ts by (simp add: on_reply_fields)
  from Cons.IH [OF this] show ?case by (rule can_finish_next)
qed

lemma finish_stream:
  assumes "send_tasks s = [SendStream i c]"
  shows "can_finish E s"
proof -
  obtain ts where ts: "drive E s = run_task E (SendStream i c) (s\<lparr>tasks := ts\<rparr>)" "filter is_send ts = []"
    using drive_only [OF assms] .
  obtain r s1 where r: "open_stream E i c True (s\<lparr>tasks := ts\<rparr>) = (r, s1)" by fastforce
  obtain a b d where "s1 = s\<lparr>tasks := ts\<rparr>\<lparr>storage := a, world := b, traffic := d\<rparr>"
    using touches_same [OF touches_open_stream r] .
  then have s1: "send_tasks s1 = []" using ts(2) by (simp add: send_tasks_def)
  show ?thesis
  proof (cases r)
    case (Inl e)
    then have "drive E s = after_error E (SendStream i c) e s1" unfolding ts(1) by (simp add: r)
    then show ?thesis by - (rule can_finish_stop, simp add: end_send_def)
  next
    case (Inr p)
    obtain rs b where p: "p = (rs, b)" by fastforce
    have "drive E s = spawn (SendReplies i rs b False) s1" unfolding ts(1) by (simp add: r Inr p)
    then have "send_tasks (drive E s) = [SendReplies i rs b False]" using s1 by simp
    from finish_replies [OF this] show ?thesis by (rule can_finish_next)
  qed
qed

lemma finish_refresh:
  assumes "send_tasks s = [SendRefresh i c]"
  shows "can_finish E s"
proof -
  have "calls_api (SendRefresh i c)" by simp
  from assms this show ?thesis
  proof (cases rule: drive_api [where E = E])
    case (failed e s1)
    then show ?thesis by - (rule can_finish_stop, simp add: end_send_def)
  next
    case (answered v s1)
    then have "send_tasks (drive E s) = [SendStream i c]" by (simp add: handler_defs send_tasks_def)
    from finish_stream [OF this] show ?thesis by (rule can_finish_next)
  qed
qed

lemma finish_create:
  assumes "send_tasks s = [SendCreate p t c]"
  shows "can_finish E s"
proof -
  have "calls_api (SendCreate p t c)" by simp
  from assms this show ?thesis
  proof (cases rule: drive_api [where E = E])
    case (failed e s1)
    then show ?thesis by - (rule can_finish_stop, simp add: end_send_def)
  next
    case (answered v s1)
    show ?thesis
    proof (cases "nullish v")
      case True
      then show ?thesis using answered by - (rule can_finish_stop, simp add: end_send_def)
    next
      case False
      then have "send_tasks (drive E s) = [SendRefresh (str_field (js ''id'') (value_of v)) c]"
        using answered by (simp add: handler_defs send_tasks_def)
      from finish_refresh [OF this] show ?thesis by (rule can_finish_next)
    qed
  qed
qed

lemma flag_finish:
  assumes "flag_ok s"
  shows "can_finish E s"
proof (cases "sending s")
  case True
  then obtain t where t: "send_tasks s = [t]"
    using assms by (auto simp: flag_ok_def length_Suc_conv)
  from send_tasks_is_send [OF t] show ?thesis
    using t finish_create finish_refresh finish_stream finish_replies finish_reload by (cases t) auto
qed (rule can_finish_now)

section \<open>What a streamed answer looks like\<close>

lemma fold_on_reply:
  "messages s = ms @ [a] \<Longrightarrow> msg_role a = js ''assistant'' \<Longrightarrow>
    messages (fold on_reply (map Delta ds) s) = ms @ [a\<lparr>msg_content := msg_content a @ concat (map to_str ds)\<rparr>]"
proof (induction ds arbitrary: s a)
  case (Cons d ds)
  let ?a = "a\<lparr>msg_content := msg_content a @ to_str d\<rparr>"
  have "messages (on_reply (Delta d) s) = ms @ [?a]"
    using Cons.prems by (simp add: append_delta_def)
  from Cons.IH [OF this] Cons.prems show ?case by simp
qed simp

section \<open>Properties\<close>

text \<open>C4. In every reachable state the flag \<open>sending\<close> is on exactly when a send is in flight, and
  never more than one is: no interleaving of clicks, keys, requests, stream events and errors
  starts a second send or leaves the flag on without one.\<close>

theorem one_send_in_flight:
  "reachable E s \<Longrightarrow> length (filter is_send (tasks s)) = (if sending s then 1 else 0)"
  using reachable_flag [of E s] by (simp add: flag_ok_def send_tasks_def)

definition demo_doc :: "nat doc" where
  "demo_doc = \<lparr>storage = Map.empty, world = 0, traffic = [], html_dark = False, data_theme = None\<rparr>"

definition demo_sent :: "nat chat" where
  "demo_sent = fold (chat_step (demo_env [])) [OpenClick (js ''c''), TextInput (js ''hi''), EnterKey False, SendClick]
     (chat_init demo_doc)"

lemma demo_sent_fields: "sending demo_sent" "tasks demo_sent = [OpenMessages (js ''c'') [], SendStream (js ''c'') (js ''hi'')]"
  by code_simp+

lemma demo_sent_reachable: "reachable (demo_env []) demo_sent"
  unfolding demo_sent_def by (intro reachable_run reachable.start)

theorem one_send_in_flight_witness:
  "length (filter is_send (tasks demo_sent)) = 1 \<and> sending demo_sent"
  using one_send_in_flight [OF demo_sent_reachable] demo_sent_fields by simp

text \<open>C5. Every send ends: from any reachable state, whatever the server answers to the requests
  of the send, running its tasks one after the other turns \<open>sending\<close> off after finitely many
  steps.\<close>

theorem every_send_ends:
  "reachable E s \<Longrightarrow> \<exists>n. \<not> sending ((drive E ^^ n) s)"
  using flag_finish [OF reachable_flag] by (simp add: can_finish_def)

theorem every_send_ends_witness:
  "sending demo_sent \<and> (\<exists>n. \<not> sending ((drive (demo_env []) ^^ n) demo_sent))"
  using every_send_ends [OF demo_sent_reachable] demo_sent_fields by simp

text \<open>C8. A streamed answer is shown whole: when the server streams the pieces \<open>ts\<close>, in any
  chunks, the calls of the callbacks turn the empty assistant bubble into the concatenation of
  the pieces and leave the other messages alone.\<close>

theorem streamed_answer_is_shown:
  assumes "concat cs = utf8_encode (wire (map (Pair False) ts)) @ rest" and "\<forall>t \<in> set ts. t \<noteq> []"
    and "messages s = ms @ [a]" and "msg_role a = js ''assistant''"
  shows "messages (fold on_reply (fst (stream_calls True cs)) s) = ms @ [a\<lparr>msg_content := msg_content a @ concat ts\<rparr>]"
proof -
  have "stream_calls True cs = (map call_of (map (Pair False) ts), True)"
    by (rule wire_delivered [OF assms(1)]) (use assms(2) in auto)
  then have "fst (stream_calls True cs) = map Delta (map JStr ts)" by (simp add: call_of_def comp_def)
  then show ?thesis using fold_on_reply [OF assms(3,4), of "map JStr ts"] by (simp add: comp_def)
qed

theorem streamed_answer_witness:
  "messages (fold on_reply (fst (stream_calls True (map (\<lambda>b. [b]) (utf8_encode (wire [(False, js ''Mer''), (False, js ''haba'')])))))
     demo_sent) = [tmp_u (js ''hi''), tmp_a\<lparr>msg_content := js ''Merhaba''\<rparr>]"
proof -
  have m: "messages demo_sent = [tmp_u (js ''hi'')] @ [tmp_a]" by code_simp
  show ?thesis
    using streamed_answer_is_shown [OF _ _ m, of "map (\<lambda>b. [b]) (utf8_encode (wire [(False, js ''Mer''), (False, js ''haba'')]))"
        "[js ''Mer'', js ''haba'']" "[]"]
    by (simp add: tmp_a_def)
qed

text \<open>C7. A sent message shows what was written, if the format can carry it (\<open>composable\<close>): pressing
  Enter in an open conversation, idle and with something to send, empties the composer, opens the stream with the composed content and adds
  two bubbles, the user's with exactly the trimmed text and the attachments, and an empty one for
  the answer.\<close>

theorem sent_message_is_shown:
  assumes "active_conv s \<noteq> []" and "\<not> sending s" and "\<not> nothing_to_send s"
    and "composable (trim (input s)) (pendingAttachments s) (pendingContexts s)"
  shows "let s' = chat_step E (EnterKey False) s;
        content = compose_content (trim (input s)) (pendingAttachments s) (pendingContexts s);
        u = bubble_of True False (length (messages s)) (tmp_u content) in
      messages s' = messages s @ [tmp_u content, tmp_a]
      \<and> tasks s' = tasks s @ [SendStream (active_conv s) content]
      \<and> input s' = [] \<and> pendingAttachments s' = [] \<and> pendingContexts s' = [] \<and> sending s'
      \<and> bub_mine u \<and> bub_text u = (if trim (input s) = [] then Blank else Plain (trim (input s)))
      \<and> bub_atts u = map chip_of (pendingAttachments s)"
  using assms parse_compose [OF assms(4)]
  by (simp add: send_def handler_defs bubble_of_def tmp_u_def)

definition demo_ready :: "nat chat" where
  "demo_ready = (chat_init demo_doc)\<lparr>activeId := Some (js ''c''), input := js '' hi '',
     pendingAttachments := [demo_att (js ''a.txt'') (js ''abc'')]\<rparr>"

theorem sent_message_witness:
  "let s' = chat_step (demo_env []) (EnterKey False) demo_ready in
     input s' = [] \<and> sending s' \<and> length (messages s') = 2"
proof -
  have "active_conv demo_ready \<noteq> []" "\<not> sending demo_ready" "\<not> nothing_to_send demo_ready"
    "composable (trim (input demo_ready)) (pendingAttachments demo_ready) (pendingContexts demo_ready)"
    "messages demo_ready = []"
    by code_simp+
  then show ?thesis
    using sent_message_is_shown [of demo_ready "demo_env []"] unfolding Let_def by simp
qed

text \<open>The selected model after the list was loaded: the current one if it is still usable, else
  one that is usable, and none exactly when none is usable. A model is usable through an own key, or
  when it is active and has the credentials of its mode.\<close>

theorem loaded_selection_is_usable:
  assumes "\<forall>p \<in> set ps. prov_id p \<noteq> []"
  shows "let r = pick_provider ps cur in
     (if r = [] then (\<forall>p \<in> set ps. \<not> usable p) else (\<exists>p \<in> set ps. usable p \<and> prov_id p = r))
     \<and> (if \<exists>p \<in> set ps. usable p \<and> prov_id p = cur then r = cur else True)"
proof -
  have none: "filter usable ps = [] \<longleftrightarrow> (\<forall>p \<in> set ps. \<not> usable p)" by (simp add: filter_empty_conv)
  show ?thesis
  proof (cases "cur \<noteq> [] \<and> (\<exists>p \<in> set (filter usable ps). prov_id p = cur)")
    case True
    then show ?thesis by (auto simp: pick_provider_def Let_def)
  next
    case False
    then have other: "\<not> (\<exists>p \<in> set ps. usable p \<and> prov_id p = cur)" using assms by auto
    show ?thesis
    proof (cases "filter usable ps")
      case Nil
      then have "pick_provider ps cur = []" by (simp add: pick_provider_def)
      then show ?thesis using Nil none other by (simp add: Let_def)
    next
      case (Cons u us)
      then have "pick_provider ps cur = prov_id u" using False by (auto simp: pick_provider_def Let_def)
      moreover have "u \<in> set ps \<and> usable u" using Cons by (metis filter_eq_ConsD in_set_conv_decomp)
      ultimately show ?thesis using assms other by (auto simp: Let_def)
    qed
  qed
qed

definition demo_provider :: "jstr \<Rightarrow> bool \<Rightarrow> provider" where
  "demo_provider i own = provider_of (JObj [(js ''id'', JStr i), (js ''own_key'', JBool own)])"

theorem loaded_selection_witness:
  "let r = pick_provider [demo_provider (js ''a'') False, demo_provider (js ''b'') True] (js ''a'') in
     r \<noteq> [] \<and> (\<exists>p \<in> set [demo_provider (js ''a'') False, demo_provider (js ''b'') True]. usable p \<and> prov_id p = r)"
proof -
  have ids: "\<forall>p \<in> set [demo_provider (js ''a'') False, demo_provider (js ''b'') True]. prov_id p \<noteq> []" by code_simp
  have ne: "pick_provider [demo_provider (js ''a'') False, demo_provider (js ''b'') True] (js ''a'') \<noteq> []" by code_simp
  show ?thesis using loaded_selection_is_usable [OF ids, of "js ''a''"] ne unfolding Let_def by simp
qed

text \<open>Sending without a conversation and without a model fails before any request: an error is
  shown and no message appears, and the composer has been emptied all the same, so the text and the
  attachments are gone.\<close>

lemma send_without_model_loses_input:
  assumes "active_conv s = []" and "selectedProvider s = []" and "\<not> sending s" and "\<not> nothing_to_send s"
  shows "chat_step E SendClick s =
    s\<lparr>error := NO_MODEL, input := [], pendingAttachments := [], pendingContexts := [], sending := False\<rparr>"
  using assms by (simp add: send_def handler_defs)

theorem send_without_model_witness:
  "input (chat_step (demo_env []) SendClick ((chat_init demo_doc)\<lparr>input := js ''long text''\<rparr>)) = []"
proof -
  let ?s = "(chat_init demo_doc)\<lparr>input := js ''long text''\<rparr>"
  have "active_conv ?s = []" "selectedProvider ?s = []" "\<not> sending ?s" "\<not> nothing_to_send ?s" by code_simp+
  from send_without_model_loses_input [OF this, of "demo_env []"] show ?thesis by simp
qed

section \<open>Interleavings that go wrong\<close>

text \<open>
  An answer is written to whatever conversation is on the screen. Opening conversation \<open>b\<close>
  leaves the send of conversation \<open>c\<close> in flight; its tokens go to the last bubble of
  \<open>b\<close>, and its end replaces the messages of \<open>b\<close> by those of \<open>c\<close> while \<open>b\<close>
  stays the active one.
\<close>

lemma opening_keeps_the_send:
  "send_tasks (chat_step E (OpenClick b) s) = send_tasks s \<and> activeId (chat_step E (OpenClick b) s) = Some b"
  by (simp add: openConversation_def spawn_def send_tasks_def)

lemma token_of_other_conversation:
  "messages (run_task E (SendReplies c (Delta d # rs) x y) s) = append_delta d (messages s)"
  by (simp add: spawn_def)

lemma answer_of_other_conversation:
  assumes "send_tasks s = [SendReload c]" and "activeId s = Some b"
    and "\<forall>st :: ('w, 'm) chat_scheme. fst (api E (conv_path c @ js ''/messages'') no_opts True st) = Inr v"
  shows "messages (drive E (s :: ('w, 'm) chat_scheme)) = map message_of (items_of v) \<and> activeId (drive E s) = Some b"
proof -
  obtain ts where d: "drive E s = run_task E (SendReload c) (s\<lparr>tasks := ts\<rparr>)"
    using drive_only [OF assms(1)] .
  obtain s1 where r: "api E (conv_path c @ js ''/messages'') no_opts True (s\<lparr>tasks := ts\<rparr>) = (Inr v, s1)"
    using assms(3) by (metis prod.collapse)
  obtain x y z where "s1 = s\<lparr>tasks := ts\<rparr>\<lparr>storage := x, world := y, traffic := z\<rparr>"
    using touches_same [OF api.touches r] .
  then show ?thesis
    using assms(2) d r by (simp add: handler_defs del: js_Cons)
qed

text \<open>
  The Enter key of the context field is not blocked while a context is loading, unlike the button:
  the same context is requested twice.
\<close>

lemma context_entered_twice:
  "tasks (fold (chat_step (demo_env [])) [CtxEnter, CtxEnter]
     ((chat_init demo_doc)\<lparr>ctxSource := js ''web'', ctxRef := js ''u''\<rparr>)) =
   [AddContext (js ''web'') (js ''u''), AddContext (js ''web'') (js ''u'')]"
  by code_simp

section \<open>Attachments that no one uploaded\<close>

text \<open>
  The attachment data is taken from any message, the model's included: an answer that ends with it
  gets a link to any address it names, though \<open>MessageContent\<close> lets only web addresses
  through; and data without a content type makes the rendering of the page throw.
\<close>

definition forged :: "json \<Rightarrow> message" where
  "forged att = \<lparr>msg_id = js ''1'', msg_role = js ''assistant'', msg_content = att_meta [att]\<rparr>"

lemma answer_with_any_link:
  "bub_atts (bubble_of False True 0 (forged (JObj [(js ''url'', JStr (js ''javascript:f'')),
     (js ''filename'', JStr (js ''x'')), (js ''content_type'', JStr (js ''t''))]))) =
   [Inr (FileChip (js ''javascript:f'') (js ''x''))]"
proof -
  let ?att = "JObj [(js ''url'', JStr (js ''javascript:f'')), (js ''filename'', JStr (js ''x'')),
     (js ''content_type'', JStr (js ''t''))]"
  have "composable [] [?att] []" by code_simp
  from parse_compose [OF this] have "parseMessageContent (att_meta [?att]) = ([], [?att])"
    by (simp add: compose_content_def doc_blocks_def ctx_blocks_def)
  then show ?thesis by (simp add: bubble_of_def forged_def chip_of_def str_field_def starts_with_def)
qed

lemma answer_that_breaks_the_page:
  "bub_atts (bubble_of False True 0 (forged (JObj []))) = [Inl TypeErr]"
proof -
  have "composable [] [JObj []] []" by code_simp
  from parse_compose [OF this] have "parseMessageContent (att_meta [JObj []]) = ([], [JObj []])"
    by (simp add: compose_content_def doc_blocks_def ctx_blocks_def)
  then show ?thesis by (simp add: bubble_of_def forged_def chip_of_def)
qed

end
