(* ===== verification/Panel_Shell.thy ===== *)
theory Panel_Shell
  imports Page_Kit Panel_Theme
begin

text \<open>
  The way into the panel: the start page, the login and the password change
  (\<open>panel/app/page.tsx\<close>, \<open>panel/app/login/page.tsx\<close>,
  \<open>panel/app/change-password/page.tsx\<close>) and the layout that guards every other page
  (\<open>panel/app/(dash)/layout.tsx\<close>).
\<close>

section \<open>State\<close>

record 'w shell = "'w doc" +
  pathname :: jstr
  went :: "jstr option" \<comment> \<open>the last \<open>router.replace\<close>\<close>
  ready :: bool
  shell_role :: "jstr option"
  shell_email :: jstr
  rail_open :: bool
  toggle_dark :: bool \<comment> \<open>the state of \<open>DarkToggle\<close>\<close>

definition goto :: "jstr \<Rightarrow> ('w, 'm) shell_scheme \<Rightarrow> ('w, 'm) shell_scheme" where
  "goto p s = s\<lparr>went := Some p\<rparr>"

text \<open>\<open>!getToken()\<close>\<close>

definition no_token :: "'w env \<Rightarrow> ('w, 'm) net_scheme \<Rightarrow> bool" where
  "no_token E s \<longleftrightarrow> getToken E s = None \<or> getToken E s = Some []"

definition home :: "'w env \<Rightarrow> ('w, 'm) shell_scheme \<Rightarrow> ('w, 'm) shell_scheme" where
  "home E s = goto (if no_token E s then js ''/login'' else js ''/chat'') s"

section \<open>The layout\<close>

definition mount_layout :: "'w env \<Rightarrow> ('w, 'm shell_ext doc_ext, unit) net_eff" where
  "mount_layout E = getE (\<lambda>s. if no_token E s then modE (goto (js ''/login'')) else
     catchE
       (bindE (api E (js ''/api/auth/me'') no_opts True) (\<lambda>v. bindE (objectE v) (\<lambda>me.
          if bool_field (js ''must_change_password'') me then modE (goto (js ''/change-password''))
          else modE (\<lambda>s. s\<lparr>shell_email := str_field (js ''email'') me, shell_role := getRole E s, ready := True\<rparr>))))
       (\<lambda>_. modE (goto (js ''/login''))))"

definition shell_logout :: "('w, 'm) shell_scheme \<Rightarrow> ('w, 'm) shell_scheme" where
  "shell_logout s = goto (js ''/login'') (clearSession s)"

definition mount_dark_toggle :: "'w env \<Rightarrow> ('w, 'm) shell_scheme \<Rightarrow> ('w, 'm) shell_scheme" where
  "mount_dark_toggle E s = s\<lparr>toggle_dark := getDark E s\<rparr>"

definition click_dark_toggle :: "('w, 'm) shell_scheme \<Rightarrow> ('w, 'm) shell_scheme" where
  "click_dark_toggle s = (let s1 = toggleDark s in s1\<lparr>toggle_dark := html_dark s1\<rparr>)"

definition toggle_rail :: "('w, 'm) shell_scheme \<Rightarrow> ('w, 'm) shell_scheme" where
  "toggle_rail s = s\<lparr>rail_open := \<not> rail_open s\<rparr>"

text \<open>Address, label and icon of the entries.\<close>

definition ADMIN_NAV :: "(jstr \<times> jstr \<times> jstr) list" where
  "ADMIN_NAV = [
     (js ''/dashboard'', js ''Kontrol Merkezi'', js ''dashboard''),
     (js ''/providers'', js ''LLM Providers'', js ''providers''),
     (js ''/teams'', js ''Teams'', js ''teams''),
     (js ''/users'', js ''Users'', js ''users''),
     (js ''/policy'', js ''Policy Rules'', js ''policy''),
     (js ''/alerts'', js ''Alerts'', js ''alerts''),
     (js ''/documents'', js ''Belgelerim'', js ''documents''),
     (js ''/knowledge'', js ''Bilgi Taban'' @ [0x131], js ''knowledge''),
     (js ''/marketplace'', js ''Marketplace'', js ''marketplace''),
     (js ''/conversations'', js ''Chat Ge'' @ [0xE7] @ js ''mi'' @ [0x15F] @ js ''i'', js ''conversations''),
     (js ''/audit'', js ''Audit Logs'', js ''audit''),
     (js ''/settings'', js ''Ayarlar'', js ''settings'')]"

definition admin_role :: "jstr option \<Rightarrow> bool" where
  "admin_role r \<longleftrightarrow> r = Some (js ''owner'') \<or> r = Some (js ''admin'')"

text \<open>The rail: per entry its address, whether it is the active one, its label and its tooltip.\<close>

record nav_item =
  nav_href :: jstr
  nav_active :: bool
  nav_label :: "jstr option"
  nav_title :: "jstr option"

record nav_rail =
  rail_logo :: "jstr + jstr" \<comment> \<open>address of an image, or text\<close>
  rail_name :: "jstr option"
  rail_items :: "nav_item list"
  rail_email :: "jstr option"
  rail_role :: "jstr option"

datatype shell_page =
    Hidden
  | Bare \<comment> \<open>the page without the rail\<close>
  | Framed nav_rail \<comment> \<open>the page beside the rail\<close>

definition nav_entry :: "bool \<Rightarrow> jstr \<Rightarrow> jstr \<times> jstr \<times> jstr \<Rightarrow> nav_item" where
  "nav_entry wide path n = (case n of (href, label, icon) \<Rightarrow>
     \<lparr>nav_href = href, nav_active = starts_with path href,
      nav_label = (if wide then Some label else None), nav_title = (if wide then None else Some label)\<rparr>)"

definition layout_view :: "settings \<Rightarrow> ('w, 'm) shell_scheme \<Rightarrow> shell_page" where
  "layout_view st s = (if \<not> ready s then Hidden
     else if \<not> admin_role (shell_role s) \<or> starts_with (pathname s) (js ''/chat'') then Bare
     else Framed
       \<lparr>rail_logo = (if setting (js ''app_logo_url'') st \<noteq> [] then Inl (setting (js ''app_logo_url'') st)
          else Inr (setting (js ''app_logo'') st)),
        rail_name = (if rail_open s then Some (setting (js ''app_name'') st) else None),
        rail_items = nav_entry (rail_open s) (pathname s) (js ''/chat'', js ''Chat'', js ''chat'')
          # map (nav_entry (rail_open s) (pathname s)) ADMIN_NAV,
        rail_email = (if rail_open s then Some (shell_email s) else None),
        rail_role = (if rail_open s then shell_role s else None)\<rparr>)"

section \<open>Login\<close>

record 'w login_page = "'w net" +
  lp_email :: jstr
  lp_password :: jstr
  lp_error :: jstr
  lp_loading :: bool
  lp_went :: "jstr option"

definition WRONG_LOGIN :: jstr where
  "WRONG_LOGIN = js ''Ge'' @ [0xE7] @ js ''ersiz e-posta veya '' @ [0x15F] @ js ''ifre.''"

definition login_submit :: "'w env \<Rightarrow> ('w, 'm login_page_ext, unit) net_eff" where
  "login_submit E = getE (\<lambda>s0.
     thenE (modE (\<lambda>s. s\<lparr>lp_error := [], lp_loading := True\<rparr>))
       (finallyE
         (catchE
           (thenE (login E (lp_email s0) (lp_password s0)) (modE (\<lambda>s. s\<lparr>lp_went := Some (js ''/chat'')\<rparr>)))
           (\<lambda>_. modE (\<lambda>s. s\<lparr>lp_error := WRONG_LOGIN\<rparr>)))
         (\<lambda>s. s\<lparr>lp_loading := False\<rparr>)))"

section \<open>Password change\<close>

record 'w pw_page = "'w net" +
  pw_current :: jstr
  pw_next :: jstr
  pw_confirm :: jstr
  pw_error :: jstr
  pw_saving :: bool
  pw_went :: "jstr option"

definition mount_pw :: "'w env \<Rightarrow> ('w, 'm) pw_page_scheme \<Rightarrow> ('w, 'm) pw_page_scheme" where
  "mount_pw E s = (if no_token E s then s\<lparr>pw_went := Some (js ''/login'')\<rparr> else s)"

definition pw_opts :: "jstr \<Rightarrow> jstr \<Rightarrow> init" where
  "pw_opts current next_pw = send_json (js ''POST'')
     (JObj [(js ''current_password'', JStr current), (js ''new_password'', JStr next_pw)])"

definition TOO_SHORT :: jstr where "TOO_SHORT = js ''New password must be at least 8 characters.''"
definition NO_MATCH :: jstr where "NO_MATCH = js ''Passwords do not match.''"

definition pw_submit :: "'w env \<Rightarrow> ('w, 'm pw_page_ext, unit) net_eff" where
  "pw_submit E = getE (\<lambda>s0.
     thenE (modE (\<lambda>s. s\<lparr>pw_error := []\<rparr>))
       (if length (pw_next s0) < 8 then modE (\<lambda>s. s\<lparr>pw_error := TOO_SHORT\<rparr>)
        else if pw_next s0 \<noteq> pw_confirm s0 then modE (\<lambda>s. s\<lparr>pw_error := NO_MATCH\<rparr>)
        else thenE (modE (\<lambda>s. s\<lparr>pw_saving := True\<rparr>))
          (finallyE
            (tryE E
              (thenE (api E (js ''/api/auth/change-password'') (pw_opts (pw_current s0) (pw_next s0)) True)
                (modE (\<lambda>s. s\<lparr>pw_went := Some (js ''/chat'')\<rparr>)))
              (\<lambda>m s. s\<lparr>pw_error := m\<rparr>))
            (\<lambda>s. s\<lparr>pw_saving := False\<rparr>))))"

section \<open>Properties\<close>

text \<open>What the layout ends with, by the answer of the one question it asks.\<close>

lemma mount_layout_cases:
  "mount_layout E s = (if no_token E s then (Inr (), goto (js ''/login'') s)
     else case api E (js ''/api/auth/me'') no_opts True s of
       (Inl e, s1) \<Rightarrow> (Inr (), goto (js ''/login'') s1)
     | (Inr v, s1) \<Rightarrow>
         if nullish v then (Inr (), goto (js ''/login'') s1)
         else if bool_field (js ''must_change_password'') (value_of v) then (Inr (), goto (js ''/change-password'') s1)
         else (Inr (), s1\<lparr>shell_email := str_field (js ''email'') (value_of v), shell_role := getRole E s1, ready := True\<rparr>))"
  by (auto simp: mount_layout_def objectE_def eff_defs split: prod.split sum.split)

text \<open>C19. The guard of the layout: the page is shown only when there is a token and the server knows
  the user and does not ask for a new password; in every other case the browser is sent to the login
  or to the password change. The rail is shown to owners and admins only, and never beside the chat.\<close>

theorem layout_guards_pages:
  assumes "\<not> ready s" and "went s = None" and "mount_layout E s = (r, s')"
  shows "(if layout_view st s' \<noteq> Hidden
      then \<not> no_token E s \<and> went s' = None \<and> (\<exists>v. fst (api E (js ''/api/auth/me'') no_opts True s) = Inr v
        \<and> \<not> bool_field (js ''must_change_password'') (value_of v))
      else went s' = Some (js ''/login'') \<or> went s' = Some (js ''/change-password''))
    \<and> (\<forall>rail. layout_view st s' = Framed rail \<longrightarrow>
        is_admin E s' \<and> \<not> starts_with (pathname s') (js ''/chat'') \<and> length (rail_items rail) = 13)"
proof -
  obtain q a b c where q: "api E (js ''/api/auth/me'') no_opts True s = (q, s\<lparr>storage := a, world := b, traffic := c\<rparr>)"
    using api.touches by (rule touches_netE)
  show ?thesis
    using assms(1,2) assms(3) [symmetric] q
    by (auto simp: mount_layout_cases goto_def layout_view_def admin_role_def is_admin_def getRole_def ADMIN_NAV_def
      simp del: js_Cons split: sum.splits if_splits)
qed

definition demo_shell :: "nat shell" where
  "demo_shell = \<lparr>storage = map_of [(ACCESS, js ''t''), (ROLE, js ''owner'')], world = 0, traffic = [],
     html_dark = False, data_theme = None, pathname = js ''/users'', went = None, ready = False,
     shell_role = None, shell_email = [], rail_open = True, toggle_dark = False\<rparr>"

definition demo_me :: json where
  "demo_me = JObj [(js ''email'', JStr (js ''a@b''))]"

theorem layout_guards_pages_witness:
  "\<exists>rail. layout_view SETTING_DEFAULTS (snd (mount_layout (demo_env [Answered (json_answer 200 demo_me)]) demo_shell)) =
     Framed rail \<and> length (rail_items rail) = 13"
proof -
  let ?E = "demo_env [Answered (json_answer 200 demo_me)]"
  let ?s' = "snd (mount_layout ?E demo_shell)"
  have keys: "ACCESS \<noteq> ROLE" by code_simp
  have start: "\<not> ready demo_shell" "went demo_shell = None" "\<not> no_token ?E demo_shell"
    by (simp_all add: demo_shell_def no_token_def getToken_def demo_env_def)
  obtain w l where a: "api ?E (js ''/api/auth/me'') no_opts True demo_shell =
      (Inr (Some demo_me), demo_shell\<lparr>world := w, traffic := l\<rparr>)"
    using api_json_answer [where E = ?E and path = "js ''/api/auth/me''" and opts = no_opts and retry = True
        and s = demo_shell and res = "json_answer 200 demo_me" and w = 1 and j = demo_me
        and cs = "[utf8_encode (stringify demo_me)]"]
    by (force simp: demo_env_def demo_shell_def json_answer_def res_ok_def demo_me_def simp del: js_Cons)
  have "ready ?s' \<and> admin_role (shell_role ?s') \<and> \<not> starts_with (pathname ?s') (js ''/chat'')"
    using start(3) a keys
    by (simp add: mount_layout_cases getRole_def admin_role_def starts_with_def bool_field_def demo_me_def
      demo_shell_def demo_env_def value_of_def)
  then obtain rail where "layout_view SETTING_DEFAULTS ?s' = Framed rail"
    by (auto simp: layout_view_def)
  then show ?thesis
    using layout_guards_pages [OF start(1,2), where E = ?E and r = "fst (mount_layout ?E demo_shell)" and s' = ?s'
        and st = SETTING_DEFAULTS]
    by auto
qed

text \<open>The login form: a success leads to the chat with the tokens stored, a failure shows one
  message, whatever the reason, and stores nothing; the button is free again in both cases.\<close>

lemma login_form:
  "case login E (lp_email s) (lp_password s) (s\<lparr>lp_error := [], lp_loading := True\<rparr>) of (r, s1) \<Rightarrow>
     login_submit E s = (Inr (), s1\<lparr>lp_loading := False,
       lp_went := (case r of Inl _ \<Rightarrow> lp_went s1 | Inr _ \<Rightarrow> Some (js ''/chat'')),
       lp_error := (case r of Inl _ \<Rightarrow> WRONG_LOGIN | Inr _ \<Rightarrow> lp_error s1)\<rparr>)"
  by (auto simp: login_submit_def eff_defs simp del: js_Cons split: prod.split sum.split)

text \<open>The password form sends a request exactly for a new password of at least eight code units
  that was typed twice; otherwise nothing is sent and the error says why. A sent password is the new
  one, and only a success leads to the chat.\<close>

theorem password_form:
  assumes "pw_went s = None"
  shows "case pw_submit E s of (r, s') \<Rightarrow>
    (if length (pw_next s) < 8 then traffic s' = traffic s \<and> pw_error s' = TOO_SHORT \<and> pw_went s' = None
     else if pw_next s \<noteq> pw_confirm s then traffic s' = traffic s \<and> pw_error s' = NO_MATCH \<and> pw_went s' = None
     else (\<exists>x xs. traffic s' = traffic s @ (api_request E (js ''/api/auth/change-password'')
          (pw_opts (pw_current s) (pw_next s)) (getToken E s), x) # xs)
       \<and> (pw_went s' = Some (js ''/chat'') \<or> pw_went s' = None)
       \<and> (pw_went s' = Some (js ''/chat'') \<longleftrightarrow> (\<exists>v. fst (api E (js ''/api/auth/change-password'')
            (pw_opts (pw_current s) (pw_next s)) True (s\<lparr>pw_error := [], pw_saving := True\<rparr>)) = Inr v)))
    \<and> pw_saving s' = (if length (pw_next s) < 8 \<or> pw_next s \<noteq> pw_confirm s then pw_saving s else False)"
proof -
  let ?s = "s\<lparr>pw_error := [], pw_saving := True\<rparr>"
  let ?call = "api E (js ''/api/auth/change-password'') (pw_opts (pw_current s) (pw_next s)) True"
  obtain q a b c where q: "?call ?s = (q, ?s\<lparr>storage := a, world := b, traffic := c\<rparr>)"
    using api.touches by (rule touches_netE)
  have "call_transcript E (api_request E (js ''/api/auth/change-password'') (pw_opts (pw_current s) (pw_next s)))
      api_outcome True ?s (?call ?s)" by (rule api.transcript)
  then obtain x xs where "c = traffic s @ (api_request E (js ''/api/auth/change-password'')
      (pw_opts (pw_current s) (pw_next s)) (getToken E ?s), x) # xs"
    unfolding call_transcript_def q by auto
  moreover have "getToken E ?s = getToken E s" by (simp add: getToken_def)
  ultimately show ?thesis
    using assms q by (cases q) (auto simp: pw_submit_def tryE_def eff_defs simp del: js_Cons)
qed

definition demo_pw :: "jstr \<Rightarrow> nat pw_page" where
  "demo_pw next_pw = \<lparr>storage = Map.empty, world = 0, traffic = [], pw_current = js ''old'', pw_next = next_pw,
     pw_confirm = js ''longenough'', pw_error = [], pw_saving = False, pw_went = None\<rparr>"

theorem password_form_witness:
  "pw_error (snd (pw_submit (demo_env []) (demo_pw (js ''short'')))) = TOO_SHORT
    \<and> pw_error (snd (pw_submit (demo_env []) (demo_pw (js ''longenougt'')))) = NO_MATCH"
proof -
  have "pw_went (demo_pw n) = None" for n by (simp add: demo_pw_def)
  note f = password_form [where E = "demo_env []", OF this]
  have "length (js ''short'') < 8" "\<not> length (js ''longenougt'') < 8" "js ''longenougt'' \<noteq> js ''longenough''"
    by code_simp+
  then show ?thesis
    using f [of "js ''short''"] f [of "js ''longenougt''"]
    by (simp add: demo_pw_def case_prod_beta del: js_Cons)
qed

end
