(* ===== verification/Providers_Page.thy ===== *)
theory Providers_Page
  imports Page_Kit
begin

text \<open>
  The page of the LLM providers, \<open>panel/app/(dash)/providers/page.tsx\<close>: the form with its
  presets, the request it sends, and the list with its actions.
\<close>

section \<open>The form\<close>

record preset =
  ps_name :: jstr
  ps_default :: jstr
  ps_light :: jstr
  ps_heavy :: jstr

definition OPENAI :: preset where
  "OPENAI = \<lparr>ps_name = js ''OpenAI'', ps_default = js ''gpt-4o'', ps_light = js ''gpt-4o-mini'', ps_heavy = js ''gpt-4o''\<rparr>"

definition ANTHROPIC :: preset where
  "ANTHROPIC = \<lparr>ps_name = js ''Anthropic'', ps_default = js ''claude-sonnet-4-6'',
     ps_light = js ''claude-haiku-4-5-20251001'', ps_heavy = js ''claude-opus-4-8''\<rparr>"

definition GEMINI :: preset where
  "GEMINI = \<lparr>ps_name = js ''Gemini'', ps_default = js ''gemini-2.0-flash'',
     ps_light = js ''gemini-2.0-flash-lite'', ps_heavy = js ''gemini-2.5-pro''\<rparr>"

definition PRESETS :: "(jstr \<times> preset) list" where
  "PRESETS = [(js ''openai'', OPENAI), (js ''anthropic'', ANTHROPIC), (js ''gemini'', GEMINI)]"

text \<open>\<open>PRESETS[t] ?? PRESETS.openai\<close>\<close>

definition preset_or_openai :: "jstr \<Rightarrow> preset" where
  "preset_or_openai t = (case map_of PRESETS t of None \<Rightarrow> OPENAI | Some p \<Rightarrow> p)"

record provider_form =
  pf_name :: jstr
  pf_type :: jstr
  pf_auth_mode :: jstr
  pf_api_key :: jstr
  pf_client_id :: jstr
  pf_client_secret :: jstr
  pf_auth_url :: jstr
  pf_token_url :: jstr
  pf_scopes :: jstr
  pf_base_url :: jstr
  pf_default :: jstr
  pf_light :: jstr
  pf_heavy :: jstr
  pf_threshold :: jstr

definition empty_form :: provider_form where
  "empty_form = \<lparr>pf_name = ps_name OPENAI, pf_type = js ''openai'', pf_auth_mode = js ''api_key'', pf_api_key = [],
     pf_client_id = [], pf_client_secret = [], pf_auth_url = [], pf_token_url = [], pf_scopes = [],
     pf_base_url = [], pf_default = ps_default OPENAI, pf_light = ps_light OPENAI, pf_heavy = ps_heavy OPENAI,
     pf_threshold = []\<rparr>"

text \<open>
  Choosing a type replaces each of four fields exactly when it still holds the value of the
  old type's preset.
\<close>

definition follow :: "(preset \<Rightarrow> jstr) \<Rightarrow> jstr \<Rightarrow> preset \<Rightarrow> jstr \<Rightarrow> jstr" where
  "follow sel old new cur = (if Some cur = map_option sel (map_of PRESETS old) then sel new else cur)"

definition set_type :: "jstr \<Rightarrow> provider_form \<Rightarrow> provider_form" where
  "set_type v f = (let p = preset_or_openai v in
     f\<lparr>pf_type := v,
       pf_name := follow ps_name (pf_type f) p (pf_name f),
       pf_default := follow ps_default (pf_type f) p (pf_default f),
       pf_light := follow ps_light (pf_type f) p (pf_light f),
       pf_heavy := follow ps_heavy (pf_type f) p (pf_heavy f)\<rparr>)"

datatype form_key =
    KType | KName | KAuthMode | KApiKey | KClientId | KClientSecret | KAuthUrl | KTokenUrl | KScopes
  | KBaseUrl | KDefault | KLight | KHeavy | KThreshold

fun set_field :: "form_key \<Rightarrow> jstr \<Rightarrow> provider_form \<Rightarrow> provider_form" where
  "set_field KType v f = set_type v f"
| "set_field KName v f = f\<lparr>pf_name := v\<rparr>"
| "set_field KAuthMode v f = f\<lparr>pf_auth_mode := v\<rparr>"
| "set_field KApiKey v f = f\<lparr>pf_api_key := v\<rparr>"
| "set_field KClientId v f = f\<lparr>pf_client_id := v\<rparr>"
| "set_field KClientSecret v f = f\<lparr>pf_client_secret := v\<rparr>"
| "set_field KAuthUrl v f = f\<lparr>pf_auth_url := v\<rparr>"
| "set_field KTokenUrl v f = f\<lparr>pf_token_url := v\<rparr>"
| "set_field KScopes v f = f\<lparr>pf_scopes := v\<rparr>"
| "set_field KBaseUrl v f = f\<lparr>pf_base_url := v\<rparr>"
| "set_field KDefault v f = f\<lparr>pf_default := v\<rparr>"
| "set_field KLight v f = f\<lparr>pf_light := v\<rparr>"
| "set_field KHeavy v f = f\<lparr>pf_heavy := v\<rparr>"
| "set_field KThreshold v f = f\<lparr>pf_threshold := v\<rparr>"

text \<open>The payload, member by member in the order of the assignments.\<close>

definition member_if :: "jstr \<Rightarrow> jstr \<Rightarrow> (jstr \<times> json) list" where
  "member_if k v = (if v \<noteq> [] then [(k, JStr v)] else [])"

definition provider_payload :: "provider_form \<Rightarrow> json" where
  "provider_payload f = JObj (
     [(js ''name'', JStr (pf_name f)), (js ''type'', JStr (pf_type f)),
      (js ''auth_mode'', JStr (pf_auth_mode f)), (js ''default_model'', JStr (pf_default f))]
     @ member_if (js ''base_url'') (pf_base_url f)
     @ member_if (js ''light_model'') (pf_light f)
     @ member_if (js ''heavy_model'') (pf_heavy f)
     @ (if pf_threshold f \<noteq> [] then [(js ''route_threshold_tokens'', int_json (parse_int (pf_threshold f)))] else [])
     @ (if pf_auth_mode f = js ''api_key'' then [(js ''api_key'', JStr (pf_api_key f))]
        else [(js ''oauth_client_id'', JStr (pf_client_id f)), (js ''oauth_client_secret'', JStr (pf_client_secret f)),
          (js ''oauth_auth_url'', JStr (pf_auth_url f)), (js ''oauth_token_url'', JStr (pf_token_url f)),
          (js ''oauth_scopes'', JStr (pf_scopes f))]))"

text \<open>\<open>setForm({ ...form, ... })\<close> after a success.\<close>

definition form_after_create :: "provider_form \<Rightarrow> provider_form" where
  "form_after_create f = (let p = preset_or_openai (pf_type f) in
     f\<lparr>pf_name := ps_name p, pf_api_key := [], pf_default := ps_default p, pf_light := ps_light p,
       pf_heavy := ps_heavy p, pf_threshold := []\<rparr>)"

section \<open>The page\<close>

record 'w prov_page = "'w net" +
  pp_providers :: "json list"
  pp_error :: jstr
  pp_form :: provider_form
  pp_href :: "jstr option" \<comment> \<open>\<open>window.location.href\<close> when it was set\<close>

definition refresh_providers :: "'w env \<Rightarrow> ('w, 'm prov_page_ext, unit) net_eff" where
  "refresh_providers E = bindE (api E (js ''/api/providers'') no_opts True)
     (\<lambda>v. modE (\<lambda>s. s\<lparr>pp_providers := items_of v\<rparr>))"

definition mount_providers :: "'w env \<Rightarrow> ('w, 'm prov_page_ext, unit) net_eff" where
  "mount_providers E = tryE E (refresh_providers E) (\<lambda>m s. s\<lparr>pp_error := m\<rparr>)"

definition create_provider :: "'w env \<Rightarrow> ('w, 'm prov_page_ext, unit) net_eff" where
  "create_provider E = getE (\<lambda>s0.
     thenE (modE (\<lambda>s. s\<lparr>pp_error := []\<rparr>))
       (tryE E
         (thenE (api E (js ''/api/providers'') (send_json (js ''POST'') (provider_payload (pp_form s0))) True)
           (thenE (modE (\<lambda>s. s\<lparr>pp_form := form_after_create (pp_form s0)\<rparr>)) (voidE (refresh_providers E))))
         (\<lambda>m s. s\<lparr>pp_error := m\<rparr>)))"

definition remove_provider :: "'w env \<Rightarrow> bool \<Rightarrow> jstr \<Rightarrow> ('w, 'm prov_page_ext, unit) net_eff" where
  "remove_provider E confirmed i = (if \<not> confirmed then retE ()
     else thenE (api E (js ''/api/providers/'' @ i) (just_method (js ''DELETE'')) True) (voidE (refresh_providers E)))"

definition connect_provider :: "'w env \<Rightarrow> jstr \<Rightarrow> ('w, 'm prov_page_ext, unit) net_eff" where
  "connect_provider E i = bindE (api E (js ''/api/providers/'' @ i @ js ''/oauth/start'') no_opts True) (\<lambda>v.
     bindE (objectE v) (\<lambda>r. modE (\<lambda>s. s\<lparr>pp_href := Some (str_field (js ''auth_url'') r)\<rparr>)))"

text \<open>One row of the list: the marks and the state shown, and whether it can be connected.\<close>

record provider_row =
  row_name :: jstr
  row_routing :: bool
  row_state :: jstr
  row_off :: bool
  row_connect :: bool

definition provider_row_of :: "json \<Rightarrow> provider_row" where
  "provider_row_of p =
     \<lparr>row_name = str_field (js ''name'') p,
      row_routing = (bool_field (js ''light_model'') p \<and> bool_field (js ''heavy_model'') p),
      row_state = (if str_field (js ''auth_mode'') p = js ''api_key''
        then (if bool_field (js ''has_api_key'') p then js ''API key configured'' else js ''no API key'')
        else (if bool_field (js ''connected'') p then js ''connected'' else js ''not connected'')),
      row_off = (\<not> bool_field (js ''is_active'') p),
      row_connect = (str_field (js ''auth_mode'') p = js ''oauth2'' \<and> \<not> bool_field (js ''connected'') p)\<rparr>"

section \<open>Properties\<close>

lemma int_json_plain: "plain (int_json n)"
  by (simp add: int_json_def split: option.split)

lemma map_of_member_if: "map_of (member_if k v @ r) k' = (if v \<noteq> [] \<and> k' = k then Some (JStr v) else map_of r k')"
  by (simp add: member_if_def)

lemma map_of_opt: "map_of ((if c then [(k, x)] else []) @ r) k' = (if c \<and> k' = k then Some x else map_of r k')"
  by simp

lemma map_of_choice: "map_of (if c then xs else ys) k = (if c then map_of xs k else map_of ys k)"
  by simp

text \<open>The request of the form carries the credentials of the chosen mode and no others, sends
  the optional members only when they are filled in, reads a decimal threshold as that number, and is
  understood by a JSON reader as exactly this object.\<close>

theorem provider_payload_members:
  "jprop (js ''api_key'') (provider_payload f) =
      (if pf_auth_mode f = js ''api_key'' then Some (JStr (pf_api_key f)) else None)
    \<and> jprop (js ''oauth_client_secret'') (provider_payload f) =
      (if pf_auth_mode f = js ''api_key'' then None else Some (JStr (pf_client_secret f)))
    \<and> jprop (js ''base_url'') (provider_payload f) = (if pf_base_url f = [] then None else Some (JStr (pf_base_url f)))
    \<and> jprop (js ''route_threshold_tokens'') (provider_payload (f\<lparr>pf_threshold := dec_nat n\<rparr>)) = Some (JInt (int n))
    \<and> json_parse (stringify (provider_payload f)) = Some (provider_payload f)"
proof (intro conjI)
  show "jprop (js ''api_key'') (provider_payload f) =
      (if pf_auth_mode f = js ''api_key'' then Some (JStr (pf_api_key f)) else None)"
    by (simp only: provider_payload_def jprop.simps append_Cons append_Nil map_of.simps
      fun_upd_apply fst_conv snd_conv map_of_member_if map_of_opt map_of_choice) simp
  show "jprop (js ''oauth_client_secret'') (provider_payload f) =
      (if pf_auth_mode f = js ''api_key'' then None else Some (JStr (pf_client_secret f)))"
    by (simp only: provider_payload_def jprop.simps append_Cons append_Nil map_of.simps
      fun_upd_apply fst_conv snd_conv map_of_member_if map_of_opt map_of_choice) simp
  show "jprop (js ''base_url'') (provider_payload f) = (if pf_base_url f = [] then None else Some (JStr (pf_base_url f)))"
    by (simp only: provider_payload_def jprop.simps append_Cons append_Nil map_of.simps
      fun_upd_apply fst_conv snd_conv map_of_member_if map_of_opt map_of_choice) simp
  show "jprop (js ''route_threshold_tokens'') (provider_payload (f\<lparr>pf_threshold := dec_nat n\<rparr>)) = Some (JInt (int n))"
    by (simp only: provider_payload_def jprop.simps append_Cons append_Nil map_of.simps
      fun_upd_apply fst_conv snd_conv map_of_member_if map_of_opt map_of_choice)
      (simp add: parse_int_nat int_json_def)
  show "json_parse (stringify (provider_payload f)) = Some (provider_payload f)"
    by (intro json_parse_stringify) (simp add: provider_payload_def member_if_def int_json_plain)
qed

lemma presets_total: "map_of PRESETS t = Some p \<Longrightarrow> preset_or_openai t = p"
  by (simp add: preset_or_openai_def)

lemma follow_back:
  assumes "map_of PRESETS old = Some p" and "map_of PRESETS new = Some q"
    and "cur = sel p \<or> cur \<noteq> sel q"
  shows "follow sel new p (follow sel old q cur) = cur"
  using assms by (auto simp: follow_def)

text \<open>C25. Trying another provider type and coming back changes nothing, if no field that the user
  edited equals the preset of the other type: fields that still hold a preset follow the type and
  return, edited fields stay as they are.\<close>

theorem type_switch_and_back:
  assumes "map_of PRESETS (pf_type f) = Some p" and "map_of PRESETS t = Some q"
    and "pf_name f = ps_name p \<or> pf_name f \<noteq> ps_name q"
    and "pf_default f = ps_default p \<or> pf_default f \<noteq> ps_default q"
    and "pf_light f = ps_light p \<or> pf_light f \<noteq> ps_light q"
    and "pf_heavy f = ps_heavy p \<or> pf_heavy f \<noteq> ps_heavy q"
  shows "set_field KType (pf_type f) (set_field KType t f) = f"
  using follow_back [OF assms(1,2), of "pf_name f" ps_name] follow_back [OF assms(1,2), of "pf_default f" ps_default]
    follow_back [OF assms(1,2), of "pf_light f" ps_light] follow_back [OF assms(1,2), of "pf_heavy f" ps_heavy] assms
  by (simp add: set_type_def presets_total Let_def)

theorem type_switch_and_back_witness:
  "set_field KType (js ''openai'') (set_field KType (js ''gemini'') (empty_form\<lparr>pf_name := js ''Mine''\<rparr>)) =
    empty_form\<lparr>pf_name := js ''Mine''\<rparr>"
proof -
  let ?f = "empty_form\<lparr>pf_name := js ''Mine''\<rparr>"
  have t: "pf_type ?f = js ''openai''" by (simp add: empty_form_def)
  have "map_of PRESETS (pf_type ?f) = Some OPENAI" "map_of PRESETS (js ''gemini'') = Some GEMINI"
    "pf_name ?f = ps_name OPENAI \<or> pf_name ?f \<noteq> ps_name GEMINI"
    "pf_default ?f = ps_default OPENAI \<or> pf_default ?f \<noteq> ps_default GEMINI"
    "pf_light ?f = ps_light OPENAI \<or> pf_light ?f \<noteq> ps_light GEMINI"
    "pf_heavy ?f = ps_heavy OPENAI \<or> pf_heavy ?f \<noteq> ps_heavy GEMINI"
    by code_simp+
  from type_switch_and_back [OF this] show ?thesis unfolding t .
qed

text \<open>After a provider was created the API key is gone from the form, the OAuth secret is not.\<close>

lemma oauth_secret_stays:
  "pf_api_key (form_after_create f) = [] \<and> pf_client_secret (form_after_create f) = pf_client_secret f"
  by (simp add: form_after_create_def Let_def)

end
