(* ===== verification/Admin_Pages.thy ===== *)
theory Admin_Pages
  imports Page_Kit
begin

text \<open>
  Three pages of the administration: the policy rules with the switch that masks responses
  (\<open>panel/app/(dash)/policy/page.tsx\<close>), the users (\<open>panel/app/(dash)/users/page.tsx\<close>) and
  the teams (\<open>panel/app/(dash)/teams/page.tsx\<close>).
\<close>

section \<open>Policy\<close>

record rule_form =
  rf_name :: jstr
  rf_category :: jstr
  rf_kind :: jstr
  rf_pattern :: jstr
  rf_action :: jstr
  rf_severity :: jstr

definition empty_rule :: rule_form where
  "empty_rule = \<lparr>rf_name = [], rf_category = js ''custom'', rf_kind = js ''keyword'', rf_pattern = [],
     rf_action = js ''mask'', rf_severity = js ''medium''\<rparr>"

record 'w policy_page = "'w net" +
  po_builtins :: "json list"
  po_rules :: "json list"
  po_error :: jstr
  po_mask :: bool
  po_form :: rule_form

definition refresh_rules :: "'w env \<Rightarrow> ('w, 'm policy_page_ext, unit) net_eff" where
  "refresh_rules E = bindE (api E (js ''/api/policy/rules'') no_opts True)
     (\<lambda>v. modE (\<lambda>s. s\<lparr>po_rules := items_of v\<rparr>))"

text \<open>\<open>s.mask_responses !== "false"\<close>\<close>

definition mask_setting :: "json \<Rightarrow> bool" where
  "mask_setting s \<longleftrightarrow> jprop (js ''mask_responses'') s \<noteq> Some (JStr (js ''false''))"

definition mount_policy :: "'w env \<Rightarrow> ('w, 'm policy_page_ext, unit) net_eff" where
  "mount_policy E = thenE
     (voidE (bindE (api E (js ''/api/policy/builtins'') no_opts True) (\<lambda>v. modE (\<lambda>s. s\<lparr>po_builtins := items_of v\<rparr>))))
     (thenE
       (voidE (bindE (api E (js ''/api/settings'') no_opts True) (\<lambda>v. bindE (objectE v) (\<lambda>st.
          modE (\<lambda>s. s\<lparr>po_mask := mask_setting st\<rparr>)))))
       (tryE E (refresh_rules E) (\<lambda>m s. s\<lparr>po_error := m\<rparr>)))"

definition mask_value :: "bool \<Rightarrow> jstr" where
  "mask_value b = (if b then js ''true'' else js ''false'')"

definition toggleMaskResponses :: "'w env \<Rightarrow> ('w, 'm policy_page_ext, unit) net_eff" where
  "toggleMaskResponses E = getE (\<lambda>s0. let next_mask = \<not> po_mask s0 in
     thenE (modE (\<lambda>s. s\<lparr>po_mask := next_mask\<rparr>))
       (tryE E
         (thenE (api E (js ''/api/settings/mask_responses'')
            (send_json (js ''PUT'') (JObj [(js ''value'', JStr (mask_value next_mask))])) True) (retE ()))
         (\<lambda>m s. s\<lparr>po_mask := \<not> next_mask, po_error := m\<rparr>)))"

definition rule_json :: "rule_form \<Rightarrow> json" where
  "rule_json f = JObj [(js ''name'', JStr (rf_name f)), (js ''category'', JStr (rf_category f)),
     (js ''kind'', JStr (rf_kind f)), (js ''pattern'', JStr (rf_pattern f)),
     (js ''action'', JStr (rf_action f)), (js ''severity'', JStr (rf_severity f))]"

definition create_rule :: "'w env \<Rightarrow> ('w, 'm policy_page_ext, unit) net_eff" where
  "create_rule E = getE (\<lambda>s0.
     thenE (modE (\<lambda>s. s\<lparr>po_error := []\<rparr>))
       (tryE E
         (thenE (api E (js ''/api/policy/rules'') (send_json (js ''POST'') (rule_json (po_form s0))) True)
           (thenE (modE (\<lambda>s. s\<lparr>po_form := (po_form s0)\<lparr>rf_name := [], rf_pattern := []\<rparr>\<rparr>)) (voidE (refresh_rules E))))
         (\<lambda>m s. s\<lparr>po_error := m\<rparr>)))"

definition rule_path :: "json \<Rightarrow> jstr" where
  "rule_path r = js ''/api/policy/rules/'' @ str_field (js ''id'') r"

definition toggle_rule :: "'w env \<Rightarrow> json \<Rightarrow> ('w, 'm policy_page_ext, unit) net_eff" where
  "toggle_rule E r = thenE
     (api E (rule_path r) (send_json (js ''PATCH'') (JObj [(js ''enabled'', JBool (\<not> bool_field (js ''enabled'') r))])) True)
     (voidE (refresh_rules E))"

definition remove_rule :: "'w env \<Rightarrow> bool \<Rightarrow> json \<Rightarrow> ('w, 'm policy_page_ext, unit) net_eff" where
  "remove_rule E confirmed r = (if \<not> confirmed then retE ()
     else thenE (api E (rule_path r) (just_method (js ''DELETE'')) True) (voidE (refresh_rules E)))"

section \<open>Users\<close>

record 'w users_page = "'w net" +
  us_users :: "json list"
  us_email :: jstr
  us_password :: jstr
  us_role :: jstr
  us_rpm :: jstr
  us_daily :: jstr
  us_error :: jstr
  us_created :: "json option"

definition refresh_users :: "'w env \<Rightarrow> ('w, 'm users_page_ext, unit) net_eff" where
  "refresh_users E = bindE (api E (js ''/api/users'') no_opts True) (\<lambda>v. modE (\<lambda>s. s\<lparr>us_users := items_of v\<rparr>))"

definition mount_users :: "'w env \<Rightarrow> ('w, 'm users_page_ext, unit) net_eff" where
  "mount_users E = tryE E (refresh_users E) (\<lambda>m s. s\<lparr>us_error := m\<rparr>)"

definition user_payload :: "jstr \<Rightarrow> jstr \<Rightarrow> jstr \<Rightarrow> jstr \<Rightarrow> jstr \<Rightarrow> json" where
  "user_payload email role password rpm daily = JObj (
     [(js ''email'', JStr email), (js ''role'', JStr role)]
     @ (if password \<noteq> [] then [(js ''password'', JStr password)] else [])
     @ (if rpm \<noteq> [] then [(js ''rate_limit_rpm'', int_json (parse_int rpm))] else [])
     @ (if daily \<noteq> [] then [(js ''daily_token_quota'', int_json (parse_int daily))] else []))"

definition create_user :: "'w env \<Rightarrow> ('w, 'm users_page_ext, unit) net_eff" where
  "create_user E = getE (\<lambda>s0.
     thenE (modE (\<lambda>s. s\<lparr>us_error := [], us_created := None\<rparr>))
       (tryE E
         (bindE (api E (js ''/api/users'') (send_json (js ''POST'')
             (user_payload (us_email s0) (us_role s0) (us_password s0) (us_rpm s0) (us_daily s0))) True) (\<lambda>v.
          bindE (objectE v) (\<lambda>res.
            thenE (modE (\<lambda>s. if bool_field (js ''generated_password'') res then s\<lparr>us_created := Some res\<rparr> else s))
              (thenE (modE (\<lambda>s. s\<lparr>us_email := [], us_password := [], us_role := js ''user'', us_rpm := [], us_daily := []\<rparr>))
                (refresh_users E)))))
         (\<lambda>m s. s\<lparr>us_error := m\<rparr>)))"

definition user_path :: "json \<Rightarrow> jstr" where
  "user_path u = js ''/api/users/'' @ str_field (js ''id'') u"

definition toggle_active :: "'w env \<Rightarrow> json \<Rightarrow> ('w, 'm users_page_ext, unit) net_eff" where
  "toggle_active E u = thenE
     (api E (user_path u) (send_json (js ''PATCH'') (JObj [(js ''is_active'', JBool (\<not> bool_field (js ''is_active'') u))])) True)
     (voidE (refresh_users E))"

definition remove_user :: "'w env \<Rightarrow> bool \<Rightarrow> json \<Rightarrow> ('w, 'm users_page_ext, unit) net_eff" where
  "remove_user E confirmed u = (if \<not> confirmed then retE ()
     else tryE E (thenE (api E (user_path u) (just_method (js ''DELETE'')) True) (voidE (refresh_users E)))
       (\<lambda>m s. s\<lparr>us_error := m\<rparr>))"

text \<open>The actions of a row, which the owner's row does not have.\<close>

definition row_actions :: "json \<Rightarrow> jstr list" where
  "row_actions u = (if str_field (js ''role'') u \<noteq> js ''owner''
     then [if bool_field (js ''is_active'') u then js ''Disable'' else js ''Enable'', js ''Delete''] else [])"

section \<open>Teams\<close>

record 'w teams_page = "'w net" +
  tm_teams :: "json list"
  tm_providers :: "json list"
  tm_users :: "json list"
  tm_error :: jstr
  tm_selected :: "json option"
  tm_members :: "json list"
  tm_show :: bool
  tm_name :: jstr
  tm_desc :: jstr
  tm_rpm :: jstr
  tm_quota :: jstr
  tm_provider_ids :: "jstr list"

definition refresh_teams :: "'w env \<Rightarrow> ('w, 'm teams_page_ext, unit) net_eff" where
  "refresh_teams E = bindE (allE (map (\<lambda>p. api E p no_opts True)
       [js ''/api/teams'', js ''/api/providers'', js ''/api/users'']))
     (\<lambda>vs. modE (\<lambda>s. s\<lparr>tm_teams := items_of (vs ! 0), tm_providers := items_of (vs ! 1), tm_users := items_of (vs ! 2)\<rparr>))"

definition mount_teams :: "'w env \<Rightarrow> ('w, 'm teams_page_ext, unit) net_eff" where
  "mount_teams E = tryE E (refresh_teams E) (\<lambda>m s. s\<lparr>tm_error := m\<rparr>)"

definition team_path :: "json \<Rightarrow> jstr" where
  "team_path t = js ''/api/teams/'' @ str_field (js ''id'') t"

definition open_team :: "'w env \<Rightarrow> json \<Rightarrow> ('w, 'm teams_page_ext, unit) net_eff" where
  "open_team E t = thenE (modE (\<lambda>s. s\<lparr>tm_selected := Some t\<rparr>))
     (bindE (api E (team_path t @ js ''/members'') no_opts True) (\<lambda>v. modE (\<lambda>s. s\<lparr>tm_members := items_of v\<rparr>)))"

text \<open>\<open>Number(text)\<close>, as \<open>JSON.stringify\<close> writes it, is the argument.\<close>

definition team_payload :: "(jstr \<Rightarrow> json) \<Rightarrow> jstr \<Rightarrow> jstr \<Rightarrow> jstr \<Rightarrow> jstr \<Rightarrow> jstr list \<Rightarrow> json" where
  "team_payload number name desc rpm quota ids = JObj
     [(js ''name'', JStr (trim name)), (js ''description'', JStr (trim desc)),
      (js ''rate_limit_rpm'', if rpm \<noteq> [] then number rpm else JNull),
      (js ''daily_token_quota'', if quota \<noteq> [] then number quota else JNull),
      (js ''provider_ids'', JArr (map JStr ids))]"

definition create_team :: "'w env \<Rightarrow> (jstr \<Rightarrow> json) \<Rightarrow> ('w, 'm teams_page_ext, unit) net_eff" where
  "create_team E number = getE (\<lambda>s0. if trim (tm_name s0) = [] then retE () else
     tryE E
       (thenE (api E (js ''/api/teams'') (send_json (js ''POST'')
           (team_payload number (tm_name s0) (tm_desc s0) (tm_rpm s0) (tm_quota s0) (tm_provider_ids s0))) True)
         (thenE (modE (\<lambda>s. s\<lparr>tm_show := False, tm_name := [], tm_desc := [], tm_rpm := [], tm_quota := [],
             tm_provider_ids := []\<rparr>))
           (refresh_teams E)))
       (\<lambda>m s. s\<lparr>tm_error := m\<rparr>))"

definition delete_team :: "'w env \<Rightarrow> bool \<Rightarrow> json \<Rightarrow> ('w, 'm teams_page_ext, unit) net_eff" where
  "delete_team E confirmed t = getE (\<lambda>s0. if \<not> confirmed then retE () else
     thenE (api E (team_path t) (just_method (js ''DELETE'')) True)
       (thenE (modE (\<lambda>s. case tm_selected s0 of
            Some u \<Rightarrow> if jprop (js ''id'') u = jprop (js ''id'') t then s\<lparr>tm_selected := None\<rparr> else s
          | None \<Rightarrow> s))
         (refresh_teams E)))"

definition add_member :: "'w env \<Rightarrow> jstr \<Rightarrow> ('w, 'm teams_page_ext, unit) net_eff" where
  "add_member E userId = getE (\<lambda>s0. case tm_selected s0 of None \<Rightarrow> retE () | Some t \<Rightarrow>
     thenE (api E (team_path t @ js ''/members'') (send_json (js ''POST'')
         (JObj [(js ''user_id'', JStr userId), (js ''role_in_team'', JStr (js ''member''))])) True)
       (thenE (open_team E t) (refresh_teams E)))"

definition remove_member :: "'w env \<Rightarrow> jstr \<Rightarrow> ('w, 'm teams_page_ext, unit) net_eff" where
  "remove_member E userId = getE (\<lambda>s0. case tm_selected s0 of None \<Rightarrow> retE () | Some t \<Rightarrow>
     thenE (api E (team_path t @ js ''/members/'' @ userId) (just_method (js ''DELETE'')) True)
       (thenE (open_team E t) (refresh_teams E)))"

definition toggle_provider :: "jstr \<Rightarrow> ('w, 'm) teams_page_scheme \<Rightarrow> ('w, 'm) teams_page_scheme" where
  "toggle_provider i s = s\<lparr>tm_provider_ids := (if i \<in> set (tm_provider_ids s)
     then filter (\<lambda>x. x \<noteq> i) (tm_provider_ids s) else tm_provider_ids s @ [i])\<rparr>"

definition non_members :: "('w, 'm) teams_page_scheme \<Rightarrow> json list" where
  "non_members s = filter (\<lambda>u. str_field (js ''id'') u \<notin> set (map (str_field (js ''user_id'')) (tm_members s))) (tm_users s)"

section \<open>Properties\<close>

text \<open>C26. The masking switch tells the truth: after a click it shows the opposite of before exactly
  when the server took the new value, which is the value a later load of the page reads back; when
  the request failed it shows the old value again, with the error.\<close>

theorem mask_switch_follows_server:
  "\<exists>r s1. api E (js ''/api/settings/mask_responses'')
        (send_json (js ''PUT'') (JObj [(js ''value'', JStr (mask_value (\<not> po_mask s)))])) True
        (s\<lparr>po_mask := \<not> po_mask s\<rparr>) = (r, s1)
    \<and> (case toggleMaskResponses E s of (q, s') \<Rightarrow> q = Inr ()
        \<and> po_mask s' = (case r of Inl _ \<Rightarrow> po_mask s | Inr _ \<Rightarrow> \<not> po_mask s)
        \<and> po_error s' = (case r of Inl e \<Rightarrow> err_message E e | Inr _ \<Rightarrow> po_error s)
        \<and> po_rules s' = po_rules s)
    \<and> mask_setting (JObj [(js ''mask_responses'', JStr (mask_value (\<not> po_mask s)))]) = (\<not> po_mask s)"
proof -
  let ?call = "api E (js ''/api/settings/mask_responses'')
        (send_json (js ''PUT'') (JObj [(js ''value'', JStr (mask_value (\<not> po_mask s)))])) True"
  let ?s = "s\<lparr>po_mask := \<not> po_mask s\<rparr>"
  obtain r a b c where r: "?call ?s = (r, ?s\<lparr>storage := a, world := b, traffic := c\<rparr>)"
    using api.touches by (rule touches_netE)
  have "mask_setting (JObj [(js ''mask_responses'', JStr (mask_value (\<not> po_mask s)))]) = (\<not> po_mask s)"
    by (simp add: mask_setting_def mask_value_def)
  moreover have "toggleMaskResponses E s =
      tryE E (thenE ?call (retE ())) (\<lambda>m s'. s'\<lparr>po_mask := po_mask s, po_error := m\<rparr>) ?s"
    by (simp only: toggleMaskResponses_def Let_def getE_def thenE_def bindE_def modE_def prod.case sum.case not_not)
  moreover note tryE_call [where c = ?call, OF r, of E "\<lambda>m s'. s'\<lparr>po_mask := po_mask s, po_error := m\<rparr>"]
  ultimately show ?thesis
    using r by (intro exI [of _ r] exI [of _ "?s\<lparr>storage := a, world := b, traffic := c\<rparr>"])
      (cases r; simp only: sum.case prod.case refl simp_thms; simp)
qed

text \<open>Choosing providers for a team: a click adds a provider that was not chosen and takes out
  one that was, a second click undoes the first up to the order, and no provider is chosen twice.\<close>

lemma team_provider_toggle:
  assumes "distinct (tm_provider_ids s)"
  shows "distinct (tm_provider_ids (toggle_provider i s))
    \<and> set (tm_provider_ids (toggle_provider i s)) =
      (if i \<in> set (tm_provider_ids s) then set (tm_provider_ids s) - {i} else insert i (set (tm_provider_ids s)))
    \<and> set (tm_provider_ids (toggle_provider i (toggle_provider i s))) = set (tm_provider_ids s)"
  using assms by (auto simp: toggle_provider_def)

definition demo_teams :: "nat teams_page" where
  "demo_teams = \<lparr>storage = Map.empty, world = 0, traffic = [], tm_teams = [], tm_providers = [], tm_users = [],
     tm_error = [], tm_selected = None, tm_members = [], tm_show = False, tm_name = [], tm_desc = [], tm_rpm = [],
     tm_quota = [], tm_provider_ids = [js ''a'', js ''b'']\<rparr>"

lemma team_provider_toggle_witness:
  "set (tm_provider_ids (toggle_provider (js ''a'') demo_teams)) = {js ''b''}"
proof -
  have "distinct (tm_provider_ids demo_teams)" by (simp add: demo_teams_def)
  from team_provider_toggle [OF this, of "js ''a''"] show ?thesis by (simp add: demo_teams_def)
qed

text \<open>The member panel offers exactly the users that are no members: a user is listed for
  adding or belongs to the team, never both, and the order of the users is kept.\<close>

lemma member_panel_partition:
  "set (non_members s) = {u \<in> set (tm_users s). \<not> (\<exists>m \<in> set (tm_members s). str_field (js ''user_id'') m = str_field (js ''id'') u)}
    \<and> subseq (non_members s) (tm_users s)"
  by (force simp: non_members_def subseq_filter_left)

end
