(* ===== verification/Api_Tools.thy ===== *)
theory Api_Tools
  imports Page_Kit
begin

text \<open>
  The API client (\<open>panel/app/(dash)/tools/api-client/page.tsx\<close>) and the OpenAPI reader
  (\<open>panel/app/(dash)/tools/swagger/page.tsx\<close>), which hands an endpoint over to the client
  through the browser's storage.
\<close>

section \<open>Own members of an object\<close>

text \<open>
  An object lists the members whose keys are array indices first, in ascending order, and the
  others in the order of their creation.
\<close>

definition index_key :: "jstr \<Rightarrow> nat option" where
  "index_key k = (if k \<noteq> [] \<and> (\<forall>c \<in> set k. is_digit c) \<and> (length k = 1 \<or> hd k \<noteq> 0x30) \<and> nat_of_digits k < 4294967295
     then Some (nat_of_digits k) else None)"

definition own_entries :: "(jstr \<times> json) list \<Rightarrow> (jstr \<times> json) list" where
  "own_entries ps = sort_key (\<lambda>p. the (index_key (fst p))) (filter (\<lambda>p. index_key (fst p) \<noteq> None) ps)
     @ filter (\<lambda>p. index_key (fst p) = None) ps"

text \<open>\<open>Object.entries(v)\<close>; \<open>null\<close> throws.\<close>

definition entries_of :: "json \<Rightarrow> err + (jstr \<times> json) list" where
  "entries_of v = (case v of
       JNull \<Rightarrow> Inl TypeErr
     | JObj ps \<Rightarrow> Inr (own_entries ps)
     | JArr vs \<Rightarrow> Inr (map (\<lambda>(i, x). (dec_nat i, x)) (enumerate 0 vs))
     | JStr t \<Rightarrow> Inr (map (\<lambda>(i, c). (dec_nat i, JStr [c])) (enumerate 0 t))
     | _ \<Rightarrow> Inr [])"

text \<open>\<open>a || b\<close>\<close>

definition or_value :: "jval \<Rightarrow> json \<Rightarrow> json" where
  "or_value v d = (if truthy v then value_of v else d)"

lemma sort_key_sorted_id: "sorted (map f xs) \<Longrightarrow> sort_key f xs = xs"
  by (induction xs) (simp_all add: insort_is_Cons)

lemma own_entries_idem [simp]: "own_entries (own_entries ps) = own_entries ps"
proof -
  let ?f = "\<lambda>p :: jstr \<times> json. the (index_key (fst p))"
  let ?i = "sort_key ?f (filter (\<lambda>p. index_key (fst p) \<noteq> None) ps)"
  have "filter (\<lambda>p. index_key (fst p) \<noteq> None) ?i = ?i" "filter (\<lambda>p. index_key (fst p) = None) ?i = []"
    by (auto simp: filter_id_conv filter_empty_conv)
  moreover have "sort_key ?f ?i = ?i" by (intro sort_key_sorted_id sorted_sort_key)
  moreover have e: "filter (\<lambda>x. index_key (fst x) = None \<and> (\<exists>y. index_key (fst x) = Some y)) ps = []"
    by (auto simp: filter_empty_conv)
  ultimately show ?thesis by (simp add: own_entries_def e)
qed

lemma set_own_entries [simp]: "set (own_entries ps) = set ps"
  by (auto simp: own_entries_def)

lemma distinct_own_entries: "distinct (map fst ps) \<Longrightarrow> distinct (map fst (own_entries ps))"
proof -
  assume "distinct (map fst ps)"
  then have "distinct ps" "inj_on fst (set ps)" by (simp_all add: distinct_map)
  then have "distinct (own_entries ps)" by (auto simp: own_entries_def)
  then show ?thesis using \<open>inj_on fst (set ps)\<close> by (simp add: distinct_map)
qed

lemma own_entries_filter: "own_entries (filter P ps) = filter P (own_entries ps)"
  by (simp add: own_entries_def filter_sort filter_filter conj_commute)

section \<open>The client's headers\<close>

text \<open>One line of the header field: cut at the first colon, which must not be its first unit.\<close>

definition header_line :: "jstr \<Rightarrow> (jstr \<times> jstr) option" where
  "header_line line = (case cut_at (js '':'') line of
       Some (k, v) \<Rightarrow> if k = [] then None else Some (trim k, trim v)
     | None \<Rightarrow> None)"

text \<open>\<open>h[k] = v\<close>, which for \<open>__proto__\<close> and a string does nothing.\<close>

definition PROTO :: jstr where "PROTO = js ''__proto__''"

definition put_header :: "jstr \<Rightarrow> jstr \<Rightarrow> (jstr \<times> json) list \<Rightarrow> (jstr \<times> json) list" where
  "put_header k v h = (if k = PROTO then h else obj_put k (JStr v) h)"

definition read_headers :: "jstr \<Rightarrow> (jstr \<times> json) list" where
  "read_headers text = own_entries (foldl (\<lambda>h line. case header_line line of
       None \<Rightarrow> h | Some (k, v) \<Rightarrow> put_header k v h) [] (js_split [10] text))"

definition parseHeaders :: "jstr \<Rightarrow> json" where
  "parseHeaders text = JObj (read_headers text)"

definition write_header :: "jstr \<times> json \<Rightarrow> jstr" where
  "write_header p = fst p @ js '': '' @ to_str (snd p)"

text \<open>The text of a saved object, \<open>Object.entries(s.headers || {})\<close> line by line.\<close>

definition header_text :: "jval \<Rightarrow> jstr" where
  "header_text v = (case entries_of (or_value v (JObj [])) of
       Inl _ \<Rightarrow> [] | Inr ps \<Rightarrow> js_join [10] (map write_header ps))"

section \<open>The client\<close>

record 'w client_page = "'w net" +
  cl_method :: jstr
  cl_url :: jstr
  cl_headers :: jstr
  cl_body :: jstr
  cl_resp :: "json option"
  cl_error :: jstr
  cl_loading :: bool
  cl_saved :: "json list"
  cl_explanation :: jstr
  cl_explaining :: bool

definition METHODS :: "jstr list" where
  "METHODS = [js ''GET'', js ''POST'', js ''PUT'', js ''PATCH'', js ''DELETE'', js ''HEAD'', js ''OPTIONS'']"

definition PREFILL :: jstr where "PREFILL = js ''rafine_apiclient_prefill''"

definition SAVED_PATH :: jstr where "SAVED_PATH = js ''/api/tools/api-client/requests''"

definition refresh_saved :: "'w env \<Rightarrow> ('w, 'm client_page_ext, unit) net_eff" where
  "refresh_saved E = bindE (api E SAVED_PATH no_opts True) (\<lambda>v. modE (\<lambda>s. s\<lparr>cl_saved := items_of v\<rparr>))"

text \<open>The endpoint that was handed over. Only the OpenAPI reader writes it, with two strings.\<close>

definition take_prefill :: "('w, 'm) client_page_scheme \<Rightarrow> ('w, 'm) client_page_scheme" where
  "take_prefill s = (case storage s PREFILL of
       None \<Rightarrow> s
     | Some t \<Rightarrow> if t = [] then s
         else (let s1 = (case json_parse t of
             None \<Rightarrow> s
           | Some p \<Rightarrow>
               s\<lparr>cl_method := (if str_field (js ''method'') p \<noteq> [] then str_field (js ''method'') p else cl_method s),
                 cl_url := (if str_field (js ''url'') p \<noteq> [] then str_field (js ''url'') p else cl_url s)\<rparr>)
           in s1\<lparr>storage := (storage s1)(PREFILL := None)\<rparr>))"

definition mount_client :: "'w env \<Rightarrow> ('w, 'm client_page_ext, unit) net_eff" where
  "mount_client E = thenE (modE take_prefill) (voidE (refresh_saved E))"

definition request_json :: "('w, 'm) client_page_scheme \<Rightarrow> (jstr \<times> json) list" where
  "request_json s = [(js ''method'', JStr (cl_method s)), (js ''url'', JStr (cl_url s)),
     (js ''headers'', parseHeaders (cl_headers s)), (js ''body'', JStr (cl_body s))]"

definition set_resp :: "jval \<Rightarrow> ('w, 'm) client_page_scheme \<Rightarrow> ('w, 'm) client_page_scheme" where
  "set_resp v s = s\<lparr>cl_resp := (if nullish v then None else v)\<rparr>"

definition send_request :: "'w env \<Rightarrow> ('w, 'm client_page_ext, unit) net_eff" where
  "send_request E = getE (\<lambda>s0.
     thenE (modE (\<lambda>s. s\<lparr>cl_loading := True, cl_error := [], cl_resp := None, cl_explanation := []\<rparr>))
       (finallyE
         (tryE E (bindE (api E (js ''/api/tools/api-client/send'') (send_json (js ''POST'') (JObj (request_json s0))) True)
             (\<lambda>v. modE (set_resp v)))
           (\<lambda>m s. s\<lparr>cl_error := m\<rparr>))
         (\<lambda>s. s\<lparr>cl_loading := False\<rparr>)))"

text \<open>The name comes from \<open>prompt\<close>; the payload puts it in front of the request.\<close>

definition save_request :: "'w env \<Rightarrow> jstr option \<Rightarrow> ('w, 'm client_page_ext, unit) net_eff" where
  "save_request E name = getE (\<lambda>s0. if name = None \<or> name = Some [] then retE () else
     thenE (api E SAVED_PATH (send_json (js ''POST'') (JObj ((js ''name'', JStr (the name)) # request_json s0))) True)
       (refresh_saved E))"

definition load_request :: "json \<Rightarrow> ('w, 'm) client_page_scheme \<Rightarrow> ('w, 'm) client_page_scheme" where
  "load_request r s = s\<lparr>cl_method := str_field (js ''method'') r, cl_url := str_field (js ''url'') r,
     cl_body := str_field (js ''body'') r, cl_headers := header_text (jprop (js ''headers'') r),
     cl_resp := None, cl_explanation := []\<rparr>"

definition delete_request :: "'w env \<Rightarrow> json \<Rightarrow> ('w, 'm client_page_ext, unit) net_eff" where
  "delete_request E r = thenE (api E (SAVED_PATH @ js ''/'' @ str_field (js ''id'') r) (just_method (js ''DELETE'')) True)
     (refresh_saved E)"

definition explain_json :: "json \<Rightarrow> ('w, 'm) client_page_scheme \<Rightarrow> json" where
  "explain_json r s = JObj [(js ''request'', JObj (request_json s)),
     (js ''response'', JObj ((case jprop (js ''status'') r of None \<Rightarrow> [] | Some v \<Rightarrow> [(js ''status'', v)])
        @ (case jprop (js ''body'') r of None \<Rightarrow> [] | Some v \<Rightarrow> [(js ''body'', v)])))]"

definition explain_response :: "'w env \<Rightarrow> ('w, 'm client_page_ext, unit) net_eff" where
  "explain_response E = getE (\<lambda>s0. case cl_resp s0 of None \<Rightarrow> retE () | Some r \<Rightarrow>
     thenE (modE (\<lambda>s. s\<lparr>cl_explaining := True, cl_explanation := []\<rparr>))
       (finallyE
         (tryE E (bindE (api E (js ''/api/tools/api-client/explain'') (send_json (js ''POST'') (explain_json r s0)) True)
             (\<lambda>v. bindE (objectE v) (\<lambda>x. modE (\<lambda>s. s\<lparr>cl_explanation := str_field (js ''explanation'') x\<rparr>))))
           (\<lambda>m s. s\<lparr>cl_error := m\<rparr>))
         (\<lambda>s. s\<lparr>cl_explaining := False\<rparr>)))"

section \<open>The OpenAPI reader\<close>

record endpoint =
  ep_method :: jstr
  ep_path :: jstr
  ep_summary :: json

record 'w swagger_page = "'w net" +
  sw_url :: jstr
  sw_text :: jstr
  sw_base :: json
  sw_endpoints :: "endpoint list"
  sw_title :: json
  sw_error :: jstr
  sw_route :: "jstr option"

definition BAD_JSON :: jstr where
  "BAD_JSON = js ''Ge'' @ [0xE7] @ js ''ersiz JSON. (YAML desteklenmez '' @ [0x2014] @ js '' JSON yap'' @ [0x131, 0x15F]
     @ js ''t'' @ [0x131] @ js ''r'' @ [0x131] @ js ''n veya URL kullan'' @ [0x131] @ js ''n.)''"

definition SPEC_METHODS :: "jstr list" where
  "SPEC_METHODS = [js ''get'', js ''post'', js ''put'', js ''patch'', js ''delete'']"

text \<open>\<open>method.toUpperCase()\<close>, for one of these five.\<close>

definition upper_ascii :: "jstr \<Rightarrow> jstr" where
  "upper_ascii s = map (\<lambda>c. if 0x61 \<le> c \<and> c \<le> 0x7A then c - 0x20 else c) s"

text \<open>The two loops; reading a member of a \<open>null\<close> operation throws.\<close>

definition endpoint_of :: "jstr \<Rightarrow> jstr \<Rightarrow> json \<Rightarrow> endpoint" where
  "endpoint_of path method_name op = \<lparr>ep_method = upper_ascii method_name, ep_path = path,
     ep_summary = or_value (jprop (js ''summary'') op) (or_value (jprop (js ''operationId'') op) (JStr []))\<rparr>"

fun path_endpoints :: "jstr \<Rightarrow> (jstr \<times> json) list \<Rightarrow> err + endpoint list" where
  "path_endpoints path [] = Inr []"
| "path_endpoints path ((m, op) # ms) =
     (if m \<notin> set SPEC_METHODS then path_endpoints path ms
      else if op = JNull then Inl TypeErr
      else case path_endpoints path ms of Inl e \<Rightarrow> Inl e | Inr es \<Rightarrow> Inr (endpoint_of path m op # es))"

fun spec_endpoints :: "(jstr \<times> json) list \<Rightarrow> err + endpoint list" where
  "spec_endpoints [] = Inr []"
| "spec_endpoints ((path, methods) # ps) =
     (case entries_of methods of Inl e \<Rightarrow> Inl e
      | Inr ms \<Rightarrow> (case path_endpoints path ms of Inl e \<Rightarrow> Inl e
          | Inr es \<Rightarrow> (case spec_endpoints ps of Inl e \<Rightarrow> Inl e | Inr fs \<Rightarrow> Inr (es @ fs))))"

definition all_endpoints :: "json \<Rightarrow> err + endpoint list" where
  "all_endpoints spec = (case entries_of (or_value (jprop (js ''paths'') spec) (JObj [])) of
       Inl e \<Rightarrow> Inl e | Inr ps \<Rightarrow> spec_endpoints ps)"

definition parse_spec :: "jstr \<Rightarrow> ('w, 'm swagger_page_ext, unit) net_eff" where
  "parse_spec raw = thenE (modE (\<lambda>s. s\<lparr>sw_error := []\<rparr>))
     (case json_parse raw of
        None \<Rightarrow> modE (\<lambda>s. s\<lparr>sw_error := BAD_JSON\<rparr>)
      | Some spec \<Rightarrow> if spec = JNull then throwE TypeErr else
          thenE (modE (\<lambda>s. s\<lparr>sw_title := or_value (opt_prop (js ''title'') (jprop (js ''info'') spec)) (JStr (js ''OpenAPI'')),
              sw_base := or_value (opt_prop (js ''url'') (opt_index0 (jprop (js ''servers'') spec))) (JStr [])\<rparr>))
            (case all_endpoints spec of Inl e \<Rightarrow> throwE e | Inr es \<Rightarrow> modE (\<lambda>s. s\<lparr>sw_endpoints := es\<rparr>)))"

definition load_spec_url :: "'w env \<Rightarrow> ('w, 'm swagger_page_ext, unit) net_eff" where
  "load_spec_url E = getE (\<lambda>s0. thenE (modE (\<lambda>s. s\<lparr>sw_error := []\<rparr>))
     (tryE E
       (bindE (api E (js ''/api/tools/api-client/send'') (send_json (js ''POST'')
           (JObj [(js ''method'', JStr (js ''GET'')), (js ''url'', JStr (sw_url s0)), (js ''headers'', JObj [])])) True) (\<lambda>v.
         bindE (objectE v) (\<lambda>r. thenE (modE (\<lambda>s. s\<lparr>sw_text := str_field (js ''body'') r\<rparr>))
           (parse_spec (str_field (js ''body'') r)))))
       (\<lambda>m s. s\<lparr>sw_error := m\<rparr>)))"

definition endpoint_url :: "('w, 'm) swagger_page_scheme \<Rightarrow> endpoint \<Rightarrow> jstr" where
  "endpoint_url s ep = (if truthy (Some (sw_base s)) then to_str (sw_base s) else []) @ ep_path ep"

definition sendToApiClient :: "endpoint \<Rightarrow> ('w, 'm) swagger_page_scheme \<Rightarrow> ('w, 'm) swagger_page_scheme" where
  "sendToApiClient ep s = s\<lparr>storage := (storage s)(PREFILL \<mapsto>
       stringify (JObj [(js ''method'', JStr (ep_method ep)), (js ''url'', JStr (endpoint_url s ep))])),
     sw_route := Some (js ''/tools/api-client'')\<rparr>"

section \<open>Headers survive saving and loading\<close>

lemma js_split_join: "sep \<noteq> [] \<Longrightarrow> xs \<noteq> [] \<Longrightarrow> \<forall>x \<in> set xs. \<not> sublist sep (x @ butlast sep) \<Longrightarrow> js_split sep (js_join sep xs) = xs"
proof (induction sep xs rule: js_join.induct)
  case (2 sep x)
  then have "\<not> sublist sep x" by (metis list.set_intros(1) sublist_appendI sublist_order.order_trans append_Nil)
  then show ?case using 2 by (simp add: js_split_None)
qed (simp_all add: js_split_here)

lemma set_trim: "set (trim s) \<subseteq> set s"
proof -
  have "set (trim_end x) \<subseteq> set x" for x by (auto simp: trim_end_def dest: set_dropWhileD)
  moreover have "set (trim_start s) \<subseteq> set s" by (auto simp: trim_start_def dest: set_dropWhileD)
  ultimately show ?thesis unfolding trim_def by blast
qed

text \<open>What the members of a parsed header field look like.\<close>

fun header_ok :: "jstr \<times> json \<Rightarrow> bool" where
  "header_ok (k, JStr v) = (trimmed k \<and> 0x3A \<notin> set k \<and> 10 \<notin> set k \<and> k \<noteq> PROTO \<and> trimmed v \<and> 10 \<notin> set v)"
| "header_ok (k, v) = False"

lemma obj_put_ok: "\<forall>p \<in> set h. header_ok p \<Longrightarrow> header_ok (k, JStr v) \<Longrightarrow> \<forall>p \<in> set (obj_put k (JStr v) h). header_ok p"
  by (auto simp: obj_put_def)

lemma obj_put_distinct: "distinct (map fst h) \<Longrightarrow> distinct (map fst (obj_put k v h))"
proof -
  have "map fst (map (\<lambda>p. if fst p = k then (k, v) else p) h) = map fst h" by auto
  then show "distinct (map fst h) \<Longrightarrow> ?thesis" by (auto simp: obj_put_def simp del: map_map)
qed

lemma header_line_ok:
  assumes "10 \<notin> set line" and "header_line line = Some (k, v)" and "k \<noteq> PROTO"
  shows "header_ok (k, JStr v)"
proof -
  obtain a b where c: "cut_at (js '':'') line = Some (a, b)" "k = trim a" "v = trim b"
    using assms(2) by (auto simp: header_line_def split: option.splits if_splits)
  then have "line = a @ js '':'' @ b" "0x3A \<notin> set a"
    using cut_at_Some [OF c(1)] cut_at_leftmost [OF c(1)] by (auto simp: sublist_single)
  then show ?thesis using assms(1,3) c(2,3) set_trim [of a] set_trim [of b] by (auto simp: trimmed_trim)
qed

lemma read_headers_ok: "(\<forall>p \<in> set (read_headers t). header_ok p) \<and> distinct (map fst (read_headers t))"
proof -
  let ?f = "\<lambda>h line. case header_line line of None \<Rightarrow> h | Some (k, v) \<Rightarrow> put_header k v h"
  have fold: "(\<forall>p \<in> set (foldl ?f h ls). header_ok p) \<and> distinct (map fst (foldl ?f h ls))"
    if "\<forall>l \<in> set ls. 10 \<notin> set l" "\<forall>p \<in> set h. header_ok p" "distinct (map fst h)" for h ls
    using that
  proof (induction ls arbitrary: h)
    case (Cons l ls)
    have "(\<forall>p \<in> set (?f h l). header_ok p) \<and> distinct (map fst (?f h l))"
    proof (cases "header_line l")
      case (Some p)
      then obtain k v where p: "header_line l = Some (k, v)" by (cases p) auto
      show ?thesis
      proof (cases "k = PROTO")
        case False
        then have "header_ok (k, JStr v)" using header_line_ok [OF _ p] Cons.prems(1) by simp
        then show ?thesis using p Cons.prems(2,3) obj_put_ok obj_put_distinct by (simp add: put_header_def)
      qed (use p Cons.prems in \<open>simp add: put_header_def\<close>)
    qed (use Cons.prems in simp)
    then show ?case using Cons.IH [of "?f h l"] Cons.prems(1) by simp
  qed simp
  have "\<forall>l \<in> set (js_split [10] t). 10 \<notin> set l"
    using js_split_pieces [of "[10]"] by (auto simp: sublist_single)
  from fold [OF this, of "[]"] show ?thesis
    by (simp add: read_headers_def distinct_own_entries)
qed

lemma header_line_write:
  assumes "header_ok p" and "fst p \<noteq> []"
  shows "header_line (write_header p) = Some (fst p, to_str (snd p))"
proof -
  obtain k v where p: "p = (k, JStr v)" using assms(1) by (cases p rule: header_ok.cases) auto
  have "cut_at (js '':'') (k @ js '':'' @ 0x20 # v) = Some (k, 0x20 # v)"
    using assms(1) by (intro cut_at_here) (auto simp: p sublist_single)
  moreover have "trim (0x20 # v) = v" using assms(1) trim_trimmed [of v]
    by (simp add: p trim_def trim_start_def is_ws_def)
  ultimately show ?thesis using assms trim_trimmed [of k]
    by (simp add: p header_line_def write_header_def)
qed

lemma header_line_write_Nil: "fst p = [] \<Longrightarrow> header_line (write_header p) = None"
  by (simp add: header_line_def write_header_def)

lemma foldl_written:
  assumes "\<forall>p \<in> set ps. header_ok p"
  shows "foldl (\<lambda>h line. case header_line line of None \<Rightarrow> h | Some (k, v) \<Rightarrow> put_header k v h) h (map write_header ps)
    = foldl (\<lambda>h p. obj_put (fst p) (snd p) h) h (filter (\<lambda>p. fst p \<noteq> []) ps)"
  using assms
proof (induction ps arbitrary: h)
  case (Cons p ps)
  obtain k v where p: "p = (k, JStr v)" using Cons.prems by (cases p rule: header_ok.cases) auto
  show ?case
  proof (cases "k = []")
    case True
    then show ?thesis using Cons header_line_write_Nil [of p] by (simp add: p)
  next
    case False
    then have "header_line (write_header p) = Some (k, v)"
      using header_line_write [of p] Cons.prems by (simp add: p)
    then show ?thesis using Cons False by (simp add: p put_header_def)
  qed
qed simp

lemma written_no_newline: "header_ok p \<Longrightarrow> 10 \<notin> set (write_header p)"
  by (cases p rule: header_ok.cases) (simp_all add: write_header_def)

text \<open>
  The headers read back from the text of loaded headers. A header with an empty name is the only
  thing that is lost: the text \<open>": x"\<close> starts with its colon.
\<close>

lemma read_written_headers:
  "read_headers (header_text (Some (parseHeaders t))) = filter (\<lambda>p. fst p \<noteq> []) (read_headers t)"
proof -
  let ?ps = "read_headers t"
  let ?q = "filter (\<lambda>p. fst p \<noteq> []) ?ps"
  let ?f = "\<lambda>h line. case header_line line of None \<Rightarrow> h | Some (k, v) \<Rightarrow> put_header k v h"
  have ok: "\<forall>p \<in> set ?ps. header_ok p" and d: "distinct (map fst ?ps)" using read_headers_ok by auto
  have own: "own_entries ?ps = ?ps" by (simp add: read_headers_def)
  have written: "header_text (Some (parseHeaders t)) = js_join [10] (map write_header ?ps)"
    by (simp add: header_text_def or_value_def value_of_def parseHeaders_def entries_of_def own)
  have lines: "foldl ?f [] (js_split [10] (js_join [10] (map write_header ?ps))) = foldl ?f [] (map write_header ?ps)"
  proof (cases "?ps = []")
    case True
    then show ?thesis by (simp add: js_split_None sublist_single header_line_def)
  next
    case False
    then show ?thesis using ok written_no_newline by (subst js_split_join) (auto simp: sublist_single)
  qed
  have "distinct (map fst ?q)" using d by (simp add: distinct_map_filter)
  then have "foldl ?f [] (map write_header ?ps) = ?q"
    using foldl_written [OF ok, of "[]"] obj_of_distinct [of ?q] by (simp add: obj_of_def)
  then show ?thesis
    using lines own by (simp add: written read_headers_def [of "js_join _ _"] own_entries_filter)
qed

section \<open>Properties\<close>

lemma header_ok_plain: "header_ok p \<Longrightarrow> plain (snd p)"
  by (cases p rule: header_ok.cases) simp_all

text \<open>C27. A saved request comes back: what the client saves is understood by a JSON reader as it was
  written, and loading it, under any id and name, restores method, address, body and the parsed
  headers, names, values and order, of which only a header without a name is lost.\<close>

theorem saved_request_comes_back:
  "let r = JObj ((js ''id'', JStr i) # (js ''name'', JStr n) # request_json s) in
    json_parse (stringify r) = Some r
    \<and> cl_method (load_request r t) = cl_method s \<and> cl_url (load_request r t) = cl_url s
    \<and> cl_body (load_request r t) = cl_body s
    \<and> parseHeaders (cl_headers (load_request r t)) = JObj (filter (\<lambda>p. fst p \<noteq> []) (read_headers (cl_headers s)))"
proof -
  let ?r = "JObj ((js ''id'', JStr i) # (js ''name'', JStr n) # request_json s)"
  have h: "jprop (js ''headers'') ?r = Some (parseHeaders (cl_headers s))" by (simp add: request_json_def)
  have "plain (parseHeaders (cl_headers s))"
    using read_headers_ok [of "cl_headers s"] by (auto simp: parseHeaders_def intro: header_ok_plain)
  then have "json_parse (stringify ?r) = Some ?r" by (intro json_parse_stringify) (simp add: request_json_def)
  moreover have "parseHeaders (cl_headers (load_request ?r t)) =
      JObj (filter (\<lambda>p. fst p \<noteq> []) (read_headers (cl_headers s)))"
    by (simp only: load_request_def h) (simp add: parseHeaders_def [of "header_text _"] read_written_headers)
  ultimately show ?thesis by (simp add: load_request_def str_field_def request_json_def)
qed

lemma path_endpoints_methods:
  "path_endpoints path ms = Inr es \<Longrightarrow> \<forall>ep \<in> set es. ep_method ep \<in> upper_ascii ` set SPEC_METHODS \<and> ep_path ep = path"
  by (induction path ms arbitrary: es rule: path_endpoints.induct)
    (auto simp: endpoint_of_def split: if_splits sum.splits)

lemma spec_endpoints_methods:
  "spec_endpoints ps = Inr es \<Longrightarrow> \<forall>ep \<in> set es. ep_method ep \<in> upper_ascii ` set SPEC_METHODS \<and> ep_path ep \<in> fst ` set ps"
  by (induction ps arbitrary: es rule: spec_endpoints.induct)
    (fastforce split: sum.splits dest: path_endpoints_methods)+

lemma upper_spec_methods: "upper_ascii ` set SPEC_METHODS \<subseteq> set METHODS"
  by code_simp

lemma methods_ne: "[] \<notin> set METHODS"
  by code_simp

lemma prefill_key: "PREFILL \<notin> {ACCESS, REFRESH, ROLE}"
  by code_simp

lemma refresh_saved_frame:
  "case snd (voidE (refresh_saved E) s) of s' \<Rightarrow>
     cl_method s' = cl_method s \<and> cl_url s' = cl_url s \<and> storage s' PREFILL = storage s PREFILL"
proof -
  obtain r a b c where r: "api E SAVED_PATH no_opts True s = (r, s\<lparr>storage := a, world := b, traffic := c\<rparr>)"
    using api.touches by (rule touches_netE)
  then have "a PREFILL = storage s PREFILL"
    using api.storage_frame [where E = E and path = SAVED_PATH and opts = no_opts and retry = True and s = s] prefill_key by auto
  then show ?thesis
    using r by (cases r) (simp_all add: voidE_def refresh_saved_def eff_defs)
qed

text \<open>C28. From the OpenAPI reader to the client: every endpoint that a document lists, handed over by
  its button, fills the client's form when the client opens next: the method is one that the client
  offers, the address is the server's followed by the path, and the hand-over is used up.\<close>

theorem swagger_handover:
  assumes "all_endpoints spec = Inr es" and "ep \<in> set es" and "storage c = storage (sendToApiClient ep s)"
  shows "case snd (mount_client E c) of c' \<Rightarrow>
    cl_method c' = ep_method ep \<and> cl_method c' \<in> set METHODS
    \<and> cl_url c' = (if endpoint_url s ep = [] then cl_url c else endpoint_url s ep)
    \<and> storage c' PREFILL = None"
proof -
  let ?j = "JObj [(js ''method'', JStr (ep_method ep)), (js ''url'', JStr (endpoint_url s ep))]"
  have m: "ep_method ep \<in> set METHODS"
    using assms(1,2) spec_endpoints_methods upper_spec_methods
    by (fastforce simp: all_endpoints_def split: sum.splits)
  then have ne: "ep_method ep \<noteq> []" using methods_ne by metis
  have p: "json_parse (stringify ?j) = Some ?j" by (intro json_parse_stringify) simp
  have "stringify ?j \<noteq> []" using stringify_hd [of ?j] by fastforce
  then have "take_prefill c = c\<lparr>cl_method := ep_method ep,
      cl_url := (if endpoint_url s ep = [] then cl_url c else endpoint_url s ep), storage := (storage c)(PREFILL := None)\<rparr>"
    using assms(3) p ne by (simp add: take_prefill_def sendToApiClient_def str_field_def Let_def del: stringify.simps)
  then show ?thesis
    using refresh_saved_frame [of E "take_prefill c"] m
    by (simp add: mount_client_def thenE_def bindE_def modE_def)
qed

definition demo_spec :: json where
  "demo_spec = JObj [(js ''paths'', JObj [(js ''/v1'', JObj [(js ''parameters'', JArr []),
     (js ''post'', JObj [(js ''summary'', JStr (js ''x''))])])])]"

definition demo_swagger :: "nat swagger_page" where
  "demo_swagger = \<lparr>storage = Map.empty, world = 0, traffic = [], sw_url = [], sw_text = [], sw_base = JStr (js ''http://h''),
     sw_endpoints = [], sw_title = JStr [], sw_error = [], sw_route = None\<rparr>"

definition demo_client :: "nat client_page" where
  "demo_client = \<lparr>storage = storage (sendToApiClient (endpoint_of (js ''/v1'') (js ''post'') (JObj [(js ''summary'', JStr (js ''x''))])) demo_swagger),
     world = 0, traffic = [], cl_method = js ''GET'', cl_url = [], cl_headers = [], cl_body = [], cl_resp = None, cl_error = [],
     cl_loading = False, cl_saved = [], cl_explanation = [], cl_explaining = False\<rparr>"

theorem swagger_handover_witness:
  "cl_method (snd (mount_client (demo_env []) demo_client)) = js ''POST''
    \<and> cl_url (snd (mount_client (demo_env []) demo_client)) = js ''http://h/v1''"
proof -
  let ?ep = "endpoint_of (js ''/v1'') (js ''post'') (JObj [(js ''summary'', JStr (js ''x''))])"
  have es: "all_endpoints demo_spec = Inr [?ep]" by code_simp
  have v: "ep_method ?ep = js ''POST''" "endpoint_url demo_swagger ?ep = js ''http://h/v1''" by code_simp+
  have st: "storage demo_client = storage (sendToApiClient ?ep demo_swagger)" by (simp add: demo_client_def)
  have "js ''http://h/v1'' \<noteq> []" by simp
  then show ?thesis using swagger_handover [OF es _ st, of "demo_env []"] by (simp add: v del: js_Cons)
qed

end
