(* ===== verification/Page_Runs.thy ===== *)
theory Page_Runs
  imports Page_Kit
begin

text \<open>
  Runs of a page with their history: what a state owes to the events before it, and which requests
  a handler sends. A typed text, an opened document or an answer is traced back to where it came from.
\<close>

section \<open>Invariants over the history\<close>

text \<open>An invariant that looks at the events so far; one that does not is the special case.\<close>

locale run_invariant =
  fixes step :: "'e \<Rightarrow> 's \<Rightarrow> 's" and start :: "'s \<Rightarrow> bool" and ok :: "'s \<Rightarrow> 'e list \<Rightarrow> 's \<Rightarrow> bool"
  assumes ok_none: "start s \<Longrightarrow> ok s [] s"
    and ok_next: "start s0 \<Longrightarrow> ok s0 es (fold step es s0) \<Longrightarrow> ok s0 (es @ [e]) (step e (fold step es s0))"
begin

lemma ok_after: "start s \<Longrightarrow> ok s es (fold step es s)"
proof (induction es rule: rev_induct)
  case Nil
  then show ?case by (simp add: ok_none)
next
  case (snoc e es)
  then show ?case using ok_next by simp
qed

end

sublocale page_invariant \<subseteq> run_invariant step start "\<lambda>s0 es. ok"
  by unfold_locales (simp_all add: ok_start ok_step)

section \<open>The requests of a call\<close>

definition sends :: "(request \<times> fetch_result \<Rightarrow> bool) \<Rightarrow> ('w, 'm, 'a) net_eff \<Rightarrow> bool" where
  "sends Q m \<longleftrightarrow> (\<forall>s. \<exists>l. traffic (snd (m s)) = traffic s @ l \<and> list_all Q l)"

lemma sends_quiet: "(\<And>s. snd (m s) = s) \<Longrightarrow> sends Q m"
  by (simp add: sends_def)

lemma sends_values: "sends Q (retE a)" "sends Q (throwE e)"
  by (simp_all add: sends_quiet retE_def throwE_def)

lemma sends_bindE:
  assumes "sends Q m" and "\<And>x. sends Q (f x)"
  shows "sends Q (bindE m f)"
  unfolding sends_def
proof
  fix s
  from assms(1) obtain l where l: "traffic (snd (m s)) = traffic s @ l" "list_all Q l" unfolding sends_def by blast
  show "\<exists>l. traffic (snd (bindE m f s)) = traffic s @ l \<and> list_all Q l"
  proof (cases rule: bindE_cases [of m s f])
    case (thrown e s1)
    then show ?thesis using l by auto
  next
    case (returned a s1)
    from assms(2) obtain k where "traffic (snd (f a s1)) = traffic s1 @ k" "list_all Q k" unfolding sends_def by blast
    then show ?thesis using returned l by (intro exI [of _ "l @ k"]) auto
  qed
qed

lemma sends_allE: "\<forall>m \<in> set ms. sends Q m \<Longrightarrow> sends Q (allE ms)"
proof -
  assume a: "\<forall>m \<in> set ms. sends Q m"
  have attempt: "sends Q (attemptE m)" if "sends Q m" for m :: "('a, 'b, 'c) net_eff"
    using that by (simp add: sends_def attemptE_def split_beta)
  have "sends Q (runE ms)" using a
    by (induction ms) (simp_all add: sends_bindE attempt sends_values)
  then show ?thesis unfolding allE_def
    by (rule sends_bindE) (auto simp: sends_values split: sum.split)
qed

text \<open>The requests of \<open>api\<close>: its own, with some token, and a refresh.\<close>

lemma sends_api:
  assumes "\<And>token x. Q (api_request E path opts token, x)" and "\<And>t x. Q (refresh_request E t, x)"
  shows "sends Q (api E path opts retry)"
  unfolding sends_def
proof
  fix s
  show "\<exists>l. traffic (snd (api E path opts retry s)) = traffic s @ l \<and> list_all Q l"
    using api.transcript [of E path opts retry s] by (cases rule: call_transcript_cases) (auto simp: assms)
qed

lemma sends_blob: "(\<And>token x. Q (blob_request E path token, x)) \<Longrightarrow> sends Q (authedBlobUrl E path)"
  unfolding sends_def using blob_is_not_retried [of E path] by fastforce

text \<open>A continuation sees the network state of its call, with the new exchanges at the end.\<close>

lemma settle_sends:
  assumes "touches_net m" and "sends Q m"
    and "\<And>e a b l. list_all Q l \<Longrightarrow> P (bad e (s\<lparr>storage := a, world := b, traffic := traffic s @ l\<rparr>))"
    and "\<And>v a b l. list_all Q l \<Longrightarrow> P (good v (s\<lparr>storage := a, world := b, traffic := traffic s @ l\<rparr>))"
  shows "P (settle m bad good s)"
proof -
  obtain r a b c where m: "m s = (r, s\<lparr>storage := a, world := b, traffic := c\<rparr>)"
    using assms(1) by (rule touches_netE)
  from assms(2) obtain l where "traffic (snd (m s)) = traffic s @ l" "list_all Q l" unfolding sends_def by blast
  then have "c = traffic s @ l" "list_all Q l" using m by simp_all
  then show ?thesis using m assms(3,4) by (cases r) (simp_all add: settle_def)
qed

end
