(* ===== verification/Connections_Page.thy ===== *)
theory Connections_Page
  imports Page_Runs
begin

text \<open>
  The page of a user's own keys and connections, \<open>panel/app/(dash)/connections/page.tsx\<close>,
  as a machine: the dialog that takes an API key, the calls that save and delete one, and what
  the page lists.
\<close>

section \<open>State\<close>

record byok =
  by_type :: jstr
  by_name :: jstr
  by_icon :: jstr
  by_placeholder :: jstr
  by_console :: jstr
  by_label :: jstr
  by_steps :: "jstr list"

text \<open>The three kinds of keys.\<close>

definition BYOK_TYPES :: "byok list" where
  "BYOK_TYPES = [
     \<lparr>by_type = js ''openai'', by_name = js ''OpenAI'', by_icon = [0xD83D, 0xDFE2],
       by_placeholder = js ''sk-proj-'' @ [0x2026] @ js '' veya sk-'' @ [0x2026],
       by_console = js ''https://platform.openai.com/api-keys'',
       by_label = js ''OpenAI Platform '' @ [0x2192] @ js '' API Keys'',
       by_steps = [js ''platform.openai.com adresine git ve giri'' @ [0x15F] @ js '' yap.'',
         js ''Soldan API Keys'' @ [0x27] @ js ''e t'' @ [0x131] @ js ''kla.'',
         js ''Create new secret key '' @ [0x2192] @ js '' anahtar'' @ [0x131] @ js '' kopyala.'',
         js ''A'' @ [0x15F] @ js ''a'' @ [0x11F, 0x131] @ js ''ya yap'' @ [0x131, 0x15F] @ js ''t'' @ [0x131] @ js ''r ve Ba'' @ [0x11F] @ js ''la'' @ [0x27] @ js ''ya bas.'']\<rparr>,
     \<lparr>by_type = js ''anthropic'', by_name = js ''Anthropic (Claude)'', by_icon = [0xD83D, 0xDFE3],
       by_placeholder = js ''sk-ant-api03-'' @ [0x2026],
       by_console = js ''https://console.anthropic.com/settings/keys'',
       by_label = js ''Anthropic Console '' @ [0x2192] @ js '' API Keys'',
       by_steps = [js ''console.anthropic.com adresine git ve giri'' @ [0x15F] @ js '' yap.'',
         js ''Soldan API Keys'' @ [0x27] @ js ''e t'' @ [0x131] @ js ''kla.'',
         js ''Create Key '' @ [0x2192] @ js '' anahtar'' @ [0x131] @ js '' kopyala (yaln'' @ [0x131] @ js ''zca bir kez g'' @ [0xF6] @ js ''sterilir).'',
         js ''A'' @ [0x15F] @ js ''a'' @ [0x11F, 0x131] @ js ''ya yap'' @ [0x131, 0x15F] @ js ''t'' @ [0x131] @ js ''r ve Ba'' @ [0x11F] @ js ''la'' @ [0x27] @ js ''ya bas.'']\<rparr>,
     \<lparr>by_type = js ''gemini'', by_name = js ''Google Gemini'', by_icon = [0xD83D, 0xDD35],
       by_placeholder = js ''AIzaSy'' @ [0x2026],
       by_console = js ''https://aistudio.google.com/app/apikey'',
       by_label = js ''Google AI Studio '' @ [0x2192] @ js '' API Keys'',
       by_steps = [js ''aistudio.google.com adresine git ve giri'' @ [0x15F] @ js '' yap.'',
         js ''Get API key '' @ [0x2192] @ js '' Create API key se'' @ [0xE7] @ js ''.'',
         js ''Anahtar'' @ [0x131] @ js '' kopyala.'',
         js ''A'' @ [0x15F] @ js ''a'' @ [0x11F, 0x131] @ js ''ya yap'' @ [0x131, 0x15F] @ js ''t'' @ [0x131] @ js ''r ve Ba'' @ [0x11F] @ js ''la'' @ [0x27] @ js ''ya bas.'']\<rparr>]"

datatype dialog_step = Guide | KeyEntry

text \<open>The waiting continuations, with the captured type and key of a save.\<close>

datatype cn_task =
    CnLoad
  | CnPut jstr jstr
  | CnPutRefresh
  | CnDelete jstr
  | CnDeleteRefresh
  | CnOAuth jstr
  | CnNoticeTimer

record 'w conn_page = "'w net" +
  cn_providers :: "json list"
  cn_keys :: "json list"
  cn_error :: jstr
  cn_just :: bool
  cn_notice :: "jstr option"
  cn_edit :: "jstr option"
  cn_step :: dialog_step
  cn_input :: jstr
  cn_saving :: bool
  cn_save_error :: jstr
  cn_tasks :: "cn_task list"
  cn_href :: "jstr option"

definition cn_spawn :: "cn_task \<Rightarrow> ('w, 'm) conn_page_scheme \<Rightarrow> ('w, 'm) conn_page_scheme" where
  "cn_spawn t s = s\<lparr>cn_tasks := cn_tasks s @ [t]\<rparr>"

section \<open>Handlers\<close>

definition openConnect :: "jstr \<Rightarrow> ('w, 'm) conn_page_scheme \<Rightarrow> ('w, 'm) conn_page_scheme" where
  "openConnect t s = s\<lparr>cn_edit := Some t, cn_step := Guide, cn_input := [], cn_save_error := []\<rparr>"

definition closeConnect :: "('w, 'm) conn_page_scheme \<Rightarrow> ('w, 'm) conn_page_scheme" where
  "closeConnect s = s\<lparr>cn_edit := None, cn_input := [], cn_save_error := []\<rparr>"

text \<open>\<open>!editType\<close>: none, or the empty string.\<close>

definition saveKey :: "('w, 'm) conn_page_scheme \<Rightarrow> ('w, 'm) conn_page_scheme" where
  "saveKey s = (case cn_edit s of
       None \<Rightarrow> s
     | Some t \<Rightarrow> if t = [] \<or> trim (cn_input s) = [] then s
         else cn_spawn (CnPut t (trim (cn_input s))) (s\<lparr>cn_saving := True, cn_save_error := []\<rparr>))"

definition byok_name :: "jstr \<Rightarrow> jstr" where
  "byok_name t = (case List.find (\<lambda>b. by_type b = t) BYOK_TYPES of None \<Rightarrow> t | Some b \<Rightarrow> by_name b)"

definition key_opts :: "jstr \<Rightarrow> init" where
  "key_opts k = send_json (js ''PUT'') (JObj [(js ''api_key'', JStr k), (js ''label'', JStr [])])"

definition key_path :: "jstr \<Rightarrow> jstr" where
  "key_path t = js ''/api/user/own-keys/'' @ t"

text \<open>\<open>refresh\<close>: the two calls together, and what is done with their answers.\<close>

definition conn_calls :: "'w env \<Rightarrow> ('w, 'm, jval list) net_eff" where
  "conn_calls E = allE (map (\<lambda>p. api E p no_opts True) [js ''/api/providers'', js ''/api/user/own-keys''])"

definition store_conn :: "jval list \<Rightarrow> ('w, 'm) conn_page_scheme \<Rightarrow> ('w, 'm) conn_page_scheme" where
  "store_conn vs s = s\<lparr>cn_providers := items_of (vs ! 0), cn_keys := items_of (vs ! 1)\<rparr>"

definition end_save :: "('w, 'm) conn_page_scheme \<Rightarrow> ('w, 'm) conn_page_scheme" where
  "end_save s = s\<lparr>cn_saving := False\<rparr>"

text \<open>After the key was stored the dialog closes, whichever it is by then.\<close>

definition key_saved :: "jstr \<Rightarrow> ('w, 'm) conn_page_scheme \<Rightarrow> ('w, 'm) conn_page_scheme" where
  "key_saved t s = cn_spawn CnPutRefresh (cn_spawn CnNoticeTimer ((closeConnect s)\<lparr>cn_notice := Some (byok_name t)\<rparr>))"

definition cn_fail :: "'w env \<Rightarrow> err \<Rightarrow> ('w, 'm) conn_page_scheme \<Rightarrow> ('w, 'm) conn_page_scheme" where
  "cn_fail E e s = s\<lparr>cn_error := err_message E e\<rparr>"

definition save_fail :: "'w env \<Rightarrow> err \<Rightarrow> ('w, 'm) conn_page_scheme \<Rightarrow> ('w, 'm) conn_page_scheme" where
  "save_fail E e s = end_save (s\<lparr>cn_save_error := err_message E e\<rparr>)"

definition go_oauth :: "'w env \<Rightarrow> jval \<Rightarrow> ('w, 'm) conn_page_scheme \<Rightarrow> ('w, 'm) conn_page_scheme" where
  "go_oauth E v s = (if nullish v then cn_fail E TypeErr s
     else s\<lparr>cn_href := Some (str_field (js ''auth_url'') (value_of v))\<rparr>)"

fun cn_run :: "'w env \<Rightarrow> cn_task \<Rightarrow> ('w, 'm) conn_page_scheme \<Rightarrow> ('w, 'm) conn_page_scheme" where
  "cn_run E CnLoad s = settle (conn_calls E) (cn_fail E) store_conn s"
| "cn_run E (CnPut t k) s = settle (api E (key_path t) (key_opts k) True) (save_fail E) (\<lambda>_. key_saved t) s"
| "cn_run E CnPutRefresh s = settle (conn_calls E) (save_fail E) (\<lambda>vs s. end_save (store_conn vs s)) s"
| "cn_run E (CnDelete t) s =
     settle (api E (key_path t) (just_method (js ''DELETE'')) True) (cn_fail E) (\<lambda>_. cn_spawn CnDeleteRefresh) s"
| "cn_run E CnDeleteRefresh s = settle (conn_calls E) (cn_fail E) store_conn s"
| "cn_run E (CnOAuth i) s =
     settle (api E (js ''/api/providers/'' @ i @ js ''/oauth/start'') no_opts True) (cn_fail E) (go_oauth E) s"
| "cn_run E CnNoticeTimer s = s\<lparr>cn_notice := None\<rparr>"

section \<open>Events\<close>

text \<open>
  The clicks and keys. The controls of the dialog exist while it is open, the key field only on
  its second page; Enter there is not blocked while a save runs, the button is.
\<close>

datatype cn_event =
    CnMount bool \<comment> \<open>\<open>?connected=1\<close>\<close>
  | CnOpen byok
  | CnClose
  | CnNext
  | CnBack
  | CnType jstr
  | CnEnter
  | CnSave
  | CnRemove byok
  | CnConnect jstr
  | CnRun nat

definition activeDef :: "('w, 'm) conn_page_scheme \<Rightarrow> byok option" where
  "activeDef s = List.find (\<lambda>b. Some (by_type b) = cn_edit s) BYOK_TYPES"

definition key_field :: "('w, 'm) conn_page_scheme \<Rightarrow> bool" where
  "key_field s \<longleftrightarrow> activeDef s \<noteq> None \<and> cn_step s = KeyEntry"

fun cn_event_step :: "'w env \<Rightarrow> cn_event \<Rightarrow> ('w, 'm) conn_page_scheme \<Rightarrow> ('w, 'm) conn_page_scheme" where
  "cn_event_step E (CnMount c) s = cn_spawn CnLoad (if has_window E then s\<lparr>cn_just := c\<rparr> else s)"
| "cn_event_step E (CnOpen b) s = (if b \<in> set BYOK_TYPES then openConnect (by_type b) s else s)"
| "cn_event_step E CnClose s = (if activeDef s \<noteq> None then closeConnect s else s)"
| "cn_event_step E CnNext s = (if activeDef s \<noteq> None \<and> cn_step s = Guide then s\<lparr>cn_step := KeyEntry\<rparr> else s)"
| "cn_event_step E CnBack s = (if key_field s then s\<lparr>cn_step := Guide\<rparr> else s)"
| "cn_event_step E (CnType t) s = (if key_field s then s\<lparr>cn_input := t\<rparr> else s)"
| "cn_event_step E CnEnter s = (if key_field s then saveKey s else s)"
| "cn_event_step E CnSave s = (if key_field s \<and> \<not> cn_saving s \<and> trim (cn_input s) \<noteq> [] then saveKey s else s)"
| "cn_event_step E (CnRemove b) s =
     (if b \<in> set BYOK_TYPES \<and> (\<exists>k \<in> set (cn_keys s). str_field (js ''provider_type'') k = by_type b)
      then cn_spawn (CnDelete (by_type b)) s else s)"
| "cn_event_step E (CnConnect i) s = cn_spawn (CnOAuth i) s"
| "cn_event_step E (CnRun i) s = (if i < length (cn_tasks s)
     then cn_run E (cn_tasks s ! i) (s\<lparr>cn_tasks := remove_at i (cn_tasks s)\<rparr>) else s)"

section \<open>The view\<close>

record byok_card =
  card_name :: jstr
  card_bound :: bool
  card_actions :: "jstr list"

definition card_of :: "('w, 'm) conn_page_scheme \<Rightarrow> byok \<Rightarrow> byok_card" where
  "card_of s b = (let bound = (\<exists>k \<in> set (cn_keys s). str_field (js ''provider_type'') k = by_type b) in
     \<lparr>card_name = by_name b, card_bound = bound,
      card_actions = (if bound then [js ''G'' @ [0xFC] @ js ''ncelle'', [0xD83D, 0xDDD1]]
        else [js ''Hesab'' @ [0x131] @ js ''n'' @ [0x131] @ js '' Ba'' @ [0x11F] @ js ''la''])\<rparr>)"

text \<open>The providers by their kind of access, with the mark or button of each row.\<close>

definition oauth_rows :: "('w, 'm) conn_page_scheme \<Rightarrow> (jstr \<times> bool) list" where
  "oauth_rows s = map (\<lambda>p. (str_field (js ''name'') p, bool_field (js ''connected'') p))
     (filter (\<lambda>p. str_field (js ''auth_mode'') p = js ''oauth2'') (cn_providers s))"

definition shared_rows :: "('w, 'm) conn_page_scheme \<Rightarrow> (jstr \<times> bool) list" where
  "shared_rows s = map (\<lambda>p. (str_field (js ''name'') p, bool_field (js ''own_key'') p))
     (filter (\<lambda>p. str_field (js ''auth_mode'') p = js ''api_key'' \<and> bool_field (js ''is_active'') p) (cn_providers s))"

datatype key_dialog =
    NoDialog
  | GuideDialog byok "(nat \<times> jstr) list" \<comment> \<open>the kind, whose name, label and address are shown, and the numbered steps\<close>
  | KeyDialog byok jstr "jstr option" bool jstr \<comment> \<open>the kind, the input, the error, the button and its text\<close>

definition dialog_view :: "('w, 'm) conn_page_scheme \<Rightarrow> key_dialog" where
  "dialog_view s = (case activeDef s of
       None \<Rightarrow> NoDialog
     | Some b \<Rightarrow> (case cn_step s of
         Guide \<Rightarrow> GuideDialog b (enumerate 1 (by_steps b))
       | KeyEntry \<Rightarrow> KeyDialog b (cn_input s) (if cn_save_error s = [] then None else Some (cn_save_error s))
           (\<not> cn_saving s \<and> trim (cn_input s) \<noteq> [])
           (if cn_saving s then js ''Do'' @ [0x11F] @ js ''rulan'' @ [0x131] @ js ''yor'' @ [0x2026] else js ''Ba'' @ [0x11F] @ js ''la'')))"

section \<open>The invariant\<close>

definition cn_start :: "('w, 'm) conn_page_scheme \<Rightarrow> bool" where
  "cn_start s \<longleftrightarrow> cn_edit s = None \<and> cn_input s = [] \<and> \<not> cn_saving s \<and> cn_tasks s = []"

fun is_save :: "cn_task \<Rightarrow> bool" where
  "is_save (CnPut t k) = True"
| "is_save CnPutRefresh = True"
| "is_save t = False"

definition cn_ok :: "('w, 'm) conn_page_scheme \<Rightarrow> bool" where
  "cn_ok s \<longleftrightarrow> (cn_edit s = None \<longrightarrow> cn_input s = []) \<and> (\<forall>t. cn_edit s = Some t \<longrightarrow> t \<in> by_type ` set BYOK_TYPES)
     \<and> (cn_saving s \<longrightarrow> (\<exists>t \<in> set (cn_tasks s). is_save t))"

lemmas cn_handlers = cn_spawn_def openConnect_def closeConnect_def saveKey_def end_save_def key_saved_def
  cn_fail_def save_fail_def go_oauth_def

lemma activeDef_edit: "activeDef s = None \<longleftrightarrow> cn_edit s \<notin> Some ` by_type ` set BYOK_TYPES"
  by (simp add: activeDef_def find_None_iff image_iff) metis

lemma touches_conn_calls: "touches_net (conn_calls E)"
  unfolding conn_calls_def by (intro touches_allE) (auto intro: api.touches)

text \<open>A finished task: the others are still there.\<close>

lemma cn_ok_run:
  assumes "cn_ok s" and "i < length (cn_tasks s)"
  shows "cn_ok (cn_run E (cn_tasks s ! i) (s\<lparr>cn_tasks := remove_at i (cn_tasks s)\<rparr>))"
proof -
  let ?t = "cn_tasks s ! i" and ?s = "s\<lparr>cn_tasks := remove_at i (cn_tasks s)\<rparr>"
  have keep: "cn_saving s \<Longrightarrow> \<not> is_save ?t \<Longrightarrow> \<exists>t \<in> set (remove_at i (cn_tasks s)). is_save t"
    using assms(1) in_set_remove_at unfolding cn_ok_def by metis
  have own: "cn_edit s = None \<Longrightarrow> cn_input s = []" "\<And>t. cn_edit s = Some t \<Longrightarrow> t \<in> by_type ` set BYOK_TYPES"
    using assms(1) by (auto simp: cn_ok_def)
  note keeps = settle_keeps [where P = cn_ok, OF touches_conn_calls] settle_keeps [where P = cn_ok, OF api.touches]
  show ?thesis
    by (cases ?t) (simp_all only: cn_run.simps,
      (rule keeps; use keep own in \<open>auto simp: cn_ok_def cn_handlers store_conn_def simp del: js_Cons\<close>)+,
      use keep own in \<open>auto simp: cn_ok_def\<close>)
qed

lemma cn_ok_step: "cn_ok s \<Longrightarrow> cn_ok (cn_event_step E e s)"
proof (cases e)
  case (CnRun i)
  then show "cn_ok s \<Longrightarrow> ?thesis" by (simp add: cn_ok_run)
qed (auto simp: cn_ok_def cn_handlers activeDef_edit key_field_def split: option.splits)

interpretation conn: page_invariant "cn_event_step E" cn_start cn_ok
  by unfold_locales (simp add: cn_start_def cn_ok_def, rule cn_ok_step)

section \<open>Where a key goes\<close>

text \<open>\<open>key\<close> was typed in the dialog of \<open>t\<close> in this run.\<close>

definition typed_in :: "'w env \<Rightarrow> ('w, 'm) conn_page_scheme \<Rightarrow> cn_event list \<Rightarrow> jstr \<Rightarrow> jstr \<Rightarrow> bool" where
  "typed_in E s es t key \<longleftrightarrow> (\<exists>es1 es2. es = es1 @ CnType key # es2 \<and> cn_edit (fold (cn_event_step E) es1 s) = Some t)"

lemma typed_in_earlier: "typed_in E s es t key \<Longrightarrow> typed_in E s (es @ [e]) t key"
  by (fastforce simp: typed_in_def)

lemma typed_in_now: "cn_edit (fold (cn_event_step E) es s) = Some t \<Longrightarrow> typed_in E s (es @ [CnType key]) t key"
  by (auto simp: typed_in_def)

text \<open>An exchange that stores keys: only one that \<open>ok\<close> allows.\<close>

definition put_only :: "(jstr \<Rightarrow> jstr \<Rightarrow> bool) \<Rightarrow> 'w env \<Rightarrow> request \<times> fetch_result \<Rightarrow> bool" where
  "put_only P E x \<longleftrightarrow> (req_method (fst x) = js ''PUT'' \<longrightarrow> (\<exists>t k. P t k \<and> req_url (fst x) = base E @ js ''/api/user/own-keys/'' @ t
     \<and> req_body (fst x) = Some (TextBody (stringify (JObj [(js ''api_key'', JStr (trim k)), (js ''label'', JStr [])])))))"

definition key_ok :: "(jstr \<Rightarrow> jstr \<Rightarrow> bool) \<Rightarrow> ('w, 'm) conn_page_scheme \<Rightarrow> bool" where
  "key_ok P s \<longleftrightarrow> (cn_input s \<noteq> [] \<longrightarrow> (\<exists>t. cn_edit s = Some t \<and> P t (cn_input s)))
     \<and> (\<forall>t k. CnPut t k \<in> set (cn_tasks s) \<longrightarrow> (\<exists>raw. k = trim raw \<and> P t raw))"

definition sent_ok :: "(jstr \<Rightarrow> jstr \<Rightarrow> bool) \<Rightarrow> 'w env \<Rightarrow> ('w, 'm) conn_page_scheme \<Rightarrow> ('w, 'm) conn_page_scheme \<Rightarrow> bool" where
  "sent_ok P E s0 s \<longleftrightarrow> (\<exists>l. traffic s = traffic s0 @ l \<and> list_all (put_only P E) l)"

lemma methods: "js ''GET'' \<noteq> js ''PUT''" "js ''POST'' \<noteq> js ''PUT''" "js ''DELETE'' \<noteq> js ''PUT''"
  by code_simp+

lemma quiet_calls:
  "sends (put_only P E) (api E path no_opts True)" "sends (put_only P E) (api E path (just_method (js ''DELETE'')) True)"
  "sends (put_only P E) (conn_calls E)"
  unfolding conn_calls_def
  by (auto intro!: sends_api sends_allE simp: put_only_def api_request_def refresh_request_def no_opts_def just_method_def methods
      simp del: js_Cons)

lemma put_call:
  assumes "P t raw"
  shows "sends (put_only P E) (api E (key_path t) (key_opts (trim raw)) True)"
proof (rule sends_api)
  show "put_only P E (api_request E (key_path t) (key_opts (trim raw)) token, x)" for token x
    unfolding put_only_def fst_conv using assms
    by (intro impI exI [of _ t] exI [of _ raw]) (simp add: api_request_def key_path_def key_opts_def send_json_def del: js_Cons)
  show "put_only P E (refresh_request E tok, x)" for tok x
    by (simp add: put_only_def refresh_request_def methods del: js_Cons)
qed

lemma key_ok_mono: "key_ok P s \<Longrightarrow> (\<And>t k. P t k \<Longrightarrow> Q t k) \<Longrightarrow> key_ok Q s"
  by (fastforce simp: key_ok_def)

lemma sent_ok_mono: "sent_ok P E s0 s \<Longrightarrow> (\<And>t k. P t k \<Longrightarrow> Q t k) \<Longrightarrow> sent_ok Q E s0 s"
  unfolding sent_ok_def put_only_def list_all_iff by blast

lemma key_ok_run:
  assumes "key_ok P s" and "sent_ok P E s0 s" and "i < length (cn_tasks s)"
  shows "key_ok P (cn_run E (cn_tasks s ! i) (s\<lparr>cn_tasks := remove_at i (cn_tasks s)\<rparr>))
    \<and> sent_ok P E s0 (cn_run E (cn_tasks s ! i) (s\<lparr>cn_tasks := remove_at i (cn_tasks s)\<rparr>))"
proof -
  let ?t = "cn_tasks s ! i" and ?s = "s\<lparr>cn_tasks := remove_at i (cn_tasks s)\<rparr>"
  let ?ok = "\<lambda>s'. key_ok P s' \<and> sent_ok P E s0 s'"
  have own: "cn_input s \<noteq> [] \<Longrightarrow> \<exists>t. cn_edit s = Some t \<and> P t (cn_input s)"
      "\<And>t k. CnPut t k \<in> set (remove_at i (cn_tasks s)) \<Longrightarrow> \<exists>raw. k = trim raw \<and> P t raw"
    using assms(1) set_remove_at [of i "cn_tasks s"] by (auto simp: key_ok_def)
  have sent: "sent_ok P E s0 s'" if "traffic s' = traffic s @ l" "list_all (put_only P E) l" for s' l
    using assms(2) that by (auto simp: sent_ok_def)
  have put: "\<exists>raw. k = trim raw \<and> P t raw" if "?t = CnPut t k" for t k
    using assms(1,3) that nth_mem unfolding key_ok_def by metis
  note rules = settle_sends [where P = ?ok and Q = "put_only P E"]
  show ?thesis
  proof (cases ?t)
    case (CnPut t k)
    then obtain raw where k: "k = trim raw" "P t raw" using put by blast
    show ?thesis unfolding CnPut cn_run.simps k(1)
      by (rule rules [OF api.touches put_call, OF k(2)];
          use own in \<open>auto simp: key_ok_def cn_handlers intro!: sent simp del: js_Cons\<close>)
  qed (simp_all only: cn_run.simps,
      (rule rules, (rule api.touches touches_conn_calls)+, (rule quiet_calls)+;
        use own in \<open>auto simp: key_ok_def cn_handlers store_conn_def intro!: sent simp del: js_Cons\<close>)+,
      use own assms(2) in \<open>auto simp: key_ok_def sent_ok_def\<close>)
qed

lemma key_ok_step:
  assumes "key_ok P s" and "sent_ok P E s0 s"
    and "\<And>t k. P t k \<Longrightarrow> Q t k" and "\<And>t k. e = CnType k \<Longrightarrow> cn_edit s = Some t \<Longrightarrow> Q t k"
  shows "key_ok Q (cn_event_step E e s) \<and> sent_ok Q E s0 (cn_event_step E e s)"
proof -
  have ok: "key_ok Q s" "sent_ok Q E s0 s"
    using key_ok_mono [of P s Q] sent_ok_mono [of P E s0 s Q] assms(1-3) by blast+
  show ?thesis
  proof (cases e)
    case (CnRun i)
    then show ?thesis using key_ok_run [OF ok, of i] ok by simp
  qed (use ok assms(4) in \<open>auto simp: key_ok_def sent_ok_def cn_handlers key_field_def activeDef_edit split: option.splits\<close>)
qed

interpretation keys: run_invariant "cn_event_step E" cn_start
  "\<lambda>s0 es s. key_ok (typed_in E s0 es) s \<and> sent_ok (typed_in E s0 es) E s0 s" for E
proof unfold_locales
  fix s :: "('a, 'b) conn_page_scheme"
  show "cn_start s \<Longrightarrow> key_ok (typed_in E s []) s \<and> sent_ok (typed_in E s []) E s s"
    by (simp add: cn_start_def key_ok_def sent_ok_def)
next
  fix s0 :: "('a, 'b) conn_page_scheme" and es e
  let ?s = "fold (cn_event_step E) es s0"
  assume "key_ok (typed_in E s0 es) ?s \<and> sent_ok (typed_in E s0 es) E s0 ?s"
  then show "key_ok (typed_in E s0 (es @ [e])) (cn_event_step E e ?s) \<and> sent_ok (typed_in E s0 (es @ [e])) E s0 (cn_event_step E e ?s)"
    by (intro key_ok_step [where P = "typed_in E s0 es"]) (auto intro: typed_in_earlier typed_in_now)
qed

section \<open>Properties\<close>

text \<open>C29. After any events of the page, whatever the order of clicks, keys and answers: a key in the
  field was typed in the very dialog that is on the screen, and without a dialog there is none; every
  key that was sent to be stored went to the provider in whose dialog it was typed, trimmed; a dialog
  that was opened is on the screen until it is closed; and the save button is locked only while a save
  is in flight.\<close>

theorem key_stays_in_dialog:
  assumes "cn_start s0" and "s = fold (cn_event_step E) es s0"
  shows "(cn_input s \<noteq> [] \<longrightarrow> (\<exists>t. cn_edit s = Some t \<and> typed_in E s0 es t (cn_input s)))
    \<and> (dialog_view s = NoDialog \<longrightarrow> cn_input s = []) \<and> (dialog_view s = NoDialog \<longleftrightarrow> cn_edit s = None)
    \<and> list_all (put_only (typed_in E s0 es) E) (drop (length (traffic s0)) (traffic s))
    \<and> (cn_saving s \<longrightarrow> (\<exists>t \<in> set (cn_tasks s). is_save t))"
proof -
  have "dialog_view s = NoDialog \<longleftrightarrow> activeDef s = None"
    by (simp add: dialog_view_def split: option.split dialog_step.split)
  moreover have "cn_ok s" unfolding assms(2) using assms(1) by (rule conn.ok_run)
  moreover have "key_ok (typed_in E s0 es) s \<and> sent_ok (typed_in E s0 es) E s0 s"
    unfolding assms(2) using assms(1) by (rule keys.ok_after)
  ultimately show ?thesis by (cases "cn_edit s") (auto simp: cn_ok_def key_ok_def sent_ok_def activeDef_edit)
qed

definition demo_conn :: "nat conn_page" where
  "demo_conn = \<lparr>storage = Map.empty, world = 0, traffic = [], cn_providers = [], cn_keys = [], cn_error = [],
     cn_just = False, cn_notice = None, cn_edit = None, cn_step = Guide, cn_input = [], cn_saving = False,
     cn_save_error = [], cn_tasks = [], cn_href = None\<rparr>"

definition demo_keys :: "cn_event list" where
  "demo_keys = [CnOpen (BYOK_TYPES ! 0), CnNext, CnType (js ''k''), CnEnter]"

definition demo_typed :: "nat conn_page" where
  "demo_typed = fold (cn_event_step (demo_env [])) demo_keys demo_conn"

lemma trim_k: "trim (js ''k'') = js ''k''" "js ''k'' \<noteq> []"
  by code_simp+

lemma first_byok: "BYOK_TYPES ! 0 \<in> set BYOK_TYPES" "by_type (BYOK_TYPES ! 0) = js ''openai''" "js ''openai'' \<noteq> []"
    "js ''openai'' \<in> by_type ` set BYOK_TYPES"
  by (simp_all add: BYOK_TYPES_def)

lemmas demo_steps = cn_handlers key_field_def activeDef_edit first_byok trim_k

theorem key_stays_in_dialog_witness:
  "cn_saving demo_typed \<and> (\<exists>t \<in> set (cn_tasks demo_typed). is_save t)
     \<and> typed_in (demo_env []) demo_conn demo_keys (js ''openai'') (js ''k'')"
proof -
  have s: "cn_saving demo_typed" "cn_edit demo_typed = Some (js ''openai'')" "cn_input demo_typed = js ''k''"
    by (simp_all add: demo_typed_def demo_keys_def demo_conn_def demo_steps inj_image_mem_iff del: js_Cons)
  have "cn_start demo_conn" by (simp add: cn_start_def demo_conn_def)
  from key_stays_in_dialog [OF this demo_typed_def] show ?thesis unfolding s using s(1) trim_k(2) by simp
qed

text \<open>
  Two things that go wrong. Enter submits again while the first save runs. And a save that ends
  after another dialog was opened closes that one and drops the key typed there.
\<close>

lemma key_saved_twice:
  "cn_tasks (fold (cn_event_step E) [CnOpen (BYOK_TYPES ! 0), CnNext, CnType (js ''k''), CnEnter, CnEnter] demo_conn) =
   [CnPut (js ''openai'') (js ''k''), CnPut (js ''openai'') (js ''k'')]"
  by (simp add: demo_conn_def demo_steps inj_image_mem_iff del: js_Cons)

lemma other_dialog_is_closed:
  assumes "api E (key_path t) (key_opts k) True s = (Inr v, s1)"
  shows "cn_edit (cn_run E (CnPut t k) s) = None \<and> cn_input (cn_run E (CnPut t k) s) = []"
  using assms by (simp add: settle_def key_saved_def closeConnect_def cn_spawn_def)

end
