(* ===== verification/Documents_Page.thy ===== *)
theory Documents_Page
  imports Page_Runs
begin

text \<open>
  The documents of a user, \<open>panel/app/(dash)/documents/page.tsx\<close>, as a machine: uploading,
  previewing through object URLs that the page has to revoke, deleting, and what the list shows.
\<close>

section \<open>Sizes and icons\<close>

text \<open>
  \<open>(n / d).toFixed(1)\<close> for a power of two \<open>d\<close>: the division is exact, and \<open>toFixed\<close>
  rounds to the nearest tenth, a tie upwards.
\<close>

definition tenths :: "nat \<Rightarrow> nat \<Rightarrow> nat" where
  "tenths n d = (20 * n + d) div (2 * d)"

definition fixed1 :: "nat \<Rightarrow> nat \<Rightarrow> jstr" where
  "fixed1 n d = dec_nat (tenths n d div 10) @ js ''.'' @ dec_nat (tenths n d mod 10)"

definition humanSize :: "nat \<Rightarrow> jstr" where
  "humanSize n = (if n < 1024 then dec_nat n @ js '' B''
     else if n < 1024 * 1024 then fixed1 n 1024 @ js '' KB''
     else fixed1 n (1024 * 1024) @ js '' MB'')"

datatype file_icon = PictureIcon | PageIcon | NoteIcon | ArchiveIcon | ClipIcon

definition iconFor :: "jstr \<Rightarrow> file_icon" where
  "iconFor mime =
     (if starts_with mime (js ''image/'') then PictureIcon
      else if mime = js ''application/pdf'' then PageIcon
      else if starts_with mime (js ''text/'') \<or> js_includes mime (js ''json'') \<or> js_includes mime (js ''xml'') then NoteIcon
      else if js_includes mime (js ''zip'') \<or> js_includes mime (js ''tar'') then ArchiveIcon
      else ClipIcon)"

definition textual :: "jstr \<Rightarrow> bool" where
  "textual mime \<longleftrightarrow> starts_with mime (js ''text/'') \<or> js_includes mime (js ''json'') \<or> js_includes mime (js ''xml'')
     \<or> js_includes mime (js ''javascript'')"

section \<open>State\<close>

text \<open>
  Object URLs are numbers; \<open>dp_urls\<close> is what the live ones show. A preview keeps its URL and,
  for a text, the text.
\<close>

record preview =
  pv_doc :: json
  pv_url :: nat
  pv_text :: "jstr option"

datatype dp_task =
    DpLoad
  | DpUpload "jsfile list" \<comment> \<open>the files still to send\<close>
  | DpBlob json
  | DpText json nat
  | DpDelete json "preview option" \<comment> \<open>the preview at the click\<close>
  | DpDeleteRefresh

record 'w docs_page = "'w net" +
  dp_docs :: "json list"
  dp_error :: jstr
  dp_uploading :: bool
  dp_preview :: "preview option"
  dp_urls :: "nat \<Rightarrow> u8 list option"
  dp_next :: nat
  dp_tasks :: "dp_task list"

definition dp_spawn :: "dp_task \<Rightarrow> ('w, 'm) docs_page_scheme \<Rightarrow> ('w, 'm) docs_page_scheme" where
  "dp_spawn t s = s\<lparr>dp_tasks := dp_tasks s @ [t]\<rparr>"

section \<open>Handlers and continuations\<close>

definition revoke :: "nat \<Rightarrow> ('w, 'm) docs_page_scheme \<Rightarrow> ('w, 'm) docs_page_scheme" where
  "revoke u s = s\<lparr>dp_urls := (dp_urls s)(u := None)\<rparr>"

text \<open>\<open>closePreview\<close> with the preview its closure captured.\<close>

definition closePreview :: "preview option \<Rightarrow> ('w, 'm) docs_page_scheme \<Rightarrow> ('w, 'm) docs_page_scheme" where
  "closePreview p s = (case p of None \<Rightarrow> s | Some q \<Rightarrow> revoke (pv_url q) s)\<lparr>dp_preview := None\<rparr>"

definition onUpload :: "jsfile list \<Rightarrow> ('w, 'm) docs_page_scheme \<Rightarrow> ('w, 'm) docs_page_scheme" where
  "onUpload fs s = (if fs = [] then s else dp_spawn (DpUpload fs) (s\<lparr>dp_uploading := True, dp_error := []\<rparr>))"

definition openPreview :: "json \<Rightarrow> ('w, 'm) docs_page_scheme \<Rightarrow> ('w, 'm) docs_page_scheme" where
  "openPreview d s = dp_spawn (DpBlob d) (s\<lparr>dp_error := []\<rparr>)"

definition doc_path :: "json \<Rightarrow> jstr" where
  "doc_path d = js ''/api/documents/'' @ str_field (js ''id'') d"

definition dp_fail :: "'w env \<Rightarrow> err \<Rightarrow> ('w, 'm) docs_page_scheme \<Rightarrow> ('w, 'm) docs_page_scheme" where
  "dp_fail E e s = s\<lparr>dp_error := err_message E e\<rparr>"

definition upload_fail :: "'w env \<Rightarrow> err \<Rightarrow> ('w, 'm) docs_page_scheme \<Rightarrow> ('w, 'm) docs_page_scheme" where
  "upload_fail E e s = (dp_fail E e s)\<lparr>dp_uploading := False\<rparr>"

definition set_docs :: "jval \<Rightarrow> ('w, 'm) docs_page_scheme \<Rightarrow> ('w, 'm) docs_page_scheme" where
  "set_docs v s = s\<lparr>dp_docs := items_of v\<rparr>"

definition upload_opts :: "jsfile \<Rightarrow> init" where
  "upload_opts f = \<lparr>opt_method = Some (js ''POST''), opt_headers = [], opt_body = Some (FormBody [(js ''file'', FFile f)])\<rparr>"

definition show_preview :: "json \<Rightarrow> nat \<Rightarrow> jstr option \<Rightarrow> ('w, 'm) docs_page_scheme \<Rightarrow> ('w, 'm) docs_page_scheme" where
  "show_preview d u t s = s\<lparr>dp_preview := Some \<lparr>pv_doc = d, pv_url = u, pv_text = t\<rparr>\<rparr>"

text \<open>\<open>createObjectURL\<close>, and the second read for texts.\<close>

definition got_blob :: "json \<Rightarrow> u8 list \<Rightarrow> ('w, 'm) docs_page_scheme \<Rightarrow> ('w, 'm) docs_page_scheme" where
  "got_blob d b s = (let u = dp_next s; s1 = s\<lparr>dp_urls := (dp_urls s)(u \<mapsto> b), dp_next := Suc u\<rparr> in
     if textual (str_field (js ''mime_type'') d) then dp_spawn (DpText d u) s1 else show_preview d u None s1)"

definition deleted :: "json \<Rightarrow> preview option \<Rightarrow> ('w, 'm) docs_page_scheme \<Rightarrow> ('w, 'm) docs_page_scheme" where
  "deleted d p s = dp_spawn DpDeleteRefresh (case p of
       None \<Rightarrow> s
     | Some q \<Rightarrow> if jprop (js ''id'') (pv_doc q) = jprop (js ''id'') d then closePreview p s else s)"

fun dp_run :: "'w env \<Rightarrow> dp_task \<Rightarrow> ('w, 'm) docs_page_scheme \<Rightarrow> ('w, 'm) docs_page_scheme" where
  "dp_run E DpLoad s = settle (api E (js ''/api/documents'') no_opts True) (dp_fail E) set_docs s"
| "dp_run E (DpUpload []) s = settle (api E (js ''/api/documents'') no_opts True) (upload_fail E)
     (\<lambda>v s. (set_docs v s)\<lparr>dp_uploading := False\<rparr>) s"
| "dp_run E (DpUpload (f # fs)) s =
     settle (api E (js ''/api/documents'') (upload_opts f) True) (upload_fail E) (\<lambda>_. dp_spawn (DpUpload fs)) s"
| "dp_run E (DpBlob d) s = settle (authedBlobUrl E (doc_path d @ js ''/content'')) (dp_fail E) (got_blob d) s"
| "dp_run E (DpText d u) s = (case dp_urls s u of
       None \<Rightarrow> dp_fail E NetErr s
     | Some b \<Rightarrow> show_preview d u (Some (utf8_text b)) s)"
| "dp_run E (DpDelete d p) s =
     settle (api E (doc_path d) (just_method (js ''DELETE'')) True) (dp_fail E) (\<lambda>_. deleted d p) s"
| "dp_run E DpDeleteRefresh s = settle (api E (js ''/api/documents'') no_opts True) (dp_fail E) set_docs s"

datatype dp_event =
    DpMount
  | DpFiles "jsfile list"
  | DpOpen json
  | DpClose
  | DpRemove json bool \<comment> \<open>confirmed\<close>
  | DpRun nat

fun dp_step :: "'w env \<Rightarrow> dp_event \<Rightarrow> ('w, 'm) docs_page_scheme \<Rightarrow> ('w, 'm) docs_page_scheme" where
  "dp_step E DpMount s = dp_spawn DpLoad s"
| "dp_step E (DpFiles fs) s = onUpload fs s"
| "dp_step E (DpOpen d) s = openPreview d s"
| "dp_step E DpClose s = closePreview (dp_preview s) s"
| "dp_step E (DpRemove d confirmed) s = (if confirmed then dp_spawn (DpDelete d (dp_preview s)) s else s)"
| "dp_step E (DpRun i) s = (if i < length (dp_tasks s)
     then dp_run E (dp_tasks s ! i) (s\<lparr>dp_tasks := remove_at i (dp_tasks s)\<rparr>) else s)"

section \<open>The view\<close>

datatype preview_body =
    ImageBody nat
  | PdfBody nat
  | TextBodyShown jstr
  | DownloadOnly nat

text \<open>The parts of the preview panel; the conditions are independent in the code.\<close>

definition preview_view :: "preview \<Rightarrow> preview_body list" where
  "preview_view p = (let mime = str_field (js ''mime_type'') (pv_doc p) in
     (if starts_with mime (js ''image/'') then [ImageBody (pv_url p)] else [])
     @ (if mime = js ''application/pdf'' then [PdfBody (pv_url p)] else [])
     @ (case pv_text p of None \<Rightarrow> [] | Some t \<Rightarrow> [TextBodyShown t])
     @ (if \<not> starts_with mime (js ''image/'') \<and> mime \<noteq> js ''application/pdf'' \<and> pv_text p = None
        then [DownloadOnly (pv_url p)] else []))"

section \<open>Object URLs\<close>

lemma touches_blob: "touches_net (authedBlobUrl E path)"
  unfolding authedBlobUrl_def by (intro touches_intros touches_do_fetch)

text \<open>The URLs that waiting continuations hold: the text to read, the preview to close.\<close>

fun text_urls :: "dp_task \<Rightarrow> nat list" where
  "text_urls (DpText d u) = [u]"
| "text_urls t = []"

fun held_urls :: "dp_task \<Rightarrow> nat list" where
  "held_urls (DpDelete d (Some q)) = [pv_url q]"
| "held_urls t = []"

text \<open>
  The invariant, over the URLs that will be read as texts, the held ones, the live ones, the next
  number and the preview.
\<close>

definition url_ok :: "nat list \<Rightarrow> nat list \<Rightarrow> (nat \<Rightarrow> u8 list option) \<Rightarrow> nat \<Rightarrow> preview option \<Rightarrow> bool" where
  "url_ok T H urls n pv \<longleftrightarrow> (\<forall>u. urls u \<noteq> None \<longrightarrow> u < n) \<and> distinct T \<and> (\<forall>u \<in> set T. urls u \<noteq> None)
     \<and> (\<forall>u \<in> set H. u < n \<and> u \<notin> set T)
     \<and> (\<forall>p. pv = Some p \<longrightarrow> pv_url p \<notin> set T
         \<and> (\<exists>b. urls (pv_url p) = Some b \<and> (pv_text p = None \<or> pv_text p = Some (utf8_text b))))"

definition dp_ok :: "('w, 'm) docs_page_scheme \<Rightarrow> bool" where
  "dp_ok s \<longleftrightarrow> url_ok (concat (map text_urls (dp_tasks s))) (concat (map held_urls (dp_tasks s)))
     (dp_urls s) (dp_next s) (dp_preview s)"

lemma url_ok_forget: "url_ok T H urls n pv \<Longrightarrow> set H' \<subseteq> set H \<Longrightarrow> url_ok T H' urls n pv"
  by (auto simp: url_ok_def)

lemma url_ok_fresh: "url_ok T H urls n pv \<Longrightarrow> urls n = None \<and> n \<notin> set T \<and> n \<notin> set H \<and> (\<forall>p. pv = Some p \<longrightarrow> pv_url p \<noteq> n)"
  by (fastforce simp: url_ok_def)

lemma url_ok_create:
  assumes "url_ok T H urls n pv"
  shows "url_ok (T @ [n]) H (urls(n \<mapsto> b)) (Suc n) pv"
    and "url_ok T H (urls(n \<mapsto> b)) (Suc n) (Some \<lparr>pv_doc = d, pv_url = n, pv_text = None\<rparr>)"
  using assms url_ok_fresh [OF assms] by (auto simp: url_ok_def less_Suc_eq)

lemma url_ok_read:
  "url_ok (A @ u # B) H urls n pv \<Longrightarrow> urls u = Some b \<Longrightarrow>
     url_ok (A @ B) H urls n (Some \<lparr>pv_doc = d, pv_url = u, pv_text = Some (utf8_text b)\<rparr>)"
  by (auto simp: url_ok_def)

lemma url_ok_close: "url_ok T H urls n pv \<Longrightarrow> u \<notin> set T \<Longrightarrow> url_ok T H (urls(u := None)) n None"
  by (auto simp: url_ok_def)

lemma url_ok_closed: "url_ok T H urls n pv \<Longrightarrow> url_ok T H urls n None"
  by (auto simp: url_ok_def)

lemma url_ok_hold: "url_ok T H urls n (Some p) \<Longrightarrow> url_ok T (H @ [pv_url p]) urls n (Some p)"
  by (auto simp: url_ok_def)

lemma url_ok_close_shown: "url_ok T H urls n (Some p) \<Longrightarrow> url_ok T H (urls(pv_url p := None)) n None"
  by (auto simp: url_ok_def)

lemma url_ok_held: "url_ok T (A @ u # B) urls n pv \<Longrightarrow> u \<notin> set T"
  by (auto simp: url_ok_def)

definition dp_start :: "('w, 'm) docs_page_scheme \<Rightarrow> bool" where
  "dp_start s \<longleftrightarrow> dp_urls s = Map.empty \<and> dp_preview s = None \<and> dp_tasks s = [] \<and> \<not> dp_uploading s"

lemmas dp_handlers = dp_spawn_def revoke_def closePreview_def onUpload_def openPreview_def dp_fail_def upload_fail_def
  set_docs_def show_preview_def got_blob_def deleted_def

lemma dp_ok_run:
  assumes "dp_ok s" and "i < length (dp_tasks s)"
  shows "dp_ok (dp_run E (dp_tasks s ! i) (s\<lparr>dp_tasks := remove_at i (dp_tasks s)\<rparr>))"
proof -
  obtain ys zs where ts: "dp_tasks s = ys @ dp_tasks s ! i # zs" "remove_at i (dp_tasks s) = ys @ zs"
    using remove_at_split [OF assms(2)] .
  let ?t = "dp_tasks s ! i" and ?T = "concat (map text_urls ys)" and ?T' = "concat (map text_urls zs)"
    and ?H = "concat (map held_urls ys)" and ?H' = "concat (map held_urls zs)"
  have "concat (map text_urls (dp_tasks s)) = ?T @ text_urls ?t @ ?T'"
    "concat (map held_urls (dp_tasks s)) = ?H @ held_urls ?t @ ?H'"
    by (subst ts(1), simp)+
  then have ok: "url_ok (?T @ text_urls ?t @ ?T') (?H @ held_urls ?t @ ?H') (dp_urls s) (dp_next s) (dp_preview s)"
    using assms(1) by (simp add: dp_ok_def)
  note keeps = settle_keeps [where P = dp_ok, OF api.touches] settle_keeps [where P = dp_ok, OF touches_blob]
  show ?thesis
  proof (cases ?t)
    case (DpUpload fs)
    then show ?thesis unfolding ts(2) using ok
      by (cases fs) (simp_all only: dp_run.simps, (rule keeps; simp add: dp_ok_def dp_handlers)+)
  next
    case (DpBlob d)
    have "dp_ok (got_blob d b s')"
      if "dp_tasks s' = ys @ zs" "dp_urls s' = dp_urls s" "dp_next s' = dp_next s" "dp_preview s' = dp_preview s"
      for b and s' :: "('a, 'b) docs_page_scheme"
      using url_ok_create [OF ok] DpBlob that by (simp add: dp_ok_def dp_handlers Let_def)
    then show ?thesis unfolding ts(2) DpBlob dp_run.simps
      by (intro keeps) (use ok DpBlob in \<open>simp_all add: dp_ok_def dp_fail_def\<close>)
  next
    case (DpText d u)
    then obtain b where "dp_urls s u = Some b" using ok by (auto simp: url_ok_def)
    then show ?thesis unfolding ts(2) using url_ok_read [of ?T u ?T'] ok DpText
      by (simp add: dp_ok_def dp_handlers)
  next
    case (DpDelete d p)
    have "dp_ok (deleted d p s')"
      if "dp_tasks s' = ys @ zs" "dp_urls s' = dp_urls s" "dp_next s' = dp_next s" "dp_preview s' = dp_preview s"
      for s' :: "('a, 'b) docs_page_scheme"
    proof -
      have ok': "url_ok (?T @ ?T') (?H @ ?H') (dp_urls s) (dp_next s) (dp_preview s)"
        using url_ok_forget [OF ok, of "?H @ ?H'"] DpDelete by auto
      moreover have "pv_url q \<notin> set (?T @ ?T')" if "p = Some q" for q
        using url_ok_held [of "?T @ ?T'" ?H "pv_url q" ?H'] ok DpDelete that by simp
      ultimately show ?thesis using that url_ok_close [OF ok']
        by (cases p) (simp_all add: dp_ok_def dp_handlers)
    qed
    moreover have "dp_ok (dp_fail E e s')"
      if "dp_tasks s' = ys @ zs" "dp_urls s' = dp_urls s" "dp_next s' = dp_next s" "dp_preview s' = dp_preview s"
      for e and s' :: "('a, 'b) docs_page_scheme"
      using url_ok_forget [OF ok, of "?H @ ?H'"] DpDelete that by (auto simp: dp_ok_def dp_fail_def)
    ultimately show ?thesis unfolding ts(2) DpDelete dp_run.simps by (intro keeps) simp_all
  qed (unfold ts(2), use ok in \<open>simp_all only: dp_run.simps\<close>, (rule keeps; simp add: dp_ok_def dp_handlers)+)
qed

lemma dp_ok_step: "dp_ok s \<Longrightarrow> dp_ok (dp_step E e s)"
proof (cases e)
  case DpClose
  then show "dp_ok s \<Longrightarrow> ?thesis"
    by (cases "dp_preview s") (auto simp: dp_ok_def dp_handlers intro: url_ok_closed url_ok_close_shown)
next
  case (DpRemove d c)
  then show "dp_ok s \<Longrightarrow> ?thesis"
    by (cases "dp_preview s") (auto simp: dp_ok_def dp_handlers intro: url_ok_hold)
next
  case (DpRun i)
  then show "dp_ok s \<Longrightarrow> ?thesis" by (simp add: dp_ok_run)
qed (simp_all add: dp_ok_def dp_handlers)

interpretation docs: page_invariant "dp_step E" dp_start dp_ok
  by unfold_locales (simp add: dp_start_def dp_ok_def url_ok_def, rule dp_ok_step)

section \<open>Where the bytes come from\<close>

text \<open>The server sent \<open>b\<close> as the content of the document \<open>d\<close>.\<close>

definition served :: "'w env \<Rightarrow> (request \<times> fetch_result) list \<Rightarrow> json \<Rightarrow> u8 list \<Rightarrow> bool" where
  "served E tr d b \<longleftrightarrow> (\<exists>q res. (q, Answered res) \<in> set tr \<and> req_method q = js ''GET''
     \<and> req_url q = base E @ js ''/api/documents/'' @ str_field (js ''id'') d @ js ''/content''
     \<and> res_ok res \<and> \<not> broken res \<and> body_bytes res = b)"

lemma served_later: "served E tr d b \<Longrightarrow> served E (tr @ l) d b"
  by (auto simp: served_def)

lemma blob_served:
  assumes "authedBlobUrl E (doc_path d @ js ''/content'') s = (Inr b, s1)"
  shows "served E (traffic s1) d b"
proof -
  obtain x where x: "traffic s1 = traffic s @ [(blob_request E (doc_path d @ js ''/content'') (getToken E s), x)]"
    "Inr b = (case x of Rejected \<Rightarrow> Inl NetErr | Answered res \<Rightarrow> if \<not> res_ok res then Inl (ApiErr (status res) load_failed)
        else if broken res then Inl NetErr else Inr (body_bytes res))"
    using blob_is_not_retried [of E "doc_path d @ js ''/content''" s] by (auto simp: assms simp del: js_Cons)
  then obtain res where "x = Answered res" "res_ok res" "\<not> broken res" "body_bytes res = b"
    by (auto split: fetch_result.splits if_splits)
  then show ?thesis unfolding served_def using x(1)
    by (intro exI [of _ "blob_request E (doc_path d @ js ''/content'') (getToken E s)"] exI [of _ res])
      (simp add: blob_request_def doc_path_def del: js_Cons)
qed

lemma blob_state:
  obtains r s1 a b l where "authedBlobUrl E path s = (r, s1)" "s1 = s\<lparr>storage := a, world := b, traffic := traffic s @ l\<rparr>"
proof -
  obtain r a b c where m: "authedBlobUrl E path s = (r, s\<lparr>storage := a, world := b, traffic := c\<rparr>)"
    using touches_blob by (rule touches_netE)
  obtain x where "c = traffic s @ x" using blob_is_not_retried [of E path s] by (auto simp: m)
  then show ?thesis using that m by blast
qed

text \<open>Documents that were opened (\<open>W\<close>), and what their URLs show.\<close>

definition from_ok :: "(json \<Rightarrow> bool) \<Rightarrow> 'w env \<Rightarrow> ('w, 'm) docs_page_scheme \<Rightarrow> bool" where
  "from_ok W E s \<longleftrightarrow> (\<forall>d. DpBlob d \<in> set (dp_tasks s) \<longrightarrow> W d)
     \<and> (\<forall>d u. DpText d u \<in> set (dp_tasks s) \<longrightarrow> W d \<and> textual (str_field (js ''mime_type'') d)
         \<and> (\<forall>b. dp_urls s u = Some b \<longrightarrow> served E (traffic s) d b))
     \<and> (\<forall>p. dp_preview s = Some p \<longrightarrow> W (pv_doc p) \<and> (pv_text p = None \<longleftrightarrow> \<not> textual (str_field (js ''mime_type'') (pv_doc p)))
         \<and> (\<forall>b. dp_urls s (pv_url p) = Some b \<longrightarrow> served E (traffic s) (pv_doc p) b))"

lemma from_okD:
  assumes "from_ok W E s"
  shows "DpBlob d \<in> set (dp_tasks s) \<Longrightarrow> W d" "DpText d u \<in> set (dp_tasks s) \<Longrightarrow> W d"
    "DpText d u \<in> set (dp_tasks s) \<Longrightarrow> textual (str_field (js ''mime_type'') d)"
    "DpText d u \<in> set (dp_tasks s) \<Longrightarrow> dp_urls s u = Some b \<Longrightarrow> served E (traffic s) d b"
    "dp_preview s = Some p \<Longrightarrow> W (pv_doc p)"
    "dp_preview s = Some p \<Longrightarrow> pv_text p = None \<longleftrightarrow> \<not> textual (str_field (js ''mime_type'') (pv_doc p))"
    "dp_preview s = Some p \<Longrightarrow> dp_urls s (pv_url p) = Some b \<Longrightarrow> served E (traffic s) (pv_doc p) b"
  using assms unfolding from_ok_def by blast+

text \<open>What keeps it: fewer tasks, fewer URLs, the same preview or none, more exchanges.\<close>

lemma from_ok_less:
  assumes "from_ok W E s" and "\<And>d. DpBlob d \<in> set (dp_tasks s') \<Longrightarrow> DpBlob d \<in> set (dp_tasks s) \<or> W' d"
    and "\<And>d u. DpText d u \<in> set (dp_tasks s') \<Longrightarrow> DpText d u \<in> set (dp_tasks s)"
    and "dp_preview s' = dp_preview s \<or> dp_preview s' = None" and "dp_urls s' \<subseteq>\<^sub>m dp_urls s"
    and "traffic s' = traffic s @ l" and "\<And>d. W d \<Longrightarrow> W' d"
  shows "from_ok W' E s'"
proof -
  have later: "served E (traffic s) d b \<Longrightarrow> served E (traffic s') d b" for d b
    using served_later assms(6) by simp
  have urls: "dp_urls s' u = Some b \<Longrightarrow> dp_urls s u = Some b" for u b
    using assms(5) by (metis map_le_def domI)
  have pv: "dp_preview s' = Some p \<Longrightarrow> dp_preview s = Some p" for p
    using assms(4) by auto
  note D = from_okD [OF assms(1)]
  show ?thesis unfolding from_ok_def
  proof (intro conjI allI impI)
    show "DpBlob d \<in> set (dp_tasks s') \<Longrightarrow> W' d" for d using assms(2,7) D(1) by blast
    show "DpText d u \<in> set (dp_tasks s') \<Longrightarrow> W' d" for d u using assms(3,7) D(2) by blast
    show "DpText d u \<in> set (dp_tasks s') \<Longrightarrow> textual (str_field (js ''mime_type'') d)" for d u
      using assms(3) D(3) by blast
    show "DpText d u \<in> set (dp_tasks s') \<Longrightarrow> dp_urls s' u = Some b \<Longrightarrow> served E (traffic s') d b" for d u b
      using assms(3) D(4) urls later by blast
  qed (use pv assms(7) D(5,6,7) urls later in blast)+
qed

lemma dp_ok_urls:
  assumes "dp_ok s"
  shows "DpText d u \<in> set (dp_tasks s) \<Longrightarrow> u \<noteq> dp_next s \<and> dp_urls s u \<noteq> None"
    and "dp_preview s = Some p \<Longrightarrow> pv_url p \<noteq> dp_next s"
proof -
  show "DpText d u \<in> set (dp_tasks s) \<Longrightarrow> u \<noteq> dp_next s \<and> dp_urls s u \<noteq> None"
  proof -
    assume "DpText d u \<in> set (dp_tasks s)"
    then have "u \<in> set (concat (map text_urls (dp_tasks s)))" by force
    then show ?thesis using assms unfolding dp_ok_def url_ok_def by blast
  qed
  show "dp_preview s = Some p \<Longrightarrow> pv_url p \<noteq> dp_next s"
    using assms url_ok_fresh unfolding dp_ok_def by blast
qed

lemma got_blob_from:
  assumes "from_ok W E s" and "W d" and "served E (traffic s) d b"
    and "\<And>d u. DpText d u \<in> set (dp_tasks s) \<Longrightarrow> u \<noteq> dp_next s" and "\<And>p. dp_preview s = Some p \<Longrightarrow> pv_url p \<noteq> dp_next s"
  shows "from_ok W E (got_blob d b s)"
  using assms unfolding from_ok_def
  by (cases "textual (str_field (js ''mime_type'') d)")
    (auto simp: got_blob_def dp_spawn_def show_preview_def Let_def simp del: js_Cons)

lemma from_ok_run:
  assumes "from_ok W E s" and "dp_ok s" and "i < length (dp_tasks s)"
  shows "from_ok W E (dp_run E (dp_tasks s ! i) (s\<lparr>dp_tasks := remove_at i (dp_tasks s)\<rparr>))"
proof -
  let ?t = "dp_tasks s ! i" and ?s = "s\<lparr>dp_tasks := remove_at i (dp_tasks s)\<rparr>"
  have any: "sends (\<lambda>_. True) (api E path opts retry)" for path opts retry
    by (auto intro: sends_api)
  have sub: "x \<in> set (remove_at i (dp_tasks s)) \<Longrightarrow> x \<in> set (dp_tasks s)" for x
    using set_remove_at [of i "dp_tasks s"] by auto
  have mine: "?t \<in> set (dp_tasks s)" using assms(3) by simp
  note keep = from_ok_less [OF assms(1), where W' = W]
  note rules = settle_sends [where P = "from_ok W E" and Q = "\<lambda>_. True", OF api.touches any]
  show ?thesis
  proof (cases ?t)
    case (DpBlob d)
    have "W d" using assms(1) mine unfolding DpBlob from_ok_def by blast
    obtain r s1 a b l where r: "authedBlobUrl E (doc_path d @ js ''/content'') ?s = (r, s1)"
      "s1 = ?s\<lparr>storage := a, world := b, traffic := traffic s @ l\<rparr>"
      by (rule blob_state [of E "doc_path d @ js ''/content''" ?s]) auto
    show ?thesis
    proof (cases r)
      case (Inl e)
      then show ?thesis unfolding DpBlob dp_run.simps settle_def r(1)
        by (auto intro!: keep simp: r(2) dp_fail_def sub)
    next
      case (Inr bytes)
      have "from_ok W E (got_blob d bytes s1)"
        using \<open>W d\<close> blob_served [OF r(1) [unfolded Inr]] dp_ok_urls [OF assms(2)]
        by (intro got_blob_from) (auto simp: r(2) sub intro!: keep dest!: sub)
      then show ?thesis unfolding DpBlob dp_run.simps settle_def r(1) by (simp add: Inr)
    qed
  next
    case (DpText d u)
    have own: "W d" "textual (str_field (js ''mime_type'') d)" "\<And>b. dp_urls s u = Some b \<Longrightarrow> served E (traffic s) d b"
      using from_okD [OF assms(1)] mine unfolding DpText by blast+
    show ?thesis
    proof (cases "dp_urls s u")
      case None
      then show ?thesis unfolding DpText by (auto intro!: keep simp: dp_fail_def sub)
    next
      case (Some b)
      have "from_ok W E ?s" by (rule keep) (auto simp: sub)
      then show ?thesis unfolding DpText from_ok_def using own Some by (simp add: show_preview_def del: js_Cons)
    qed
  next
    case (DpUpload fs)
    then show ?thesis
      by (cases fs) (simp_all only: dp_run.simps, (rule rules; rule keep; auto simp: dp_handlers sub)+)
  next
    case (DpDelete d p)
    then show ?thesis unfolding DpDelete dp_run.simps
      by (intro rules; cases p; intro keep; auto simp: dp_handlers sub map_le_def split: if_splits)
  qed (simp_all only: dp_run.simps, (rule rules; rule keep; auto simp: dp_handlers sub)+)
qed

lemma from_ok_step:
  assumes "from_ok W E s" and "dp_ok s" and "\<And>d. W d \<or> e = DpOpen d \<Longrightarrow> W' d"
  shows "from_ok W' E (dp_step E e s)"
proof -
  have wider: "from_ok W' E s" by (rule from_ok_less [OF assms(1)]) (auto simp: assms(3))
  show ?thesis
  proof (cases e)
    case DpClose
    then show ?thesis
      by (cases "dp_preview s") (auto simp: dp_handlers map_le_def intro!: from_ok_less [OF wider])
  next
    case (DpRun i)
    then show ?thesis using from_ok_run [OF wider assms(2)] wider by simp
  qed (auto simp: dp_handlers assms(3) intro!: from_ok_less [OF wider])
qed

interpretation sources: run_invariant "dp_step E" dp_start "\<lambda>s0 es s. dp_ok s \<and> from_ok (\<lambda>d. DpOpen d \<in> set es) E s" for E
proof unfold_locales
  fix s :: "('a, 'b) docs_page_scheme"
  assume "dp_start s"
  then show "dp_ok s \<and> from_ok (\<lambda>d. DpOpen d \<in> set []) E s"
    by (simp add: docs.ok_start) (simp add: dp_start_def from_ok_def)
next
  fix s0 :: "('a, 'b) docs_page_scheme" and es e
  let ?s = "fold (dp_step E) es s0"
  assume ok: "dp_ok ?s \<and> from_ok (\<lambda>d. DpOpen d \<in> set es) E ?s"
  have "from_ok (\<lambda>d. DpOpen d \<in> set (es @ [e])) E (dp_step E e ?s)"
    by (rule from_ok_step [where W = "\<lambda>d. DpOpen d \<in> set es"]) (use ok in auto)
  then show "dp_ok (dp_step E e ?s) \<and> from_ok (\<lambda>d. DpOpen d \<in> set (es @ [e])) E (dp_step E e ?s)"
    using ok by (simp add: dp_ok_step)
qed

section \<open>Properties\<close>

text \<open>C30. After any events, whatever the order of opening, closing, deleting and answers: the preview on
  the screen is of a document that was opened; its object URL is live and shows bytes that the server
  sent for the content of this very document; a text preview, shown exactly for the textual types, is
  their UTF-8 decoding; and a text that is still to be read is read from a live URL.\<close>

theorem preview_url_is_live:
  assumes "dp_start s0" and "s = fold (dp_step E) es s0"
  shows "(\<forall>p. dp_preview s = Some p \<longrightarrow> DpOpen (pv_doc p) \<in> set es \<and> (\<exists>b. dp_urls s (pv_url p) = Some b
        \<and> served E (traffic s) (pv_doc p) b
        \<and> pv_text p = (if textual (str_field (js ''mime_type'') (pv_doc p)) then Some (utf8_text b) else None)))
    \<and> (\<forall>d u. DpText d u \<in> set (dp_tasks s) \<longrightarrow> dp_urls s u \<noteq> None)"
proof -
  have ok: "dp_ok s" and src: "from_ok (\<lambda>d. DpOpen d \<in> set es) E s"
    using sources.ok_after [OF assms(1), of E es] by (simp_all add: assms(2))
  have "\<exists>b. dp_urls s (pv_url p) = Some b \<and> (pv_text p = None \<or> pv_text p = Some (utf8_text b))" if "dp_preview s = Some p" for p
    using ok that unfolding dp_ok_def url_ok_def by blast
  then show ?thesis using from_okD(5-7) [OF src] dp_ok_urls(1) [OF ok] by (fastforce split: if_split)
qed

definition demo_doc_json :: json where
  "demo_doc_json = JObj [(js ''id'', JStr (js ''1'')), (js ''mime_type'', JStr (js ''text/plain''))]"

definition demo_docs :: "nat docs_page" where
  "demo_docs = \<lparr>storage = Map.empty, world = 0, traffic = [], dp_docs = [], dp_error = [], dp_uploading = False,
     dp_preview = None, dp_urls = Map.empty, dp_next = 0, dp_tasks = []\<rparr>"

definition demo_blob :: response where
  "demo_blob = \<lparr>status = 200, status_text = [], chunks = Some [[0x68], [0x69]], broken = False\<rparr>"

definition demo_opening :: "dp_event list" where
  "demo_opening = [DpOpen demo_doc_json, DpRun 0, DpRun 0]"

definition demo_shown :: "nat docs_page" where
  "demo_shown = fold (dp_step (demo_env [Answered demo_blob])) demo_opening demo_docs"

lemma demo_blob_read: "authedBlobUrl (demo_env [Answered demo_blob]) path (demo_docs\<lparr>dp_tasks := ts\<rparr>) =
  (Inr [0x68, 0x69], demo_docs\<lparr>dp_tasks := ts, world := 1, traffic := [(blob_request (demo_env [Answered demo_blob]) path None, Answered demo_blob)]\<rparr>)"
  by (simp add: authedBlobUrl_def eff_defs do_fetch_def demo_env_def demo_docs_def demo_blob_def res_ok_def body_bytes_def
    getToken_def)

lemma demo_shown_preview: "dp_preview demo_shown = Some \<lparr>pv_doc = demo_doc_json, pv_url = 0, pv_text = Some (utf8_text [0x68, 0x69])\<rparr>"
proof -
  have t: "textual (str_field (js ''mime_type'') demo_doc_json)" by code_simp
  have e: "demo_docs\<lparr>dp_error := [], dp_tasks := ts\<rparr> = demo_docs\<lparr>dp_tasks := ts\<rparr>" for ts by (simp add: demo_docs_def)
  have n: "dp_tasks demo_docs = []" "dp_urls demo_docs = Map.empty" "dp_next demo_docs = 0" by (simp_all add: demo_docs_def)
  show ?thesis
    by (simp add: demo_shown_def demo_opening_def dp_handlers e n settle_def demo_blob_read remove_at_def t Let_def del: js_Cons)
qed

theorem preview_url_is_live_witness:
  "\<exists>b. dp_urls demo_shown 0 = Some b \<and> served (demo_env [Answered demo_blob]) (traffic demo_shown) demo_doc_json b
     \<and> pv_text (the (dp_preview demo_shown)) = Some (utf8_text b)"
proof -
  have t: "textual (str_field (js ''mime_type'') demo_doc_json)" by code_simp
  have "dp_start demo_docs" by (simp add: dp_start_def demo_docs_def)
  from preview_url_is_live [OF this demo_shown_def] show ?thesis by (simp add: demo_shown_preview t del: js_Cons)
qed

text \<open>
  What the page does not keep: a preview that is replaced by another, and not closed, leaves its
  URL live; nothing refers to it any more, so it is never revoked.
\<close>

lemma replaced_preview_leaks:
  assumes "dp_ok s" and "dp_preview s = Some p" and "\<not> textual (str_field (js ''mime_type'') d)"
  shows "dp_urls (got_blob d b s) (pv_url p) \<noteq> None \<and> (\<exists>q. dp_preview (got_blob d b s) = Some q \<and> pv_url q \<noteq> pv_url p)"
proof -
  have "dp_urls s (pv_url p) \<noteq> None" "pv_url p \<noteq> dp_next s"
    using assms(1,2) by (auto simp: dp_ok_def url_ok_def)
  then show ?thesis using assms(3) by (simp add: got_blob_def Let_def show_preview_def)
qed

lemma tenths_bounds: "0 < d \<Longrightarrow> 2 * d * tenths n d \<le> 20 * n + d \<and> 20 * n + d < 2 * d + 2 * d * tenths n d"
  using times_div_less_eq_dividend [of "2 * d" "20 * n + d"] dividend_less_times_div [of "2 * d" "20 * n + d"]
  by (simp add: tenths_def)

lemma digits_cut:
  assumes "\<not> is_digit c"
  shows "takeWhile is_digit (dec_nat n @ c # u) = dec_nat n" "dropWhile is_digit (dec_nat n @ c # u) = c # u"
  using assms dec_nat_digits [of n] by (simp_all add: takeWhile_all_append dropWhile_all_append)

lemma digits_inject:
  assumes "dec_nat m @ c # u = dec_nat n @ c' # v" and "\<not> is_digit c" "\<not> is_digit c'"
  shows "m = n \<and> c = c' \<and> u = v"
proof -
  have "takeWhile is_digit (dec_nat m @ c # u) = takeWhile is_digit (dec_nat n @ c' # v)"
    and "dropWhile is_digit (dec_nat m @ c # u) = dropWhile is_digit (dec_nat n @ c' # v)"
    by (rule arg_cong [OF assms(1)])+
  then show ?thesis unfolding digits_cut [OF assms(2)] digits_cut [OF assms(3)] by simp
qed

lemma not_digits: "\<not> is_digit 0x2E" "\<not> is_digit 0x20"
  by (simp_all add: is_digit_def)

lemma fixed1_inject: "fixed1 m d @ 0x20 # u = fixed1 n e @ 0x20 # v \<Longrightarrow> tenths m d = tenths n e \<and> u = v"
proof -
  assume a: "fixed1 m d @ 0x20 # u = fixed1 n e @ 0x20 # v"
  then have "dec_nat (tenths m d div 10) @ 0x2E # (dec_nat (tenths m d mod 10) @ 0x20 # u)
    = dec_nat (tenths n e div 10) @ 0x2E # (dec_nat (tenths n e mod 10) @ 0x20 # v)"
    by (simp add: fixed1_def)
  from digits_inject [OF this not_digits(1) not_digits(1)]
  have q: "tenths m d div 10 = tenths n e div 10"
    and r: "dec_nat (tenths m d mod 10) @ 0x20 # u = dec_nat (tenths n e mod 10) @ 0x20 # v"
    by auto
  from digits_inject [OF r not_digits(2) not_digits(2)]
  have "tenths m d mod 10 = tenths n e mod 10" "u = v" by auto
  have "tenths m d = tenths m d div 10 * 10 + tenths m d mod 10" by (rule div_mult_mod_eq [symmetric])
  also have "\<dots> = tenths n e div 10 * 10 + tenths n e mod 10" unfolding q \<open>tenths m d mod 10 = _\<close> ..
  also have "\<dots> = tenths n e" by (rule div_mult_mod_eq)
  finally show ?thesis using \<open>u = v\<close> ..
qed

lemma tenths_close:
  assumes "tenths m d = tenths n d" "0 < d"
  shows "10 * (max m n - min m n) < d"
proof -
  obtain x where "x \<le> 20 * m + d" "20 * m + d < 2 * d + x" "x \<le> 20 * n + d" "20 * n + d < 2 * d + x"
    using tenths_bounds [OF assms(2), of m] tenths_bounds [OF assms(2), of n] assms(1) by metis
  then show ?thesis unfolding max_def min_def by (simp; linarith)
qed

lemma byte_not_fixed: "dec_nat x @ 0x20 # u \<noteq> fixed1 y d @ v"
proof
  assume "dec_nat x @ 0x20 # u = fixed1 y d @ v"
  then have "dec_nat x @ 0x20 # u = dec_nat (tenths y d div 10) @ 0x2E # (dec_nat (tenths y d mod 10) @ v)"
    by (simp add: fixed1_def)
  from digits_inject [OF this not_digits(2) not_digits(1)] show False by simp
qed

text \<open>The three forms of a size.\<close>

lemma humanSize_forms:
  "n < 1024 \<Longrightarrow> humanSize n = dec_nat n @ 0x20 # js ''B''"
  "\<not> n < 1024 \<Longrightarrow> n < 1048576 \<Longrightarrow> humanSize n = fixed1 n 1024 @ 0x20 # js ''KB''"
  "\<not> n < 1048576 \<Longrightarrow> humanSize n = fixed1 n 1048576 @ 0x20 # js ''MB''"
  by (simp_all add: humanSize_def)

lemma unit_names: "js ''KB'' \<noteq> js ''MB''" "js ''MB'' \<noteq> js ''KB''"
  by simp_all

lemma same_size_cases:
  assumes "humanSize m = humanSize n"
  obtains "n < 1024" "m = n" | "\<not> n < 1024" "n < 1048576" "tenths m 1024 = tenths n 1024"
    | "\<not> n < 1048576" "tenths m 1048576 = tenths n 1048576"
proof -
  note form = humanSize_forms
  show thesis
  proof (cases "n < 1024")
    case True
    have "m < 1024" using assms form(1) [OF True] form(2,3) [of m] byte_not_fixed by metis
    then have "dec_nat m @ 0x20 # js ''B'' = dec_nat n @ 0x20 # js ''B''" using assms form(1) True by metis
    then show ?thesis using digits_inject [OF _ not_digits(2) not_digits(2)] True that(1) by blast
  next
    case False
    have m: "\<not> m < 1024" using assms form(1) [of m] form(2,3) [of n] False byte_not_fixed by metis
    show ?thesis
    proof (cases "n < 1048576")
      case True
      have "m < 1048576"
        using assms form(2) [OF False True] form(3) [of m] fixed1_inject unit_names(2) by metis
      then have "fixed1 m 1024 @ 0x20 # js ''KB'' = fixed1 n 1024 @ 0x20 # js ''KB''"
        using assms form(2) [OF False True] form(2) [OF m] by metis
      then show ?thesis using fixed1_inject False True that(2) by blast
    next
      case mega: False
      have "\<not> m < 1048576"
        using assms form(3) [OF mega] form(2) [OF m] fixed1_inject unit_names(1) by metis
      then have "fixed1 m 1048576 @ 0x20 # js ''MB'' = fixed1 n 1048576 @ 0x20 # js ''MB''"
        using assms form(3) [OF mega] form(3) [of m] by metis
      then show ?thesis using fixed1_inject mega that(3) by blast
    qed
  qed
qed

text \<open>The size a document shows is right to the last digit: sizes that show as the same text are
  equal below 1024 bytes, less than a tenth of a kilobyte apart below a megabyte, and less than a tenth
  of a megabyte apart above.\<close>

lemma same_size_text:
  assumes "humanSize m = humanSize n"
  shows "(n < 1024 \<longrightarrow> m = n) \<and> (n < 1048576 \<longrightarrow> 10 * (max m n - min m n) < 1024)
    \<and> 10 * (max m n - min m n) < 1048576"
proof -
  show ?thesis
    using tenths_close [of m 1024 n] tenths_close [of m 1048576 n]
    by (cases rule: same_size_cases [OF assms]) auto
qed

lemma same_size_text_witness:
  "humanSize 2000 = js ''2.0 KB'' \<and> 10 * (max 2000 2020 - min 2000 (2020 :: nat)) < 1024"
proof -
  have e: "humanSize 2000 = humanSize 2020" "humanSize 2000 = js ''2.0 KB''"
    by (simp_all add: humanSize_def fixed1_def tenths_def dec_nat.simps digit_def)
  then show ?thesis using same_size_text [OF e(1)] by simp
qed

end
