(* ===== verification/Charts.thy ===== *)
theory Charts
  imports Complex_Main Page_Kit
begin

text \<open>
  The charts of the dashboard, \<open>panel/components/charts.tsx\<close>. Coordinates are computed over the rationals: the
  panel's floating point numbers round each of these results by a relative error of about
  \<open>10^-16\<close>, far below the tenth of a pixel that is drawn.
\<close>

section \<open>Line chart\<close>

definition chart_max :: "rat list \<Rightarrow> rat" where
  "chart_max ys = foldl max 1 ys"

definition WIDTH :: rat where "WIDTH = 600"
definition PAD :: rat where "PAD = 24"

definition line_point :: "rat \<Rightarrow> rat list \<Rightarrow> nat \<Rightarrow> rat \<times> rat" where
  "line_point height ys i =
     (let stepX = (if length ys > 1 then (WIDTH - PAD * 2) / of_nat (length ys - 1) else 0) in
      (PAD + of_nat i * stepX, height - PAD - (ys ! i / chart_max ys) * (height - PAD * 2)))"

definition line_points :: "rat \<Rightarrow> rat list \<Rightarrow> (rat \<times> rat) list" where
  "line_points height ys = map (line_point height ys) [0..<length ys]"

text \<open>\<open>toFixed(1)\<close> of a number that is not negative, and the path attributes.\<close>

definition to_fixed1 :: "rat \<Rightarrow> jstr" where
  "to_fixed1 x = (let t = nat \<lfloor>10 * x + 1 / 2\<rfloor> in dec_nat (t div 10) @ js ''.'' @ dec_nat (t mod 10))"

definition path_step :: "nat \<Rightarrow> rat \<times> rat \<Rightarrow> jstr" where
  "path_step i p = (if i = 0 then js ''M'' else js ''L'') @ to_fixed1 (fst p) @ js '','' @ to_fixed1 (snd p)"

definition line_path :: "(rat \<times> rat) list \<Rightarrow> jstr" where
  "line_path pts = js_join (js '' '') (map (\<lambda>(i, p). path_step i p) (enumerate 0 pts))"

definition area_path :: "nat \<Rightarrow> (rat \<times> rat) list \<Rightarrow> jstr" where
  "area_path height pts = (if pts = [] then []
     else line_path pts @ js '' L'' @ to_fixed1 (fst (last pts)) @ js '','' @ dec_int (int height - 24)
       @ js '' L24,'' @ dec_int (int height - 24) @ js '' Z'')"

section \<open>Bars and donut\<close>

definition bar_widths :: "rat list \<Rightarrow> rat list" where
  "bar_widths vs = map (\<lambda>v. v / chart_max vs * 100) vs"

text \<open>\<open>Math.PI\<close> is this double; \<open>c = 2 * Math.PI * 60\<close>.\<close>

definition MATH_PI :: rat where "MATH_PI = 884279719003555 / 281474976710656"

definition CIRCUMFERENCE :: rat where "CIRCUMFERENCE = 2 * MATH_PI * 60"

definition donut_total :: "rat list \<Rightarrow> rat" where
  "donut_total vs = (let t = foldl (+) 0 vs in if t = 0 then 1 else t)"

text \<open>Each segment with its offset, its dash and its gap; the loop adds up the dashes.\<close>

fun donut_segments :: "rat \<Rightarrow> rat \<Rightarrow> rat list \<Rightarrow> (rat \<times> rat \<times> rat) list" where
  "donut_segments tot offset [] = []"
| "donut_segments tot offset (v # vs) = (let dash = v / tot * CIRCUMFERENCE in
     (offset, dash, CIRCUMFERENCE - dash) # donut_segments tot (offset + dash) vs)"

definition donut :: "rat list \<Rightarrow> (rat \<times> rat \<times> rat) list" where
  "donut vs = donut_segments (donut_total vs) 0 vs"

text \<open>\<open>Math.round\<close>: a half goes up.\<close>

definition donut_percents :: "rat list \<Rightarrow> int list" where
  "donut_percents vs = map (\<lambda>v. \<lfloor>v / donut_total vs * 100 + 1 / 2\<rfloor>) vs"

section \<open>Facts on the charts\<close>

lemma foldl_max: "(z :: rat) \<le> foldl max z ys \<and> (\<forall>y \<in> set ys. y \<le> foldl max z ys) \<and> foldl max z ys \<in> insert z (set ys)"
proof (induction ys arbitrary: z)
  case (Cons y ys)
  show ?case using Cons.IH [of "max z y"] by (auto simp: max_def split: if_splits)
qed simp

lemma chart_max_bounds: "1 \<le> chart_max ys" "y \<in> set ys \<Longrightarrow> y \<le> chart_max ys" "chart_max ys \<in> insert 1 (set ys)"
  using foldl_max [where z = 1 and ys = ys] by (simp_all add: chart_max_def)

lemma share_bounds: "0 \<le> y \<Longrightarrow> y \<in> set ys \<Longrightarrow> 0 \<le> y / chart_max ys \<and> y / chart_max ys \<le> 1"
  using chart_max_bounds(1) [of ys] chart_max_bounds(2) [of y ys] by (simp add: divide_le_eq_1)

lemma line_step:
  assumes "i < length ys"
  shows "0 \<le> of_nat i * (if length ys > 1 then 552 / of_nat (length ys - 1) else 0 :: rat)"
    and "of_nat i * (if length ys > 1 then 552 / of_nat (length ys - 1) else 0 :: rat) \<le> 552"
    and "0 < i \<Longrightarrow> i + 1 = length ys \<Longrightarrow> of_nat i * (if length ys > 1 then 552 / of_nat (length ys - 1) else 0 :: rat) = 552"
proof -
  show "of_nat i * (if length ys > 1 then 552 / of_nat (length ys - 1) else 0 :: rat) \<le> 552"
  proof (cases "length ys > 1")
    case True
    then have "of_nat i \<le> (of_nat (length ys - 1) :: rat)" "(0 :: rat) < of_nat (length ys - 1)"
      using assms by simp_all
    then show ?thesis using True by (simp add: pos_divide_le_eq)
  qed simp
next
  assume "0 < i" "i + 1 = length ys"
  then show "of_nat i * (if length ys > 1 then 552 / of_nat (length ys - 1) else 0 :: rat) = 552"
    by (simp flip: \<open>i + 1 = length ys\<close>)
qed simp_all

text \<open>C31. A line chart stays in its box: for counts that are not negative every point lies between
  the paddings, at equal distances from the left edge to the right one; and exactly the points of the
  largest count, if it is at least one, touch the top.\<close>

theorem line_chart_in_box:
  assumes "\<forall>y \<in> set ys. 0 \<le> y" and "48 < height" and "i < length ys"
  shows "case line_points height ys ! i of (x, y) \<Rightarrow> 24 \<le> x \<and> x \<le> 576 \<and> 24 \<le> y \<and> y \<le> height - 24
      \<and> x = 24 + of_nat i * (if length ys > 1 then 552 / of_nat (length ys - 1) else 0)
      \<and> (i + 1 = length ys \<and> 0 < i \<longrightarrow> x = 576) \<and> (y = 24 \<longleftrightarrow> ys ! i = chart_max ys)"
proof -
  let ?v = "ys ! i / chart_max ys" and ?h = "height - 48"
  have v: "0 \<le> ?v" "?v \<le> 1" using share_bounds [of "ys ! i" ys] assms(1,3) by auto
  have m: "0 < chart_max ys" using chart_max_bounds(1) [of ys] by linarith
  have top: "height - 24 - ?v * ?h - 24 = (1 - ?v) * ?h" by (simp add: left_diff_distrib)
  have "0 \<le> (1 - ?v) * ?h" "0 \<le> ?v * ?h" using v assms(2) by (simp_all only: mult_nonneg_nonneg diff_ge_0_iff_ge less_imp_le)
  then have y: "24 \<le> height - 24 - ?v * ?h" "height - 24 - ?v * ?h \<le> height - 24" using top by linarith+
  have "height - 24 - ?v * ?h = 24 \<longleftrightarrow> (1 - ?v) * ?h = 0" using top by linarith
  also have "\<dots> \<longleftrightarrow> ys ! i = chart_max ys" using assms(2) m by auto
  finally have peak: "height - 24 - ?v * ?h = 24 \<longleftrightarrow> ys ! i = chart_max ys" .
  have "line_points height ys ! i = (24 + of_nat i * (if length ys > 1 then 552 / of_nat (length ys - 1) else 0),
      height - 24 - ?v * ?h)"
    using assms(3) by (simp add: line_points_def line_point_def WIDTH_def PAD_def Let_def)
  then show ?thesis using line_step [OF assms(3)] y peak by simp
qed

theorem line_chart_in_box_witness:
  "snd (line_points 200 [3, 0, 5] ! 2) = 24 \<and> fst (line_points 200 [3, 0, 5] ! 2) = 576"
  using line_chart_in_box [of "[3, 0, 5]" 200 2] by (simp add: chart_max_def split_beta)

lemma foldl_plus: "foldl (+) z vs = z + sum_list (vs :: rat list)"
  by (induction vs arbitrary: z) (simp_all add: add.assoc)

lemma segments_tile:
  "i < length vs \<Longrightarrow> donut_segments t z vs ! i =
     (z + sum_list (take i vs) / t * CIRCUMFERENCE, vs ! i / t * CIRCUMFERENCE, CIRCUMFERENCE - vs ! i / t * CIRCUMFERENCE)"
proof (induction t z vs arbitrary: i rule: donut_segments.induct)
  case (2 t z v vs)
  show ?case
  proof (cases i)
    case (Suc j)
    then show ?thesis using 2 by (simp add: Let_def add_divide_distrib distrib_right)
  qed (simp add: Let_def)
qed simp

lemma length_segments: "length (donut_segments t z vs) = length vs"
  by (induction t z vs rule: donut_segments.induct) (simp_all add: Let_def)

lemma sum_list_le_take: "\<forall>v \<in> set vs. 0 \<le> (v :: rat) \<Longrightarrow> 0 \<le> sum_list (take i vs) \<and> sum_list (take i vs) \<le> sum_list vs"
  by (metis append_take_drop_id in_set_dropD in_set_takeD le_add_same_cancel1 sum_list.append sum_list_nonneg)

lemma rounded_sum:
  "\<bar>of_int (sum_list (map (\<lambda>v. \<lfloor>f v + 1 / 2\<rfloor>) vs)) - sum_list (map f vs)\<bar> \<le> (of_nat (length vs) / 2 :: rat)"
proof (induction vs)
  case (Cons v vs)
  have "of_int \<lfloor>f v + 1 / 2\<rfloor> \<le> f v + 1 / 2" "f v + 1 / 2 < of_int \<lfloor>f v + 1 / 2\<rfloor> + 1"
    using floor_correct [of "f v + 1 / 2"] by (simp_all only: of_int_add of_int_1)
  then have "\<bar>of_int \<lfloor>f v + 1 / 2\<rfloor> - f v\<bar> \<le> 1 / 2" by linarith
  then show ?case using abs_triangle_ineq [of "of_int \<lfloor>f v + 1 / 2\<rfloor> - f v"
      "of_int (sum_list (map (\<lambda>v. \<lfloor>f v + 1 / 2\<rfloor>) vs)) - sum_list (map f vs)"] Cons.IH
    by (simp only: list.map sum_list.Cons of_int_add list.size of_nat_Suc) (simp add: algebra_simps add_divide_distrib)
qed simp

lemma sum_shares: "t \<noteq> 0 \<Longrightarrow> sum_list (map (\<lambda>v. v / t * 100) vs) = sum_list vs / t * (100 :: rat)"
  by (induction vs) (simp_all add: add_divide_distrib distrib_right)

text \<open>C32. The donut is closed: for values that are not negative, and not all zero, each segment starts
  where the one before it ends, the first at the top, the last ends where the first starts, each dash
  and gap fill the circle, and the segment's share is the value's share. The rounded percentages miss
  100 by at most half a percent per segment.\<close>

theorem donut_is_closed:
  assumes "\<forall>v \<in> set vs. 0 \<le> v" and "sum_list vs \<noteq> 0" and "i < length vs"
  shows "case donut vs ! i of (offset, dash, gap) \<Rightarrow> 0 \<le> offset \<and> 0 \<le> dash \<and> offset + dash \<le> CIRCUMFERENCE
      \<and> dash + gap = CIRCUMFERENCE \<and> dash * sum_list vs = vs ! i * CIRCUMFERENCE
      \<and> (i = 0 \<longrightarrow> offset = 0)
      \<and> offset + dash = (if Suc i = length vs then CIRCUMFERENCE else fst (donut vs ! Suc i))
      \<and> \<bar>of_int (sum_list (donut_percents vs)) - 100\<bar> \<le> (of_nat (length vs) / 2 :: rat)"
proof -
  let ?T = "sum_list vs" and ?S = "sum_list (take i vs)" and ?c = CIRCUMFERENCE
  have T: "0 < ?T" using assms(1,2) sum_list_nonneg [of vs] by (simp add: order_less_le)
  have tot: "donut_total vs = ?T" using assms(2) by (simp add: donut_total_def foldl_plus Let_def)
  have c: "0 < ?c" by (simp add: CIRCUMFERENCE_def MATH_PI_def)
  have at: "donut vs ! j = (sum_list (take j vs) / ?T * ?c, vs ! j / ?T * ?c, ?c - vs ! j / ?T * ?c)" if "j < length vs" for j
    using segments_tile [OF that, of ?T 0] by (simp add: donut_def tot)
  have S: "0 \<le> ?S" "0 \<le> vs ! i" using sum_list_le_take [OF assms(1), of i] assms(1,3) by simp_all
  have next_S: "sum_list (take (Suc i) vs) = ?S + vs ! i" using assms(3) by (simp add: take_Suc_conv_app_nth)
  then have le: "?S + vs ! i \<le> ?T" using sum_list_le_take [OF assms(1), of "Suc i"] by simp
  have sum: "?S / ?T * ?c + vs ! i / ?T * ?c = (?S + vs ! i) / ?T * ?c" by (simp add: add_divide_distrib distrib_right)
  have "(?S + vs ! i) / ?T \<le> 1" using le T by simp
  then have bound: "(?S + vs ! i) / ?T * ?c \<le> ?c" using mult_right_mono [of "(?S + vs ! i) / ?T" 1 ?c] c by simp
  have "sum_list (donut_percents vs) = sum_list (map (\<lambda>v. \<lfloor>v / ?T * 100 + 1 / 2\<rfloor>) vs)"
    by (simp add: donut_percents_def tot)
  moreover have "sum_list (map (\<lambda>v. v / ?T * 100) vs) = 100" using T by (subst sum_shares) simp_all
  ultimately have percent: "\<bar>of_int (sum_list (donut_percents vs)) - 100\<bar> \<le> (of_nat (length vs) / 2 :: rat)"
    using rounded_sum [of "\<lambda>v. v / ?T * 100" vs] by simp
  have "(if Suc i = length vs then ?c else fst (donut vs ! Suc i)) = (?S + vs ! i) / ?T * ?c"
  proof (cases "Suc i = length vs")
    case True
    then have "?S + vs ! i = ?T" using next_S by simp
    then show ?thesis using True T by simp
  next
    case False
    then show ?thesis using at [of "Suc i"] next_S assms(3) by simp
  qed
  then show ?thesis using at [OF assms(3)] S T c bound sum percent by simp
qed

theorem donut_is_closed_witness:
  "fst (donut [1, 3] ! 1) = CIRCUMFERENCE / 4 \<and> \<bar>of_int (sum_list (donut_percents [1, 3])) - 100\<bar> \<le> (1 :: rat)"
proof -
  have "fst (donut [1, 3] ! 1) = CIRCUMFERENCE / 4" by (simp add: donut_def donut_total_def Let_def)
  then show ?thesis using donut_is_closed [of "[1, 3]" 1] by (simp add: split_beta)
qed

end
