(* ===== verification/Alerts_Page.thy ===== *)
theory Alerts_Page
  imports Page_Kit
begin

text \<open>
  The page of the policy alerts, \<open>panel/app/(dash)/alerts/page.tsx\<close>: the list with its
  filter and its resolve button as a machine, and the text of an alert with its masked places.
\<close>

section \<open>Masked texts\<close>

definition MASKED :: jstr where "MASKED = js ''[MASKED]''"

datatype piece = Plain jstr | MaskMark

text \<open>\<open>SnippetText\<close>: a mark behind every part but the last.\<close>

definition snippet_pieces :: "jstr \<Rightarrow> piece list" where
  "snippet_pieces t = (let parts = js_split MASKED t in
     concat (map (\<lambda>(i, part). Plain part # (if i + 1 < length parts then [MaskMark] else [])) (enumerate 0 parts)))"

definition COLLAPSE_AT :: nat where "COLLAPSE_AT = 300"

definition is_long :: "json \<Rightarrow> bool" where
  "is_long a \<longleftrightarrow> length (str_field (js ''snippet'') a) > COLLAPSE_AT"

definition display_snippet :: "jstr set \<Rightarrow> json \<Rightarrow> jstr" where
  "display_snippet expanded a = (let t = str_field (js ''snippet'') a in
     if is_long a \<and> str_field (js ''id'') a \<notin> expanded then js_slice 0 COLLAPSE_AT t @ [0x2026] else t)"

section \<open>The page\<close>

text \<open>The waiting continuations; a handler keeps the filter of the render that made it.\<close>

datatype al_task =
    AlLoad bool
  | AlPost jstr bool
  | AlReload bool

record 'w alerts_page = "'w net" +
  al_alerts :: "json list"
  al_only_open :: bool
  al_expanded :: "jstr set"
  al_error :: jstr
  al_tasks :: "al_task list"

definition al_spawn :: "al_task \<Rightarrow> ('w, 'm) alerts_page_scheme \<Rightarrow> ('w, 'm) alerts_page_scheme" where
  "al_spawn t s = s\<lparr>al_tasks := al_tasks s @ [t]\<rparr>"

definition alerts_path :: "bool \<Rightarrow> jstr" where
  "alerts_path only_open = js ''/api/alerts'' @ (if only_open then js ''?resolved=false&limit=200'' else js ''?limit=200'')"

definition resolve_path :: "jstr \<Rightarrow> jstr" where
  "resolve_path i = js ''/api/alerts/'' @ i @ js ''/resolve''"

definition set_alerts :: "jval \<Rightarrow> ('w, 'm) alerts_page_scheme \<Rightarrow> ('w, 'm) alerts_page_scheme" where
  "set_alerts v s = s\<lparr>al_alerts := items_of v\<rparr>"

text \<open>A failure of \<open>resolve\<close> and of the refresh that it starts is caught nowhere.\<close>

fun al_run :: "'w env \<Rightarrow> al_task \<Rightarrow> ('w, 'm) alerts_page_scheme \<Rightarrow> ('w, 'm) alerts_page_scheme" where
  "al_run E (AlLoad b) s = settle (api E (alerts_path b) no_opts True) (\<lambda>e s. s\<lparr>al_error := err_message E e\<rparr>) set_alerts s"
| "al_run E (AlPost i b) s =
     settle (api E (resolve_path i) (just_method (js ''POST'')) True) (\<lambda>_ s. s) (\<lambda>_. al_spawn (AlReload b)) s"
| "al_run E (AlReload b) s = settle (api E (alerts_path b) no_opts True) (\<lambda>_ s. s) set_alerts s"

definition toggleExpand :: "jstr \<Rightarrow> jstr set \<Rightarrow> jstr set" where
  "toggleExpand i x = (if i \<in> x then x - {i} else insert i x)"

datatype al_event =
    AlMount
  | AlFilter bool
  | AlResolve json
  | AlToggle json
  | AlRun nat

text \<open>The buttons exist for alerts of the list: resolve for open ones, expand for long ones.\<close>

fun al_step :: "'w env \<Rightarrow> al_event \<Rightarrow> ('w, 'm) alerts_page_scheme \<Rightarrow> ('w, 'm) alerts_page_scheme" where
  "al_step E AlMount s = al_spawn (AlLoad (al_only_open s)) s"
| "al_step E (AlFilter b) s = (if b = al_only_open s then s else al_spawn (AlLoad b) (s\<lparr>al_only_open := b\<rparr>))"
| "al_step E (AlResolve a) s = (if a \<in> set (al_alerts s) \<and> \<not> bool_field (js ''resolved'') a
     then al_spawn (AlPost (str_field (js ''id'') a) (al_only_open s)) s else s)"
| "al_step E (AlToggle a) s = (if a \<in> set (al_alerts s) \<and> is_long a
     then s\<lparr>al_expanded := toggleExpand (str_field (js ''id'') a) (al_expanded s)\<rparr> else s)"
| "al_step E (AlRun i) s = (if i < length (al_tasks s)
     then al_run E (al_tasks s ! i) (s\<lparr>al_tasks := remove_at i (al_tasks s)\<rparr>) else s)"

section \<open>A row\<close>

definition ACTION_TR :: "(jstr \<times> jstr) list" where
  "ACTION_TR = [(js ''mask'', js ''Maskelendi''), (js ''block'', js ''Blokland'' @ [0x131]),
     (js ''flag'', [0x130, 0x15F] @ js ''aretlendi'')]"

definition action_label :: "jstr \<Rightarrow> jstr" where
  "action_label a = (case map_of ACTION_TR a of None \<Rightarrow> a | Some l \<Rightarrow> l)"

definition conversation_link :: "jstr \<Rightarrow> jstr" where
  "conversation_link i = js ''/conversations?convId='' @ i"

definition expand_text :: "jstr set \<Rightarrow> json \<Rightarrow> jstr" where
  "expand_text expanded a = (if str_field (js ''id'') a \<in> expanded
     then js ''Daha az g'' @ [0xF6] @ js ''ster '' @ [0x25B2]
     else js ''Tamam'' @ [0x131] @ js ''n'' @ [0x131] @ js '' g'' @ [0xF6] @ js ''ster (''
       @ dec_nat (length (str_field (js ''snippet'') a)) @ js '' karakter) '' @ [0x25BC])"

record alert_row =
  ar_badges :: "jstr list"
  ar_rule :: jstr
  ar_action :: jstr
  ar_resolved :: bool
  ar_text :: "piece list"
  ar_expand :: "jstr option"
  ar_user :: "jstr option"
  ar_link :: "jstr option"
  ar_resolve :: bool

definition alert_row_of :: "jstr set \<Rightarrow> json \<Rightarrow> alert_row" where
  "alert_row_of expanded a =
     \<lparr>ar_badges = [str_field (js ''severity'') a, str_field (js ''category'') a],
      ar_rule = str_field (js ''rule_name'') a,
      ar_action = action_label (str_field (js ''action'') a),
      ar_resolved = bool_field (js ''resolved'') a,
      ar_text = snippet_pieces (display_snippet expanded a),
      ar_expand = (if is_long a then Some (expand_text expanded a) else None),
      ar_user = (let u = str_field (js ''user_id'') a in if u = [] then None else Some (js_slice 0 8 u)),
      ar_link = (let c = str_field (js ''conversation_id'') a in if c = [] then None else Some (conversation_link c)),
      ar_resolve = (\<not> bool_field (js ''resolved'') a)\<rparr>"

section \<open>Facts\<close>

fun piece_text :: "piece \<Rightarrow> jstr" where
  "piece_text (Plain t) = t"
| "piece_text MaskMark = MASKED"

lemma enumerate_marks:
  "parts \<noteq> [] \<Longrightarrow> concat (map piece_text (concat (map (\<lambda>(i, part). Plain part # (if i + 1 < n + length parts then [MaskMark] else []))
     (enumerate n parts)))) = js_join MASKED parts"
proof (induction parts arbitrary: n)
  case (Cons p ps)
  then show ?case using Cons.IH [of "Suc n"] by (cases ps) simp_all
qed simp

lemma snippet_pieces_text: "concat (map piece_text (snippet_pieces t)) = t"
  using enumerate_marks [of "js_split MASKED t" 0] js_join_split [of MASKED t]
  by (simp add: snippet_pieces_def MASKED_def Let_def)

lemma snippet_pieces_plain:
  assumes "Plain p \<in> set (snippet_pieces t)"
  shows "\<not> sublist MASKED p"
proof -
  obtain i where "(i, p) \<in> set (enumerate 0 (js_split MASKED t))"
    using assms by (auto simp: snippet_pieces_def Let_def split: if_splits)
  then have "p \<in> snd ` set (enumerate 0 (js_split MASKED t))" by (metis image_eqI snd_conv)
  also have "\<dots> = set (js_split MASKED t)" by (simp flip: set_map)
  finally have "p \<in> set (js_split MASKED t)" .
  moreover have "MASKED \<noteq> []" by (simp add: MASKED_def)
  ultimately show ?thesis by (intro js_split_pieces)
qed

text \<open>C33. What a row shows of an alert: the stored text with a mark in the place of every
  \<open>[MASKED]\<close> and nowhere else; a text of more than 300 units is cut to its first 300 and an
  ellipsis until it is expanded, and only such a text has the button; a second click undoes the
  first.\<close>

theorem alert_text_is_shown:
  "let r = alert_row_of x a; t = str_field (js ''snippet'') a; i = str_field (js ''id'') a in
     concat (map piece_text (ar_text r)) = (if 300 < length t \<and> i \<notin> x then take 300 t @ [0x2026] else t)
     \<and> length (concat (map piece_text (ar_text r))) \<le> (if i \<in> x then length t else 301)
     \<and> \<not> (\<exists>p. Plain p \<in> set (ar_text r) \<and> sublist MASKED p)
     \<and> (ar_expand r \<noteq> None \<longleftrightarrow> 300 < length t)
     \<and> toggleExpand i (toggleExpand i x) = x
     \<and> concat (map piece_text (ar_text (alert_row_of (insert i x) a))) = t"
  by (auto simp: alert_row_of_def Let_def snippet_pieces_text snippet_pieces_plain display_snippet_def is_long_def
      COLLAPSE_AT_def js_slice_0 toggleExpand_def)

text \<open>The cut may go through a mark, which then shows as plain text.\<close>

lemma cut_through_mark:
  "snippet_pieces (display_snippet {} (JObj [(js ''id'', JStr (js ''1'')),
     (js ''snippet'', JStr (replicate 296 0x61 @ MASKED))])) = [Plain (replicate 296 0x61 @ js ''[MAS'' @ [0x2026])]"
proof -
  have "\<not> sublist MASKED (replicate 296 0x61 @ js ''[MAS'' @ [0x2026])"
  proof
    assume "sublist MASKED (replicate 296 0x61 @ js ''[MAS'' @ [0x2026])"
    then have "0x4B \<in> set (replicate 296 0x61 @ js ''[MAS'' @ [0x2026 :: u16])"
      using set_mono_sublist [of MASKED "replicate 296 0x61 @ js ''[MAS'' @ [0x2026]"] by (auto simp: MASKED_def)
    then show False by simp
  qed
  then have "js_split MASKED (replicate 296 0x61 @ js ''[MAS'' @ [0x2026]) = [replicate 296 0x61 @ js ''[MAS'' @ [0x2026]]"
    by (intro js_split_None) (simp add: MASKED_def)
  moreover have "display_snippet {} (JObj [(js ''id'', JStr (js ''1'')), (js ''snippet'', JStr (replicate 296 0x61 @ MASKED))])
      = replicate 296 0x61 @ js ''[MAS'' @ [0x2026]"
    by (simp add: display_snippet_def is_long_def COLLAPSE_AT_def str_field_def MASKED_def js_slice_0)
  ultimately show ?thesis by (simp add: snippet_pieces_def Let_def)
qed

text \<open>
  Two answers that come in the wrong order: after the filter was switched off the list of the
  first request, the open alerts only, may be the one that stays.
\<close>

lemma stale_filter:
  assumes "al_tasks s = [AlLoad True]" and "al_only_open s"
    and "api E (alerts_path False) no_opts True (s\<lparr>al_only_open := False, al_tasks := [AlLoad True]\<rparr>) = (Inr v, s1)"
    and "al_tasks s1 = [AlLoad True]" and "\<not> al_only_open s1"
    and "api E (alerts_path True) no_opts True ((set_alerts v s1)\<lparr>al_tasks := []\<rparr>) = (Inr u, s2)"
    and "\<not> al_only_open s2"
  shows "let t = fold (al_step E) [AlFilter False, AlRun 1, AlRun 0] s in \<not> al_only_open t \<and> al_alerts t = items_of u"
  using assms by (simp add: al_spawn_def settle_def remove_at_def set_alerts_def Let_def)

end
