(* ===== verification/Js_Uri.thy ===== *)
theory Js_Uri
  imports Js_Utf8
begin

text \<open>
  Addresses: \<open>encodeURIComponent\<close>, and the reading of a query, as \<open>URLSearchParams\<close> does it
  and as the server does it with the panel's requests.
\<close>

section \<open>Encoding and decoding\<close>

definition unreserved :: "u16 \<Rightarrow> bool" where
  "unreserved c \<longleftrightarrow> 0x41 \<le> c \<and> c \<le> 0x5A \<or> 0x61 \<le> c \<and> c \<le> 0x7A \<or> is_digit c
     \<or> c = 0x27 \<or> c \<in> set (js ''-_.!~*()'')"

definition upper_hex :: "nat \<Rightarrow> u16" where
  "upper_hex d = (if d < 10 then 0x30 + of_nat d else 0x37 + of_nat d)"

definition byte_code :: "u8 \<Rightarrow> jstr" where
  "byte_code b = (let c = ucast b in
     if unreserved c then [c] else [0x25, upper_hex (unat b div 16), upper_hex (unat b mod 16)])"

text \<open>A lone surrogate is a \<open>URIError\<close>, here \<open>None\<close>.\<close>

definition encodeURIComponent :: "jstr \<Rightarrow> jstr option" where
  "encodeURIComponent s = (if well_formed s then Some (concat (map byte_code (utf8_encode s))) else None)"

definition hex_byte :: "u8 \<Rightarrow> nat option" where
  "hex_byte b = hex_val (ucast b)"

fun pct_bytes :: "u8 list \<Rightarrow> u8 list" where
  "pct_bytes (b # h # l # bs) = (case (hex_byte h, hex_byte l) of
       (Some m, Some n) \<Rightarrow> if b = 0x25 then of_nat (16 * m + n) # pct_bytes bs else b # pct_bytes (h # l # bs)
     | _ \<Rightarrow> b # pct_bytes (h # l # bs))"
| "pct_bytes bs = bs"

definition query_decode :: "jstr \<Rightarrow> jstr" where
  "query_decode s = (let (t, d) = decode_bytes (pct_bytes (utf8_encode (map (\<lambda>c. if c = 0x2B then 0x20 else c) s)))
       (decoder_init\<lparr>bom_seen := True\<rparr>)
     in if needed d = 0 then t else t @ fst (emit_point 0xFFFD d))"

text \<open>The first value of a name in a query without its question mark.\<close>

definition query_pair :: "jstr \<Rightarrow> jstr \<times> jstr" where
  "query_pair p = (case cut_at (js ''='') p of
       Some (k, v) \<Rightarrow> (query_decode k, query_decode v)
     | None \<Rightarrow> (query_decode p, []))"

definition query_get :: "jstr \<Rightarrow> jstr \<Rightarrow> jstr option" where
  "query_get k q = map_of (map query_pair (filter (\<lambda>p. p \<noteq> []) (js_split (js ''&'') q))) k"

section \<open>Round trip\<close>

lemma utf8_ascii: "\<forall>c \<in> set s. c < 0x80 \<Longrightarrow> utf8_encode s = map ucast s"
proof (induction s rule: scalars.induct)
  case (2 c)
  then show ?case by (auto simp: utf8_encode_def utf8_of_def is_high_def is_low_def word_le_nat_alt word_less_nat_alt)
next
  case (3 c d cs)
  then show ?case by (auto simp: utf8_encode_def utf8_of_def is_high_def is_low_def word_le_nat_alt word_less_nat_alt)
qed (simp add: utf8_encode_def)

lemma below_16: "d < 16 \<Longrightarrow> d = 0 \<or> d = 1 \<or> d = 2 \<or> d = 3 \<or> d = 4 \<or> d = 5 \<or> d = 6 \<or> d = 7 \<or> d = 8 \<or> d = 9
    \<or> d = 10 \<or> d = 11 \<or> d = 12 \<or> d = 13 \<or> d = 14 \<or> d = (15 :: nat)"
  by arith

lemma byte_hi: "unat (b :: u8) div 16 < 16" "unat b < 256"
proof -
  show "unat b < 256" using unsigned_less [of b] by simp
  then show "unat b div 16 < 16" by simp
qed

lemma upper_hex_val: "d < 16 \<Longrightarrow> hex_val (upper_hex d) = Some d \<and> upper_hex d < 0x80 \<and> unat (upper_hex d) < 256"
by (drule below_16) (elim disjE; simp add: upper_hex_def hex_val_def)

lemma unreserved_ascii: "unreserved c \<Longrightarrow> c < 0x80"
  by (auto simp: unreserved_def is_digit_def word_le_nat_alt word_less_nat_alt)

lemma byte_code_ascii: "\<forall>c \<in> set (byte_code b). c < 0x80"
  using upper_hex_val [of "unat b div 16"] upper_hex_val [of "unat b mod 16"] byte_hi [of b]
  by (auto simp: byte_code_def Let_def unreserved_ascii)

lemma ucast_ucast_byte: "ucast (ucast (b :: u8) :: u16) = b"
  by (intro bit_word_eqI) (auto simp: bit_simps)

lemma ucast_ucast_ascii: "c < 0x80 \<Longrightarrow> ucast (ucast (c :: u16) :: u8) = c"
proof -
  assume "c < 0x80"
  then have "unat c < 128" by (simp add: word_less_nat_alt)
  then have "unat (ucast (ucast c :: u8) :: u16) = unat c"
    by (simp add: unsigned_ucast_eq unsigned_take_bit_eq take_bit_nat_eq_self)
  then show ?thesis by (rule unsigned_word_eqI)
qed

lemma pct_plain: "b \<noteq> 0x25 \<Longrightarrow> pct_bytes (b # bs) = b # pct_bytes bs"
  by (cases "b # bs" rule: pct_bytes.cases) (auto split: option.split)

lemma pct_byte_code: "pct_bytes (map ucast (byte_code b) @ bs) = b # pct_bytes bs"
proof (cases "unreserved (ucast b)")
  case True
  have "b \<noteq> 0x25" using True by (auto simp: unreserved_def is_digit_def)
  then show ?thesis using True by (simp add: byte_code_def pct_plain ucast_ucast_byte)
next
  case False
  have hex: "hex_byte (ucast (upper_hex d)) = Some d" if "d < 16" for d
    using upper_hex_val [OF that] by (simp add: hex_byte_def ucast_ucast_ascii)
  show ?thesis using False byte_hi [of b] by (simp add: byte_code_def hex)
qed

lemma code_bytes: "utf8_encode (concat (map byte_code bs)) = concat (map (\<lambda>b. map ucast (byte_code b)) bs)"
proof -
  have "\<forall>c \<in> set (concat (map byte_code bs)). c < 0x80" using byte_code_ascii by auto
  then show ?thesis by (simp add: utf8_ascii map_concat comp_def)
qed

lemma pct_code: "pct_bytes (concat (map (\<lambda>b. map ucast (byte_code b)) bs)) = bs"
  by (induction bs) (simp_all add: pct_byte_code)

lemma upper_hex_unreserved: "d < 16 \<Longrightarrow> unreserved (upper_hex d)"
by (drule below_16) (elim disjE; simp add: upper_hex_def unreserved_def is_digit_def)

text \<open>An encoded text holds no unit that a query or a path gives a meaning to.\<close>

lemma encoded_units:
  assumes "encodeURIComponent s = Some e"
  shows "\<forall>c \<in> set e. unreserved c \<or> c = 0x25"
  using assms upper_hex_unreserved byte_hi(1)
  by (auto simp: encodeURIComponent_def byte_code_def Let_def split: if_splits)

lemma plus_free: "0x2B \<notin> set s \<Longrightarrow> map (\<lambda>c. if c = 0x2B then 0x20 else c) s = (s :: jstr)"
  by (induction s) auto

lemma started: "ready (decoder_init\<lparr>bom_seen := True\<rparr>)" "needed decoder_init = 0"
  by (simp_all add: ready_def decoder_init_def)

lemma query_decode_encode:
  assumes "encodeURIComponent s = Some e"
  shows "query_decode e = s"
proof -
  have "0x2B \<notin> set e" using encoded_units [OF assms] by (auto simp: unreserved_def is_digit_def)
  moreover have "well_formed s" "e = concat (map byte_code (utf8_encode s))"
    using assms by (simp_all add: encodeURIComponent_def split: if_splits)
  ultimately show ?thesis
    by (simp add: query_decode_def plus_free code_bytes pct_code decode_encode started)
qed

lemma encode_plain: "\<forall>c \<in> set s. unreserved c \<Longrightarrow> encodeURIComponent s = Some s"
proof -
  assume u: "\<forall>c \<in> set s. unreserved c"
  then have a: "\<forall>c \<in> set s. c < 0x80" using unreserved_ascii by blast
  then have "well_formed s" by (intro bmp_well_formed ascii_bmp)
  moreover have "byte_code (ucast c) = [c]" if "c \<in> set s" for c
    using u a that by (simp add: byte_code_def ucast_ucast_ascii)
  then have "concat (map (\<lambda>c. byte_code (ucast c)) s) = s" by (induction s) simp_all
  ultimately show ?thesis using a
    by (simp add: encodeURIComponent_def utf8_ascii comp_def)
qed

lemma query_get_encoded:
  assumes "encodeURIComponent s = Some e" and "\<forall>c \<in> set k. unreserved c"
  shows "query_get k (k @ js ''='' @ e) = Some s"
proof -
  have e: "\<forall>c \<in> set e. c \<noteq> 0x26 \<and> c \<noteq> 0x3D" and k: "\<forall>c \<in> set k. c \<noteq> 0x26 \<and> c \<noteq> 0x3D"
    using encoded_units [OF assms(1)] assms(2) by (auto simp: unreserved_def is_digit_def)
  have "js_split (js ''&'') (k @ js ''='' @ e) = [k @ js ''='' @ e]"
    using e k by (intro js_split_None) (auto simp: sublist_single)
  moreover have "cut_at (js ''='') (k @ js ''='' @ e) = Some (k, e)"
    using k by (intro cut_at_here) (auto simp: sublist_single)
  moreover have "query_decode k = k" by (intro query_decode_encode encode_plain assms(2))
  ultimately show ?thesis using query_decode_encode [OF assms(1)] by (simp add: query_get_def query_pair_def)
qed

end
