(* ===== verification/Conversations_Page.thy ===== *)
theory Conversations_Page
  imports Alerts_Page Js_Uri
begin

text \<open>
  The page of the administrators that shows every user's conversations,
  \<open>panel/app/(dash)/conversations/page.tsx\<close>, as a machine: the list with its search, the open
  thread, and the conversation that an address names, as the links of the alerts do.
\<close>

section \<open>State\<close>

text \<open>The waiting continuations; the list's keeps the \<open>convId\<close> of the address.\<close>

datatype cv_task =
    CvList "jstr option"
  | CvThread jstr

record 'w convs_page = "'w net" +
  cv_convos :: "json list"
  cv_active :: "jstr option"
  cv_messages :: "json list"
  cv_search :: jstr
  cv_error :: jstr
  cv_tasks :: "cv_task list"

definition cv_spawn :: "cv_task \<Rightarrow> ('w, 'm) convs_page_scheme \<Rightarrow> ('w, 'm) convs_page_scheme" where
  "cv_spawn t s = s\<lparr>cv_tasks := cv_tasks s @ [t]\<rparr>"

section \<open>Operations\<close>

definition open_conv :: "jstr \<Rightarrow> ('w, 'm) convs_page_scheme \<Rightarrow> ('w, 'm) convs_page_scheme" where
  "open_conv i s = cv_spawn (CvThread i) (s\<lparr>cv_active := Some i, cv_error := []\<rparr>)"

definition messages_path :: "jstr \<Rightarrow> jstr" where
  "messages_path i = js ''/api/admin/conversations/'' @ i @ js ''/messages''"

definition cv_fail :: "'w env \<Rightarrow> err \<Rightarrow> ('w, 'm) convs_page_scheme \<Rightarrow> ('w, 'm) convs_page_scheme" where
  "cv_fail E e s = s\<lparr>cv_error := err_message E e\<rparr>"

text \<open>\<open>rows.find(r => r.id === convId)\<close>\<close>

definition has_row :: "jstr \<Rightarrow> json list \<Rightarrow> bool" where
  "has_row i rows \<longleftrightarrow> (\<exists>r \<in> set rows. jprop (js ''id'') r = Some (JStr i))"

definition got_convos :: "jstr option \<Rightarrow> jval \<Rightarrow> ('w, 'm) convs_page_scheme \<Rightarrow> ('w, 'm) convs_page_scheme" where
  "got_convos wanted v s = (let s1 = s\<lparr>cv_convos := items_of v\<rparr> in case wanted of
       None \<Rightarrow> s1
     | Some i \<Rightarrow> if i \<noteq> [] \<and> has_row i (items_of v) then open_conv i s1 else s1)"

fun cv_run :: "'w env \<Rightarrow> cv_task \<Rightarrow> ('w, 'm) convs_page_scheme \<Rightarrow> ('w, 'm) convs_page_scheme" where
  "cv_run E (CvList wanted) s =
     settle (api E (js ''/api/admin/conversations'') no_opts True) (cv_fail E) (got_convos wanted) s"
| "cv_run E (CvThread i) s =
     settle (api E (messages_path i) no_opts True) (cv_fail E) (\<lambda>v s. s\<lparr>cv_messages := items_of v\<rparr>) s"

definition matches_search :: "'w env \<Rightarrow> jstr \<Rightarrow> json \<Rightarrow> bool" where
  "matches_search E q c \<longleftrightarrow> q = []
     \<or> js_includes (to_lower E (str_field (js ''title'') c)) (to_lower E q)
     \<or> js_includes (to_lower E (str_field (js ''user_email'') c)) (to_lower E q)"

definition filtered_convos :: "'w env \<Rightarrow> ('w, 'm) convs_page_scheme \<Rightarrow> json list" where
  "filtered_convos E s = filter (matches_search E (cv_search s)) (cv_convos s)"

definition active_convo :: "('w, 'm) convs_page_scheme \<Rightarrow> json option" where
  "active_convo s = List.find (\<lambda>c. map_option JStr (cv_active s) = jprop (js ''id'') c \<and> cv_active s \<noteq> None) (cv_convos s)"

text \<open>The events; the address is the query behind its question mark.\<close>

datatype cv_event =
    CvMount jstr
  | CvSearch jstr
  | CvOpen json
  | CvRun nat

fun cv_step :: "'w env \<Rightarrow> cv_event \<Rightarrow> ('w, 'm) convs_page_scheme \<Rightarrow> ('w, 'm) convs_page_scheme" where
  "cv_step E (CvMount q) s = cv_spawn (CvList (query_get (js ''convId'') q)) s"
| "cv_step E (CvSearch t) s = s\<lparr>cv_search := t\<rparr>"
| "cv_step E (CvOpen c) s = (if c \<in> set (filtered_convos E s) then open_conv (str_field (js ''id'') c) s else s)"
| "cv_step E (CvRun i) s = (if i < length (cv_tasks s)
     then cv_run E (cv_tasks s ! i) (s\<lparr>cv_tasks := remove_at i (cv_tasks s)\<rparr>) else s)"

section \<open>The view\<close>

definition or_dash :: "jstr \<Rightarrow> jstr" where
  "or_dash t = (if t = [] then [0x2014] else t)"

definition tokens_note :: "json \<Rightarrow> jstr option" where
  "tokens_note m = (case jprop (js ''tokens'') m of
       Some (JInt n) \<Rightarrow> if n > 0 then Some (dec_int n @ js '' tok'') else None
     | _ \<Rightarrow> None)"

record convs_view =
  vw_list :: "(jstr \<times> jstr \<times> bool) list" \<comment> \<open>title, user, highlighted\<close>
  vw_header :: "(jstr \<times> jstr) option" \<comment> \<open>title, user and model\<close>
  vw_error :: "jstr option"
  vw_bubbles :: "(bool \<times> jstr \<times> jstr option) list" \<comment> \<open>on the user's side, text, note on the tokens\<close>

definition convs_view_of :: "'w env \<Rightarrow> ('w, 'm) convs_page_scheme \<Rightarrow> convs_view" where
  "convs_view_of E s =
     \<lparr>vw_list = map (\<lambda>c. (or_dash (str_field (js ''title'') c), str_field (js ''user_email'') c,
         cv_active s = Some (str_field (js ''id'') c))) (filtered_convos E s),
      vw_header = map_option (\<lambda>c. (or_dash (str_field (js ''title'') c),
         str_field (js ''user_email'') c @ [0x20, 0xB7, 0x20] @ str_field (js ''model'') c)) (active_convo s),
      vw_error = (if cv_error s = [] then None else Some (cv_error s)),
      vw_bubbles = map (\<lambda>m. (str_field (js ''role'') m = js ''user'', str_field (js ''content'') m, tokens_note m))
        (cv_messages s)\<rparr>"

section \<open>The invariant\<close>

text \<open>
  A thread is requested only for a conversation of the list, and when no request waits the
  highlighted conversation is one of the list.
\<close>

fun thread_ids :: "cv_task \<Rightarrow> jstr list" where
  "thread_ids (CvThread i) = [i]"
| "thread_ids (CvList w) = []"

definition cv_ok :: "('w, 'm) convs_page_scheme \<Rightarrow> bool" where
  "cv_ok s \<longleftrightarrow> (\<forall>i. cv_active s = Some i \<or> i \<in> set (concat (map thread_ids (cv_tasks s)))
       \<longrightarrow> cv_active s \<noteq> None) \<and> (cv_active s = None \<longrightarrow> cv_messages s = [])"

definition cv_start :: "('w, 'm) convs_page_scheme \<Rightarrow> bool" where
  "cv_start s \<longleftrightarrow> cv_active s = None \<and> cv_messages s = [] \<and> cv_tasks s = []"

lemmas cv_handlers = cv_spawn_def open_conv_def cv_fail_def got_convos_def

lemma cv_ok_run:
  assumes "cv_ok s" and "i < length (cv_tasks s)"
  shows "cv_ok (cv_run E (cv_tasks s ! i) (s\<lparr>cv_tasks := remove_at i (cv_tasks s)\<rparr>))"
proof -
  have ts: "set (concat (map thread_ids (remove_at i (cv_tasks s)))) \<subseteq> set (concat (map thread_ids (cv_tasks s)))"
    using set_remove_at [of i "cv_tasks s"] by auto
  have act: "cv_tasks s ! i = CvThread j \<Longrightarrow> cv_active s \<noteq> None" for j
    using assms nth_mem [OF assms(2)] by (force simp: cv_ok_def)
  note keeps = settle_keeps [where P = cv_ok, OF api.touches]
  show ?thesis
  proof (cases "cv_tasks s ! i")
    case (CvList w)
    then show ?thesis using ts assms(1)
      by (simp only: cv_run.simps)
        (rule keeps; auto simp: cv_ok_def cv_handlers Let_def simp del: js_Cons split: option.split)
  next
    case (CvThread j)
    then show ?thesis using ts assms(1) act
      by (simp only: cv_run.simps) (rule keeps; auto simp: cv_ok_def cv_handlers simp del: js_Cons)
  qed
qed

lemma cv_ok_step: "cv_ok s \<Longrightarrow> cv_ok (cv_step E e s)"
proof (cases e)
  case (CvRun i)
  then show "cv_ok s \<Longrightarrow> ?thesis" by (simp add: cv_ok_run)
qed (auto simp: cv_ok_def cv_handlers)

interpretation convs: page_invariant "cv_step E" cv_start cv_ok
  by unfold_locales (simp add: cv_start_def cv_ok_def, rule cv_ok_step)

section \<open>Properties\<close>

lemma query_of_link: "\<forall>c \<in> set i. unreserved c \<Longrightarrow> query_get (js ''convId'') (js ''convId='' @ i) = Some i"
proof -
  assume i: "\<forall>c \<in> set i. unreserved c"
  have "\<forall>c \<in> set (js ''convId''). unreserved c" by (simp add: unreserved_def)
  from query_get_encoded [OF encode_plain [OF i] this] show ?thesis by simp
qed

lemma has_row_active:
  "cv_active s = Some i \<Longrightarrow> has_row i (cv_convos s) \<Longrightarrow>
     \<exists>c \<in> set (cv_convos s). active_convo s = Some c \<and> jprop (js ''id'') c = Some (JStr i)"
  by (cases "active_convo s")
    (auto simp: active_convo_def has_row_def find_None_iff_all dest!: find_Some_in)

lemma list_arrives:
  assumes "cv_start s" and "api E (js ''/api/admin/conversations'') no_opts True s = (Inr v, s1)"
    and "query_get (js ''convId'') q = Some i" and "i \<noteq> []"
  shows "fold (cv_step E) [CvMount q, CvRun 0] s = (if has_row i (items_of v)
     then s1\<lparr>cv_convos := items_of v, cv_active := Some i, cv_error := [], cv_tasks := [CvThread i]\<rparr>
     else s1\<lparr>cv_convos := items_of v\<rparr>) \<and> cv_tasks s1 = [] \<and> cv_active s1 = None \<and> cv_messages s1 = []"
proof -
  obtain a b c where s1: "s1 = s\<lparr>storage := a, world := b, traffic := c\<rparr>" using assms(2) by (rule api_net)
  have e: "s\<lparr>cv_tasks := []\<rparr> = s" using assms(1) by (simp add: cv_start_def)
  have "fold (cv_step E) [CvMount q, CvRun 0] s = got_convos (Some i) v s1"
    using assms by (simp add: e cv_spawn_def cv_start_def remove_at_def settle_def del: js_Cons)
  then show ?thesis using assms(1,4) by (simp add: got_convos_def open_conv_def cv_spawn_def cv_start_def s1 Let_def)
qed

lemma thread_arrives:
  assumes "cv_tasks t = [CvThread i]" and "api E (messages_path i) no_opts True (t\<lparr>cv_tasks := []\<rparr>) = (Inr m, t1)"
  shows "let u = cv_step E (CvRun 0) t in cv_messages u = items_of m \<and> active_convo u = active_convo t \<and> cv_tasks u = []"
proof -
  obtain a b c where "t1 = t\<lparr>cv_tasks := [], storage := a, world := b, traffic := c\<rparr>" using assms(2) by (rule api_net)
  then show ?thesis using assms by (simp add: remove_at_def settle_def active_convo_def Let_def)
qed

text \<open>C34. The link of an alert leads to its conversation: on a page that is opened with it, when the
  list has come, the conversation is highlighted, stands in the header and its messages are asked
  for, and what then comes is shown, exactly if it is one of the list; otherwise nothing is opened.
  (The identifier is put into the link as it is, so it must be made of letters, digits and dashes,
  as the server's are.)\<close>

theorem alert_link_opens_conversation:
  assumes "str_field (js ''conversation_id'') a = i" and "i \<noteq> []" and "\<forall>c \<in> set i. unreserved c"
    and "cv_start s"
    and "api E (js ''/api/admin/conversations'') no_opts True s = (Inr v, s1)"
  shows "\<exists>q. ar_link (alert_row_of x a) = Some (js ''/conversations?'' @ q) \<and>
    (let t = fold (cv_step E) [CvMount q, CvRun 0] s in
       (if has_row i (items_of v)
        then cv_active t = Some i \<and> (\<exists>c \<in> set (items_of v). active_convo t = Some c \<and> jprop (js ''id'') c = Some (JStr i))
          \<and> (\<forall>m s2. api E (messages_path i) no_opts True (t\<lparr>cv_tasks := []\<rparr>) = (Inr m, s2) \<longrightarrow>
               (let u = cv_step E (CvRun 0) t in cv_messages u = items_of m \<and> active_convo u = active_convo t \<and> cv_tasks u = []))
        else cv_active t = None \<and> cv_tasks t = [] \<and> cv_messages t = []))" (is "\<exists>q. _ \<and> ?P q")
proof (intro exI conjI)
  let ?q = "js ''convId='' @ i"
  show "ar_link (alert_row_of x a) = Some (js ''/conversations?'' @ ?q)"
    using assms(1,2) by (simp add: alert_row_of_def conversation_link_def Let_def)
  note t = list_arrives [OF assms(4,5) query_of_link [OF assms(3)] assms(2)]
  show "?P ?q"
  proof (cases "has_row i (items_of v)")
    case True
    let ?t = "s1\<lparr>cv_convos := items_of v, cv_active := Some i, cv_error := [], cv_tasks := [CvThread i]\<rparr>"
    have "fold (cv_step E) [CvMount ?q, CvRun 0] s = ?t" using t True by simp
    then show ?thesis using True has_row_active [of ?t i] thread_arrives [of ?t i E]
      by (simp only: Let_def if_True) simp
  next
    case False
    then show ?thesis using t by (simp only: Let_def if_False) simp
  qed
qed

definition demo_convs :: "nat convs_page" where
  "demo_convs = \<lparr>storage = Map.empty, world = 0, traffic = [], cv_convos = [], cv_active = None, cv_messages = [],
     cv_search = [], cv_error = [], cv_tasks = []\<rparr>"

definition demo_rows :: json where
  "demo_rows = JArr [JObj [(js ''id'', JStr (js ''c-7''))]]"

theorem alert_link_opens_conversation_witness:
  "\<exists>q. cv_active (fold (cv_step (demo_env [Answered (json_answer 200 demo_rows)])) [CvMount q, CvRun 0] demo_convs)
     = Some (js ''c-7'')"
proof -
  let ?a = "JObj [(js ''conversation_id'', JStr (js ''c-7''))]" and ?E = "demo_env [Answered (json_answer 200 demo_rows)]"
  have "\<exists>l. api ?E (js ''/api/admin/conversations'') no_opts True demo_convs
      = (Inr (Some demo_rows), demo_convs\<lparr>world := Suc (world demo_convs), traffic := l\<rparr>)"
    by (rule demo_api) (simp_all add: demo_convs_def demo_rows_def)
  then obtain s1 where api: "api ?E (js ''/api/admin/conversations'') no_opts True demo_convs = (Inr (Some demo_rows), s1)"
    by blast
  have i: "str_field (js ''conversation_id'') ?a = js ''c-7''" by (simp add: str_field_def)
  have u: "js ''c-7'' \<noteq> []" "\<forall>c \<in> set (js ''c-7''). unreserved c" by (simp_all add: unreserved_def is_digit_def)
  have st: "cv_start demo_convs" by (simp add: cv_start_def demo_convs_def)
  have r: "has_row (js ''c-7'') (items_of (Some demo_rows))" by (simp add: has_row_def items_of_def demo_rows_def)
  show ?thesis
    using alert_link_opens_conversation [OF i u st api] r by (simp only: Let_def if_True) blast
qed

text \<open>
  A thread that arrives late: when two conversations are opened one after the other and the
  first answer comes last, its messages stand under the header of the second; and when the
  second one fails, the messages of the first stay.
\<close>

lemma late_thread:
  assumes "cv_tasks s = [CvThread i]" and "api E (messages_path i) no_opts True (s\<lparr>cv_tasks := []\<rparr>) = (Inr m, s1)"
    and "cv_active s = Some j"
  shows "cv_messages (cv_step E (CvRun 0) s) = items_of m \<and> cv_active (cv_step E (CvRun 0) s) = Some j"
proof -
  obtain a b c where "s1 = s\<lparr>cv_tasks := [], storage := a, world := b, traffic := c\<rparr>" using assms(2) by (rule api_net)
  then show ?thesis using assms by (simp add: remove_at_def settle_def)
qed

lemma failed_thread:
  assumes "cv_tasks s = []" and "c \<in> set (filtered_convos E s)"
    and "api E (messages_path (str_field (js ''id'') c)) no_opts True
      (s\<lparr>cv_active := Some (str_field (js ''id'') c), cv_error := [], cv_tasks := []\<rparr>) = (Inl e, s1)"
  shows "let t = fold (cv_step E) [CvOpen c, CvRun 0] s in
    cv_active t = Some (str_field (js ''id'') c) \<and> cv_messages t = cv_messages s \<and> cv_error t = err_message E e"
proof -
  obtain a b c' where "s1 = s\<lparr>cv_active := Some (str_field (js ''id'') c), cv_error := [], cv_tasks := [],
      storage := a, world := b, traffic := c'\<rparr>" using assms(3) by (rule api_net)
  then show ?thesis using assms by (simp add: open_conv_def cv_spawn_def remove_at_def settle_def cv_fail_def Let_def)
qed

end
