(* ===== verification/Marketplace_Page.thy ===== *)
theory Marketplace_Page
  imports Page_Kit "HOL-Library.Multiset"
begin

text \<open>
  The marketplace of integrations, \<open>panel/app/(dash)/marketplace/page.tsx\<close>, as a machine:
  the catalogue by category, the buttons of an app by role and state, and the dialog that
  configures one.
\<close>

section \<open>State\<close>

definition TOOL_LINKS :: "(jstr \<times> jstr) list" where
  "TOOL_LINKS = [(js ''github'', js ''/tools/github''), (js ''slack'', js ''/tools/slack''),
     (js ''sentry'', js ''/tools/sentry''), (js ''api_client'', js ''/tools/api-client''),
     (js ''swagger'', js ''/tools/swagger''), (js ''finetune'', js ''/tools/finetune'')]"

datatype config_step = GuideStep | FormStep

text \<open>The waiting continuations, with what their handlers captured.\<close>

datatype mk_task =
    MkLoad
  | MkConfig json
  | MkInstall jstr "(jstr \<times> json) list"
  | MkQuick jstr
  | MkCaughtRefresh
  | MkToggle jstr bool
  | MkUninstall jstr
  | MkRefresh

record 'w market_page = "'w net" +
  mk_apps :: "json list"
  mk_error :: jstr
  mk_configuring :: "json option"
  mk_step :: config_step
  mk_form :: "(jstr \<times> json) list"
  mk_tasks :: "mk_task list"

definition mk_spawn :: "mk_task \<Rightarrow> ('w, 'm) market_page_scheme \<Rightarrow> ('w, 'm) market_page_scheme" where
  "mk_spawn t s = s\<lparr>mk_tasks := mk_tasks s @ [t]\<rparr>"

definition slug_of :: "json \<Rightarrow> jstr" where
  "slug_of app = str_field (js ''slug'') app"

definition installed :: "json \<Rightarrow> bool" where
  "installed app = bool_field (js ''installed'') app"

definition app_enabled :: "json \<Rightarrow> bool" where
  "app_enabled app = bool_field (js ''enabled'') app"

section \<open>Operations\<close>

definition app_path :: "jstr \<Rightarrow> jstr \<Rightarrow> jstr" where
  "app_path slug rest = js ''/api/marketplace/'' @ slug @ rest"

definition set_apps :: "jval \<Rightarrow> ('w, 'm) market_page_scheme \<Rightarrow> ('w, 'm) market_page_scheme" where
  "set_apps v s = s\<lparr>mk_apps := items_of v\<rparr>"

definition mk_fail :: "'w env \<Rightarrow> err \<Rightarrow> ('w, 'm) market_page_scheme \<Rightarrow> ('w, 'm) market_page_scheme" where
  "mk_fail E e s = s\<lparr>mk_error := err_message E e\<rparr>"

text \<open>The end of \<open>openConfig\<close>, which runs after the configuration came or failed.\<close>

definition show_config :: "json \<Rightarrow> ('w, 'm) market_page_scheme \<Rightarrow> ('w, 'm) market_page_scheme" where
  "show_config app s = s\<lparr>mk_step := (if bool_field (js ''guide'') app then GuideStep else FormStep), mk_configuring := Some app\<rparr>"

definition openConfig :: "json \<Rightarrow> ('w, 'm) market_page_scheme \<Rightarrow> ('w, 'm) market_page_scheme" where
  "openConfig app s = (let s1 = s\<lparr>mk_form := []\<rparr> in
     if installed app then mk_spawn (MkConfig app) s1 else show_config app s1)"

definition closeConfig :: "('w, 'm) market_page_scheme \<Rightarrow> ('w, 'm) market_page_scheme" where
  "closeConfig s = s\<lparr>mk_configuring := None, mk_form := []\<rparr>"

definition config_members :: "jval \<Rightarrow> (jstr \<times> json) list" where
  "config_members v = (case v of Some (JObj ps) \<Rightarrow> ps | _ \<Rightarrow> [])"

definition install_opts :: "(jstr \<times> json) list \<Rightarrow> init" where
  "install_opts form = send_json (js ''POST'') (JObj [(js ''config'', JObj form)])"

definition toggle_opts :: "bool \<Rightarrow> init" where
  "toggle_opts b = send_json (js ''POST'') (JObj [(js ''enabled'', JBool b)])"

fun mk_run :: "'w env \<Rightarrow> mk_task \<Rightarrow> ('w, 'm) market_page_scheme \<Rightarrow> ('w, 'm) market_page_scheme" where
  "mk_run E MkLoad s = settle (api E (js ''/api/marketplace'') no_opts True) (mk_fail E) set_apps s"
| "mk_run E (MkConfig app) s = settle (api E (app_path (slug_of app) (js ''/config'')) no_opts True)
     (\<lambda>_. show_config app) (\<lambda>v s. show_config app (s\<lparr>mk_form := config_members v\<rparr>)) s"
| "mk_run E (MkInstall slug form) s = settle (api E (app_path slug (js ''/install'')) (install_opts form) True)
     (mk_fail E) (\<lambda>_ s. mk_spawn MkCaughtRefresh (closeConfig s)) s"
| "mk_run E (MkQuick slug) s = settle (api E (app_path slug (js ''/install'')) (install_opts []) True)
     (mk_fail E) (\<lambda>_. mk_spawn MkCaughtRefresh) s"
| "mk_run E MkCaughtRefresh s = settle (api E (js ''/api/marketplace'') no_opts True) (mk_fail E) set_apps s"
| "mk_run E (MkToggle slug b) s = settle (api E (app_path slug (js ''/toggle'')) (toggle_opts b) True)
     (\<lambda>_ s. s) (\<lambda>_. mk_spawn MkRefresh) s"
| "mk_run E (MkUninstall slug) s = settle (api E (app_path slug []) (just_method (js ''DELETE'')) True)
     (\<lambda>_ s. s) (\<lambda>_. mk_spawn MkRefresh) s"
| "mk_run E MkRefresh s = settle (api E (js ''/api/marketplace'') no_opts True) (\<lambda>_ s. s) set_apps s"

section \<open>The catalogue\<close>

text \<open>\<open>Array.from(new Set(xs))\<close>: the first occurrences.\<close>

fun uniq :: "'a list \<Rightarrow> 'a list" where
  "uniq [] = []"
| "uniq (x # xs) = x # uniq (filter (\<lambda>y. y \<noteq> x) xs)"

definition category_of :: "json \<Rightarrow> jstr" where
  "category_of app = str_field (js ''category'') app"

definition categories :: "json list \<Rightarrow> jstr list" where
  "categories apps = uniq (map category_of apps)"

definition market_groups :: "json list \<Rightarrow> (jstr \<times> json list) list" where
  "market_groups apps = map (\<lambda>cat. (cat, filter (\<lambda>a. category_of a = cat) apps)) (categories apps)"

datatype market_button =
    OpenTool jstr
  | Configure
  | QuickInstall
  | Settings
  | Toggle
  | Uninstall
  | AskAdmin

definition market_buttons :: "bool \<Rightarrow> json \<Rightarrow> market_button list" where
  "market_buttons admin app = (let needs = bool_field (js ''needs_config'') app in
     (case map_of TOOL_LINKS (slug_of app) of
        Some l \<Rightarrow> if installed app \<and> app_enabled app then [OpenTool l] else []
      | None \<Rightarrow> [])
     @ (if admin \<and> \<not> installed app \<and> needs then [Configure] else [])
     @ (if admin \<and> \<not> installed app \<and> \<not> needs then [QuickInstall] else [])
     @ (if admin \<and> installed app then (if needs then [Settings] else []) @ [Toggle, Uninstall] else [])
     @ (if \<not> admin \<and> \<not> installed app then [AskAdmin] else []))"

fun press :: "market_button \<Rightarrow> json \<Rightarrow> bool \<Rightarrow> ('w, 'm) market_page_scheme \<Rightarrow> ('w, 'm) market_page_scheme" where
  "press Configure app c s = openConfig app s"
| "press Settings app c s = openConfig app s"
| "press QuickInstall app c s = mk_spawn (MkQuick (slug_of app)) s"
| "press Toggle app c s = mk_spawn (MkToggle (slug_of app) (\<not> app_enabled app)) s"
| "press Uninstall app c s = (if c then mk_spawn (MkUninstall (slug_of app)) s else s)"
| "press (OpenTool l) app c s = s"
| "press AskAdmin app c s = s"

section \<open>The dialog\<close>

datatype config_dialog =
    NoConfig
  | ConfigGuide json "(nat \<times> jstr) list"
  | ConfigForm json "(jstr \<times> jstr \<times> bool) list" bool \<comment> \<open>key, value, hidden; whether the left button goes back to the guide\<close>

definition config_field :: "(jstr \<times> json) list \<Rightarrow> json \<Rightarrow> jstr \<times> jstr \<times> bool" where
  "config_field form f = (let k = str_field (js ''key'') f in
     (k, (case map_of form k of Some v \<Rightarrow> if v = JNull then [] else to_str v | None \<Rightarrow> []), bool_field (js ''secret'') f))"

definition config_view :: "('w, 'm) market_page_scheme \<Rightarrow> config_dialog" where
  "config_view s = (case mk_configuring s of
       None \<Rightarrow> NoConfig
     | Some app \<Rightarrow> if mk_step s = GuideStep \<and> bool_field (js ''guide'') app
         then ConfigGuide app (enumerate 1 (str_items (opt_prop (js ''steps'') (jprop (js ''guide'') app))))
         else ConfigForm app (map (config_field (mk_form s)) (items_of (jprop (js ''config_fields'') app)))
           (bool_field (js ''guide'') app))"

datatype mk_event =
    MkMount
  | MkPress json market_button bool \<comment> \<open>confirmed\<close>
  | MkClose
  | MkNext
  | MkBack
  | MkType jstr jstr
  | MkSave
  | MkRun nat

fun market_step :: "'w env \<Rightarrow> mk_event \<Rightarrow> ('w, 'm) market_page_scheme \<Rightarrow> ('w, 'm) market_page_scheme" where
  "market_step E MkMount s = mk_spawn MkLoad s"
| "market_step E (MkPress app b c) s = (if app \<in> set (mk_apps s) \<and> b \<in> set (market_buttons (is_admin E s) app)
     then press b app c s else s)"
| "market_step E MkClose s = (if mk_configuring s \<noteq> None then closeConfig s else s)"
| "market_step E MkNext s = (case config_view s of ConfigGuide _ _ \<Rightarrow> s\<lparr>mk_step := FormStep\<rparr> | _ \<Rightarrow> s)"
| "market_step E MkBack s = (case config_view s of
     ConfigForm _ _ g \<Rightarrow> if g then s\<lparr>mk_step := GuideStep\<rparr> else closeConfig s | _ \<Rightarrow> s)"
| "market_step E (MkType k t) s = (case config_view s of
     ConfigForm _ fs _ \<Rightarrow> if k \<in> fst ` set fs then s\<lparr>mk_form := obj_put k (JStr t) (mk_form s)\<rparr> else s | _ \<Rightarrow> s)"
| "market_step E MkSave s = (case config_view s of
     ConfigForm app _ _ \<Rightarrow> mk_spawn (MkInstall (slug_of app) (mk_form s)) s | _ \<Rightarrow> s)"
| "market_step E (MkRun i) s = (if i < length (mk_tasks s)
     then mk_run E (mk_tasks s ! i) (s\<lparr>mk_tasks := remove_at i (mk_tasks s)\<rparr>) else s)"

section \<open>Facts on the catalogue\<close>

lemma set_uniq: "set (uniq xs) = set xs"
  by (induction xs rule: uniq.induct) auto

lemma distinct_uniq: "distinct (uniq xs)"
  by (induction xs rule: uniq.induct) (simp_all add: set_uniq)

lemma mset_groups:
  "distinct ks \<Longrightarrow> mset (concat (map (\<lambda>k. filter (\<lambda>a. f a = k) xs) ks)) = mset (filter (\<lambda>a. f a \<in> set ks) xs)"
proof (induction ks)
  case (Cons k ks)
  have "k \<notin> set ks" using Cons.prems by simp
  then have "mset (filter (\<lambda>a. f a \<in> set (k # ks)) xs)
      = mset (filter (\<lambda>a. f a = k) xs) + mset (filter (\<lambda>a. f a \<in> set ks) xs)"
    by (induction xs) auto
  then show ?case using Cons by (simp del: mset_filter)
qed simp

text \<open>The catalogue shows every app once: the groups together are the apps, each category stands
  once, at the place of its first app, no group is empty, and a group is the apps of its category
  in the server's order.\<close>

theorem market_groups_partition:
  "mset (concat (map snd (market_groups apps))) = mset apps \<and> distinct (map fst (market_groups apps))
     \<and> list_all (\<lambda>(c, g). g \<noteq> [] \<and> g = filter (\<lambda>a. category_of a = c) apps) (market_groups apps)
     \<and> map fst (take 1 (market_groups apps)) = map category_of (take 1 apps)"
proof -
  have cats: "set (categories apps) = category_of ` set apps" "distinct (categories apps)"
    by (simp_all add: categories_def set_uniq distinct_uniq)
  have "map snd (market_groups apps) = map (\<lambda>k. filter (\<lambda>a. category_of a = k) apps) (categories apps)"
    by (simp add: market_groups_def)
  then have "mset (concat (map snd (market_groups apps))) = mset (filter (\<lambda>a. category_of a \<in> set (categories apps)) apps)"
    using mset_groups [OF cats(2), of category_of apps] by simp
  also have "filter (\<lambda>a. category_of a \<in> set (categories apps)) apps = apps" using cats by (simp add: filter_id_conv)
  finally have "mset (concat (map snd (market_groups apps))) = mset apps" .
  moreover have "map fst (market_groups apps) = categories apps" by (simp add: market_groups_def comp_def)
  moreover have "list_all (\<lambda>(c, g). g \<noteq> [] \<and> g = filter (\<lambda>a. category_of a = c) apps) (market_groups apps)"
    using cats(1) by (auto simp: list_all_iff market_groups_def filter_empty_conv)
  moreover have "map fst (take 1 (market_groups apps)) = map category_of (take 1 apps)"
    by (cases apps) (simp_all add: market_groups_def categories_def)
  ultimately show ?thesis using cats(2) by simp
qed

section \<open>Roles\<close>

definition mk_start :: "('w, 'm) market_page_scheme \<Rightarrow> bool" where
  "mk_start s \<longleftrightarrow> mk_configuring s = None \<and> mk_tasks s = []"

definition mk_quiet :: "('w, 'm) market_page_scheme \<Rightarrow> bool" where
  "mk_quiet s \<longleftrightarrow> mk_configuring s = None \<and> set (mk_tasks s) \<subseteq> {MkLoad}"

lemma member_buttons: "b \<in> set (market_buttons False app) \<Longrightarrow> press b app c s = s"
  by (auto simp: market_buttons_def Let_def split: if_splits option.splits)

lemma quiet_view: "mk_quiet s \<Longrightarrow> config_view s = NoConfig"
  by (simp add: mk_quiet_def config_view_def)

lemma mk_quiet_step:
  assumes "mk_quiet s" and "\<not> is_admin E s"
  shows "mk_quiet (market_step E e s)"
proof (cases e)
  case (MkRun i)
  have "mk_quiet (mk_run E MkLoad (s\<lparr>mk_tasks := remove_at i (mk_tasks s)\<rparr>))"
    unfolding mk_run.simps
    by (rule settle_keeps [where P = mk_quiet, OF api.touches];
      use assms(1) set_remove_at [of i "mk_tasks s"] in \<open>auto simp: mk_quiet_def mk_fail_def set_apps_def\<close>)
  moreover have "mk_tasks s ! i = MkLoad" if "i < length (mk_tasks s)"
    using assms(1) nth_mem [OF that] by (auto simp: mk_quiet_def)
  ultimately show ?thesis using MkRun assms(1) by simp
next
  case MkMount
  then show ?thesis using assms(1) by (simp add: mk_quiet_def mk_spawn_def)
next
  case MkClose
  then show ?thesis using assms(1) by (simp add: mk_quiet_def)
next
  case (MkPress app b c)
  then show ?thesis using assms member_buttons [of b app c s] by simp
qed (use assms(1) quiet_view [OF assms(1)] in simp_all)

text \<open>C35. Who is no administrator changes nothing: as long as the stored role is neither owner nor admin
  no dialog is open, whatever is pressed and whatever the server answers, and the only call that ever
  waits is the one that loads the list; each app offers at most the link to its tool, or the hint to
  ask an administrator.\<close>

theorem marketplace_needs_admin:
  assumes "mk_start s" and "\<forall>k \<le> length es. \<not> is_admin E (fold (market_step E) (take k es) s)"
  shows "let t = fold (market_step E) es s in mk_configuring t = None \<and> set (mk_tasks t) \<subseteq> {MkLoad}
    \<and> (\<forall>app. set (market_buttons (is_admin E t) app) \<subseteq> range OpenTool \<union> {AskAdmin})"
proof -
  have "mk_quiet (fold (market_step E) (take k es) s)" if "k \<le> length es" for k
    using that
  proof (induction k)
    case 0
    then show ?case using assms(1) by (simp add: mk_start_def mk_quiet_def)
  next
    case (Suc k)
    then show ?case using assms(2) by (simp add: take_Suc_conv_app_nth mk_quiet_step)
  qed
  from this [of "length es"] have "mk_quiet (fold (market_step E) es s)" by simp
  moreover have "\<not> is_admin E (fold (market_step E) es s)" using assms(2) by force
  then have "set (market_buttons (is_admin E (fold (market_step E) es s)) app) \<subseteq> range OpenTool \<union> {AskAdmin}" for app
    by (auto simp: market_buttons_def Let_def split: if_splits option.splits)
  ultimately show ?thesis by (simp add: mk_quiet_def Let_def)
qed

definition demo_market :: "nat market_page" where
  "demo_market = \<lparr>storage = [ROLE \<mapsto> js ''user''], world = 0, traffic = [], mk_apps = [], mk_error = [],
     mk_configuring = None, mk_step = FormStep, mk_form = [], mk_tasks = []\<rparr>"

theorem marketplace_needs_admin_witness:
  "mk_configuring (fold (market_step (demo_env [])) [MkMount, MkSave] demo_market) = None
    \<and> mk_tasks (fold (market_step (demo_env [])) [MkMount, MkSave] demo_market) = [MkLoad]"
proof -
  have role: "js ''user'' \<noteq> js ''owner''" "js ''user'' \<noteq> js ''admin''" by simp_all
  have start: "mk_start demo_market" by (simp add: mk_start_def demo_market_def)
  have u: "\<not> is_admin (demo_env []) s" if "storage s = [ROLE \<mapsto> js ''user'']" for s :: "nat market_page"
    using that role by (simp add: is_admin_def getRole_def demo_env_def del: js_Cons)
  have "storage (fold (market_step (demo_env [])) (take k [MkMount, MkSave]) demo_market) = [ROLE \<mapsto> js ''user'']" if "k \<le> 2" for k
  proof -
    have "k = 0 \<or> k = 1 \<or> k = 2" using that by arith
    then show ?thesis by (auto simp: demo_market_def mk_spawn_def config_view_def)
  qed
  then have "\<forall>k \<le> length [MkMount, MkSave]. \<not> is_admin (demo_env []) (fold (market_step (demo_env [])) (take k [MkMount, MkSave]) demo_market)"
    using u by simp
  from marketplace_needs_admin [OF start this] show ?thesis
    by (simp add: Let_def demo_market_def mk_spawn_def config_view_def)
qed

text \<open>
  The dialog of another app's values: the configuration of an installed app is asked for, another
  app's dialog is opened and filled in meanwhile, and then the first answer fails. The dialog of the
  first app opens over the values typed for the second, and saving sends them.
\<close>

lemma form_of_another_app:
  assumes "mk_tasks s = [MkConfig app]" and "\<not> bool_field (js ''guide'') app"
    and "api E (app_path (slug_of app) (js ''/config'')) no_opts True (s\<lparr>mk_tasks := []\<rparr>) = (Inl e, s1)"
  shows "let t = market_step E MkSave (market_step E (MkRun 0) s) in
    mk_configuring t = Some app \<and> mk_tasks t = [MkInstall (slug_of app) (mk_form s)]"
proof -
  obtain a b c where "s1 = s\<lparr>mk_tasks := [], storage := a, world := b, traffic := c\<rparr>"
    using assms(3) by (rule api_net)
  then show ?thesis using assms
    by (simp add: remove_at_def settle_def show_config_def config_view_def mk_spawn_def Let_def)
qed

end
