(* ===== verification/Settings_Page.thy ===== *)
theory Settings_Page
  imports Panel_Theme Page_Kit
begin

text \<open>
  The page of the settings, \<open>panel/app/(dash)/settings/page.tsx\<close>, as a machine over the document
  that it themes: the form, the saving of its three sections with their messages and timers,
  the logo and the dark mode.
\<close>

section \<open>State\<close>

datatype set_section = Branding | ChatTexts | ThemeChoice

datatype save_status = Idle | Saving | Saved | SaveError

datatype logo_status = LogoIdle | LogoUploading | LogoDone | LogoError

text \<open>The waiting continuations; a save has captured its section, its keys and its payload.\<close>

datatype st_task =
    StLoad
  | StSave set_section "jstr list" json
  | StIdle set_section
  | StUpload jsfile
  | StLogoIdle
  | StClearLogo

record 'w settings_page = "'w doc" +
  st_form :: settings
  st_status :: "set_section \<Rightarrow> save_status"
  st_dark :: bool
  st_logo :: logo_status
  st_tasks :: "st_task list"

definition st_spawn :: "st_task \<Rightarrow> ('w, 'm) settings_page_scheme \<Rightarrow> ('w, 'm) settings_page_scheme" where
  "st_spawn t s = s\<lparr>st_tasks := st_tasks s @ [t]\<rparr>"

definition THEMES :: "(jstr \<times> jstr \<times> jstr \<times> jstr) list" where
  "THEMES = [(js ''default'', js ''Varsay'' @ [0x131] @ js ''lan'', js ''Indigo/mor'', js ''#4f46e5''),
     (js ''ocean'', js ''Okyanus'', js ''Cyan/mavi'', js ''#0891b2''),
     (js ''forest'', js ''Orman'', js ''Ye'' @ [0x15F] @ js ''il'', js ''#16a34a''),
     (js ''sunset'', js ''G'' @ [0xFC] @ js ''n Bat'' @ [0x131] @ js ''m'' @ [0x131], js ''Turuncu'', js ''#f97316''),
     (js ''rose'', js ''G'' @ [0xFC] @ js ''l'', js ''K'' @ [0x131] @ js ''rm'' @ [0x131] @ js ''z'' @ [0x131] @ js ''/pembe'', js ''#e11d48'')]"

definition SaveBar :: "save_status \<Rightarrow> jstr option" where
  "SaveBar st = (case st of Idle \<Rightarrow> None | Saving \<Rightarrow> Some (js ''Kaydediliyor'' @ [0x2026])
     | Saved \<Rightarrow> Some ([0x2713] @ js '' Kaydedildi'') | SaveError \<Rightarrow> Some ([0x2717] @ js '' Hata''))"

section \<open>The form\<close>

definition CHAT_THEME :: jstr where "CHAT_THEME = js ''chat_theme''"
definition LOGO_URL :: jstr where "LOGO_URL = js ''app_logo_url''"

text \<open>\<open>{ ...f, ...v }\<close>, as far as a member of \<open>AppSettings\<close> is read.\<close>

definition spread :: "settings \<Rightarrow> jval \<Rightarrow> settings" where
  "spread f v = map (\<lambda>(k, d). (k, case opt_prop k v of None \<Rightarrow> d | Some x \<Rightarrow> x)) f"

text \<open>\<open>{ ...f, [key]: value }\<close>\<close>

definition set_setting :: "jstr \<Rightarrow> json \<Rightarrow> settings \<Rightarrow> settings" where
  "set_setting k v f = map (\<lambda>p. if fst p = k then (k, v) else p) f"

fun section_keys :: "set_section \<Rightarrow> jstr list" where
  "section_keys Branding = [js ''app_name'', js ''app_logo'', js ''app_tagline'']"
| "section_keys ChatTexts = [js ''chat_welcome_title'', js ''chat_welcome_subtitle'', js ''chat_placeholder'',
     js ''chat_send_label'']"
| "section_keys ThemeChoice = [CHAT_THEME]"

definition save_payload :: "jstr list \<Rightarrow> (jstr \<times> jstr) list \<Rightarrow> settings \<Rightarrow> json" where
  "save_payload ks overrides f = JObj (map (\<lambda>k. (k, case map_of overrides k of
       Some v \<Rightarrow> JStr v | None \<Rightarrow> value_of (map_of f k))) ks)"

section \<open>Handlers\<close>

definition set_status :: "set_section \<Rightarrow> save_status \<Rightarrow> ('w, 'm) settings_page_scheme \<Rightarrow> ('w, 'm) settings_page_scheme" where
  "set_status c st s = s\<lparr>st_status := (st_status s)(c := st)\<rparr>"

definition start_save :: "set_section \<Rightarrow> (jstr \<times> jstr) list \<Rightarrow> ('w, 'm) settings_page_scheme \<Rightarrow> ('w, 'm) settings_page_scheme" where
  "start_save c overrides s =
     st_spawn (StSave c (section_keys c) (save_payload (section_keys c) overrides (st_form s))) (set_status c Saving s)"

definition end_of_save :: "set_section \<Rightarrow> ('w, 'm) settings_page_scheme \<Rightarrow> ('w, 'm) settings_page_scheme" where
  "end_of_save c s = st_spawn (StIdle c) (set_status c Saved s)"

definition adopt_theme :: "json \<Rightarrow> ('w, 'm) doc_scheme \<Rightarrow> ('w, 'm) doc_scheme" where
  "adopt_theme updated s = (let t = val_str (or_nullish (jprop CHAT_THEME updated) (Some (JStr (js ''default'')))) in
     set_item THEME t (apply_theme t s))"

text \<open>
  The answer of a save; where the theme was saved, a member of \<open>updated\<close> is read, which throws
  when there is none.
\<close>

definition save_answered :: "set_section \<Rightarrow> jstr list \<Rightarrow> jval \<Rightarrow> ('w, 'm) settings_page_scheme \<Rightarrow> ('w, 'm) settings_page_scheme" where
  "save_answered c ks updated s = (let s1 = s\<lparr>st_form := spread (st_form s) updated\<rparr> in
     if CHAT_THEME \<in> set ks
     then if nullish updated then set_status c SaveError s1 else end_of_save c (adopt_theme (value_of updated) s1)
     else end_of_save c s1)"

definition logo_end :: "logo_status \<Rightarrow> ('w, 'm) settings_page_scheme \<Rightarrow> ('w, 'm) settings_page_scheme" where
  "logo_end st s = st_spawn StLogoIdle (s\<lparr>st_logo := st\<rparr>)"

definition logo_answered :: "jval \<Rightarrow> ('w, 'm) settings_page_scheme \<Rightarrow> ('w, 'm) settings_page_scheme" where
  "logo_answered v s = (if nullish v then logo_end LogoError s
     else logo_end LogoDone (s\<lparr>st_form := set_setting LOGO_URL (value_of (opt_prop (js ''url'') v)) (st_form s)\<rparr>))"

definition clear_opts :: init where
  "clear_opts = send_json (js ''PUT'') (JObj [(LOGO_URL, JStr [])])"

fun st_run :: "'w env \<Rightarrow> st_task \<Rightarrow> ('w, 'm) settings_page_scheme \<Rightarrow> ('w, 'm) settings_page_scheme" where
  "st_run E StLoad s = settle (api E (js ''/api/settings'') no_opts True) (\<lambda>_ s. s)
     (\<lambda>v s. s\<lparr>st_form := spread SETTING_DEFAULTS v\<rparr>) s"
| "st_run E (StSave c ks payload) s = settle (api E (js ''/api/settings'') (send_json (js ''PUT'') payload) True)
     (\<lambda>_. set_status c SaveError) (save_answered c ks) s"
| "st_run E (StIdle c) s = set_status c Idle s"
| "st_run E (StUpload f) s = settle (uploadFile E (js ''/api/uploads/logo'') [(js ''file'', FFile f)] True)
     (\<lambda>_. logo_end LogoError) logo_answered s"
| "st_run E StLogoIdle s = s\<lparr>st_logo := LogoIdle\<rparr>"
| "st_run E StClearLogo s = settle (api E (js ''/api/settings'') clear_opts True) (\<lambda>_ s. s)
     (\<lambda>_ s. s\<lparr>st_form := set_setting LOGO_URL (JStr []) (st_form s)\<rparr>) s"

datatype st_event =
    StMount
  | StField jstr jstr
  | StSaveClick set_section
  | StTheme jstr
  | StFile jsfile
  | StClear
  | StDark
  | StRun nat

fun st_step :: "'w env \<Rightarrow> st_event \<Rightarrow> ('w, 'm) settings_page_scheme \<Rightarrow> ('w, 'm) settings_page_scheme" where
  "st_step E StMount s = st_spawn StLoad (s\<lparr>st_dark := getDark E s\<rparr>)"
| "st_step E (StField k v) s = (if k \<in> set (section_keys Branding @ section_keys ChatTexts)
     then s\<lparr>st_form := set_setting k (JStr v) (st_form s)\<rparr> else s)"
| "st_step E (StSaveClick c) s = (if c = ThemeChoice then s else start_save c [] s)"
| "st_step E (StTheme t) s = (if t \<in> fst ` set THEMES
     then start_save ThemeChoice [(CHAT_THEME, t)] (s\<lparr>st_form := set_setting CHAT_THEME (JStr t) (st_form s)\<rparr>) else s)"
| "st_step E (StFile f) s = st_spawn (StUpload f) (s\<lparr>st_logo := LogoUploading\<rparr>)"
| "st_step E StClear s = (if truthy (map_of (st_form s) LOGO_URL) then st_spawn StClearLogo s else s)"
| "st_step E StDark s = (let t = toggleDark s in t\<lparr>st_dark := html_dark t\<rparr>)"
| "st_step E (StRun i) s = (if i < length (st_tasks s)
     then st_run E (st_tasks s ! i) (s\<lparr>st_tasks := remove_at i (st_tasks s)\<rparr>) else s)"

section \<open>The invariant\<close>

fun saves :: "set_section \<Rightarrow> st_task \<Rightarrow> bool" where
  "saves c (StSave d ks p) = (c = d)"
| "saves c t = False"

fun uploads :: "st_task \<Rightarrow> bool" where
  "uploads (StUpload f) = True"
| "uploads t = False"

definition msg_ok :: "(set_section \<Rightarrow> save_status) \<Rightarrow> logo_status \<Rightarrow> st_task set \<Rightarrow> bool" where
  "msg_ok st lg ts \<longleftrightarrow> (\<forall>c. st c = Saving \<longrightarrow> (\<exists>t \<in> ts. saves c t)) \<and> (\<forall>c. st c = Saved \<longrightarrow> StIdle c \<in> ts)
     \<and> (lg = LogoUploading \<longrightarrow> (\<exists>t \<in> ts. uploads t)) \<and> (lg \<in> {LogoDone, LogoError} \<longrightarrow> StLogoIdle \<in> ts)"

definition st_ok :: "('w, 'm) settings_page_scheme \<Rightarrow> bool" where
  "st_ok s \<longleftrightarrow> msg_ok (st_status s) (st_logo s) (set (st_tasks s)) \<and> map fst (st_form s) = map fst SETTING_DEFAULTS"

definition st_start :: "('w, 'm) settings_page_scheme \<Rightarrow> bool" where
  "st_start s \<longleftrightarrow> st_status s = (\<lambda>_. Idle) \<and> st_logo s = LogoIdle \<and> st_form s = SETTING_DEFAULTS \<and> st_tasks s = []"

lemma spread_keys [simp]: "map fst (spread f v) = map fst f"
  by (simp add: spread_def comp_def split_beta)

lemma set_setting_keys [simp]: "map fst (set_setting k v f) = map fst f"
  by (simp add: set_setting_def comp_def if_distrib)

lemma msg_ok_more: "msg_ok st lg A \<Longrightarrow> A \<subseteq> B \<Longrightarrow> msg_ok st lg B"
  unfolding msg_ok_def by blast

lemmas st_handlers = st_spawn_def set_status_def start_save_def end_of_save_def save_answered_def logo_end_def
  logo_answered_def adopt_theme_def set_item_def apply_theme_def

lemma msg_ok_ended:
  "msg_ok st lg (insert StLoad R) \<Longrightarrow> msg_ok st lg R"
  "msg_ok st lg (insert StClearLogo R) \<Longrightarrow> msg_ok st lg R"
  "msg_ok st lg (insert (StSave c ks p) R) \<Longrightarrow> msg_ok (st(c := SaveError)) lg R"
  "msg_ok st lg (insert (StSave c ks p) R) \<Longrightarrow> msg_ok (st(c := Saved)) lg (insert (StIdle c) R)"
  "msg_ok st lg (insert (StIdle c) R) \<Longrightarrow> msg_ok (st(c := Idle)) lg R"
  "msg_ok st lg (insert (StUpload f) R) \<Longrightarrow> msg_ok st LogoDone (insert StLogoIdle R)"
  "msg_ok st lg (insert (StUpload f) R) \<Longrightarrow> msg_ok st LogoError (insert StLogoIdle R)"
  "msg_ok st lg (insert StLogoIdle R) \<Longrightarrow> msg_ok st LogoIdle R"
  by (auto simp: msg_ok_def)

lemma st_ok_run:
  assumes "st_ok s" and "i < length (st_tasks s)"
  shows "st_ok (st_run E (st_tasks s ! i) (s\<lparr>st_tasks := remove_at i (st_tasks s)\<rparr>))"
proof -
  let ?R = "set (remove_at i (st_tasks s))"
  have ok: "msg_ok (st_status s) (st_logo s) (insert (st_tasks s ! i) ?R)"
    using assms(1) msg_ok_more [OF _ set_remove_at_insert] by (simp add: st_ok_def)
  have keys: "map fst (st_form s) = map fst SETTING_DEFAULTS" using assms(1) by (simp add: st_ok_def)
  note keeps = settle_keeps [where P = st_ok, OF api.touches] settle_keeps [where P = st_ok, OF upload.touches]
  note st_simps = st_ok_def st_handlers Let_def
  show ?thesis
  proof (cases "st_tasks s ! i")
    case StLoad
    then have "msg_ok (st_status s) (st_logo s) ?R" using ok msg_ok_ended(1) by simp
    then show ?thesis unfolding StLoad st_run.simps
      by (intro keeps) (use keys in \<open>simp_all add: st_simps\<close>)
  next
    case (StSave c ks p)
    then have "msg_ok ((st_status s)(c := SaveError)) (st_logo s) ?R"
      "msg_ok ((st_status s)(c := Saved)) (st_logo s) (insert (StIdle c) ?R)"
      using ok msg_ok_ended(3,4) by simp_all
    then show ?thesis unfolding StSave st_run.simps
      by (intro keeps) (use keys in \<open>simp_all add: st_simps del: js_Cons\<close>)
  next
    case (StIdle c)
    then have "msg_ok ((st_status s)(c := Idle)) (st_logo s) ?R" using ok msg_ok_ended(5) by simp
    then show ?thesis using keys by (simp add: StIdle st_simps)
  next
    case (StUpload f)
    then have "msg_ok (st_status s) LogoDone (insert StLogoIdle ?R)" "msg_ok (st_status s) LogoError (insert StLogoIdle ?R)"
      using ok msg_ok_ended(6,7) by simp_all
    then show ?thesis unfolding StUpload st_run.simps
      by (intro keeps) (use keys in \<open>simp_all add: st_simps del: js_Cons\<close>)
  next
    case StLogoIdle
    then have "msg_ok (st_status s) LogoIdle ?R" using ok msg_ok_ended(8) by simp
    then show ?thesis using keys by (simp add: StLogoIdle st_ok_def)
  next
    case StClearLogo
    then have "msg_ok (st_status s) (st_logo s) ?R" using ok msg_ok_ended(2) by simp
    then show ?thesis unfolding StClearLogo st_run.simps
      by (intro keeps) (use keys in \<open>simp_all add: st_simps\<close>)
  qed
qed

lemma st_ok_start: "st_ok s \<Longrightarrow> st_ok (start_save c ov s)"
  by (auto simp: st_ok_def msg_ok_def start_save_def st_spawn_def set_status_def)

lemma st_ok_step: "st_ok s \<Longrightarrow> st_ok (st_step E e s)"
proof (cases e)
  case (StRun i)
  then show "st_ok s \<Longrightarrow> ?thesis" by (simp add: st_ok_run)
next
  case (StSaveClick c)
  then show "st_ok s \<Longrightarrow> ?thesis" by (cases "c = ThemeChoice") (simp_all add: st_ok_start del: section_keys.simps)
next
  case (StTheme t)
  then show "st_ok s \<Longrightarrow> ?thesis" using st_ok_start [of "s\<lparr>st_form := set_setting CHAT_THEME (JStr t) (st_form s)\<rparr>" ThemeChoice "[(CHAT_THEME, t)]"]
    by (simp add: st_ok_def)
next
  case (StFile f)
  then show "st_ok s \<Longrightarrow> ?thesis" by (auto simp: st_ok_def msg_ok_def st_spawn_def)
next
  case StDark
  then show "st_ok s \<Longrightarrow> ?thesis" by (simp add: st_ok_def toggleDark_def set_item_def Let_def)
qed (simp_all add: st_ok_def st_spawn_def msg_ok_more [OF _ subset_insertI] del: section_keys.simps)

interpretation settings: page_invariant "st_step E" st_start st_ok
  by unfold_locales (simp add: st_start_def st_ok_def msg_ok_def, rule st_ok_step)

section \<open>Properties\<close>

text \<open>C36. No message of the page stays forever: in every reachable state a section that says it is saving
  has a save in flight, one that says it is saved has a timer that will take the message away, and so
  have the logo's messages; and the form always has every setting, each once.\<close>

theorem save_messages_end:
  assumes "reaches (st_step E) st_start s"
  shows "(st_status s c = Saving \<longrightarrow> (\<exists>ks p. StSave c ks p \<in> set (st_tasks s)))
    \<and> (st_status s c = Saved \<longrightarrow> StIdle c \<in> set (st_tasks s))
    \<and> (st_logo s = LogoUploading \<longrightarrow> (\<exists>f. StUpload f \<in> set (st_tasks s)))
    \<and> (st_logo s \<in> {LogoDone, LogoError} \<longrightarrow> StLogoIdle \<in> set (st_tasks s))
    \<and> map fst (st_form s) = map fst SETTING_DEFAULTS"
proof -
  have "st_ok s" using assms by (rule settings.ok_reached)
  moreover have "saves c t \<Longrightarrow> \<exists>ks p. t = StSave c ks p" for t by (cases t) auto
  moreover have "uploads t \<Longrightarrow> \<exists>f. t = StUpload f" for t by (cases t) auto
  ultimately show ?thesis unfolding st_ok_def msg_ok_def by metis
qed

definition demo_settings :: "nat settings_page" where
  "demo_settings = \<lparr>storage = Map.empty, world = 0, traffic = [], html_dark = False, data_theme = None,
     st_form = SETTING_DEFAULTS, st_status = (\<lambda>_. Idle), st_dark = False, st_logo = LogoIdle, st_tasks = []\<rparr>"

theorem save_messages_end_witness:
  "\<exists>ks p. StSave Branding ks p \<in> set (st_tasks (st_step (demo_env []) (StSaveClick Branding) demo_settings))"
proof -
  have "reaches (st_step (demo_env [])) st_start (st_step (demo_env []) (StSaveClick Branding) demo_settings)"
    by (intro reaches_step reaches_start) (simp add: st_start_def demo_settings_def)
  from save_messages_end [OF this, of Branding] show ?thesis
    by (simp add: start_save_def st_spawn_def set_status_def)
qed

lemma map_of_spread: "k \<in> fst ` set f \<Longrightarrow>
    map_of (spread f v) k = (case opt_prop k v of None \<Rightarrow> map_of f k | Some x \<Rightarrow> Some x)"
proof (induction f)
  case (Cons q f)
  obtain a b where p: "q = (a, b)" by (cases q)
  show ?case
  proof (cases "k = a")
    case True
    then show ?thesis by (simp add: p spread_def split: option.split)
  next
    case False
    then show ?thesis using Cons by (simp add: p spread_def split: option.split)
  qed
qed simp

text \<open>C37. What a save does with its answer: when the request fails nothing changes but the message;
  when it succeeds every setting that the answer has takes the answer's value, the others stay, the
  section says it is saved, and exactly if the theme was saved the document and the cache take the
  answer's theme, so that a page loaded later that does not reach the server shows it too.\<close>

theorem save_takes_answer:
  assumes "api E (js ''/api/settings'') (send_json (js ''PUT'') payload) True s = (r, s1)"
  shows "case r of
      Inl _ \<Rightarrow> st_run E (StSave c ks payload) s = set_status c SaveError s1 \<and> st_form s1 = st_form s
    | Inr v \<Rightarrow> \<not> nullish v \<longrightarrow>
        (let t = st_run E (StSave c ks payload) s;
             theme = val_str (or_nullish (opt_prop CHAT_THEME v) (Some (JStr (js ''default'')))) in
         (\<forall>k \<in> fst ` set (st_form s). map_of (st_form t) k = (case opt_prop k v of None \<Rightarrow> map_of (st_form s) k | Some x \<Rightarrow> Some x))
         \<and> st_status t = (st_status s)(c := Saved) \<and> st_tasks t = st_tasks s @ [StIdle c]
         \<and> data_theme t = (if CHAT_THEME \<in> set ks then Some theme else data_theme s)
         \<and> storage t = (if CHAT_THEME \<in> set ks then (storage s1)(THEME \<mapsto> theme) else storage s1)
         \<and> (CHAT_THEME \<in> set ks \<longrightarrow>
             data_theme (snd (load_settings (E\<lparr>fetch := \<lambda>w q. (Rejected, w)\<rparr>) (reloaded t))) = Some theme))"
proof -
  obtain a b d where s1: "s1 = s\<lparr>storage := a, world := b, traffic := d\<rparr>" using assms by (rule api_net)
  have reload: "data_theme (snd (load_settings (E\<lparr>fetch := \<lambda>w q. (Rejected, w)\<rparr>) (reloaded t))) =
      Some (case storage t THEME of None \<Rightarrow> js ''default'' | Some th \<Rightarrow> th)" for t :: "('a, 'b) settings_page_scheme"
    by (simp add: load_settings_cases apply_theme_def reloaded_def apply_saved_dark_def Let_def del: js_Cons)
  show ?thesis
  proof (cases r)
    case (Inl e)
    then show ?thesis using assms s1 by (simp add: settle_def)
  next
    case (Inr v)
    have run: "st_run E (StSave c ks payload) s = save_answered c ks v s1" using assms Inr by (simp add: settle_def)
    have member: "jprop CHAT_THEME (value_of v) = opt_prop CHAT_THEME v" if "\<not> nullish v"
      using that by (cases v) (simp_all add: nullish_def value_of_def)
    show ?thesis unfolding Inr run
      by (simp add: save_answered_def end_of_save_def adopt_theme_def set_item_def apply_theme_def set_status_def st_spawn_def
        s1 map_of_spread Let_def reload member del: js_Cons)
  qed
qed

theorem save_takes_answer_witness:
  "data_theme (st_run (demo_env [Answered (json_answer 200 (JObj [(CHAT_THEME, JStr (js ''rose''))]))])
     (StSave ThemeChoice [CHAT_THEME] (JObj [(CHAT_THEME, JStr (js ''rose''))])) demo_settings) = Some (js ''rose'')"
proof -
  let ?j = "JObj [(CHAT_THEME, JStr (js ''rose''))]"
  let ?E = "demo_env [Answered (json_answer 200 ?j)]"
  have "\<exists>l. api ?E (js ''/api/settings'') (send_json (js ''PUT'') ?j) True demo_settings
      = (Inr (Some ?j), demo_settings\<lparr>world := Suc (world demo_settings), traffic := l\<rparr>)"
    by (rule demo_api) (simp_all add: demo_settings_def)
  then obtain s1 where "api ?E (js ''/api/settings'') (send_json (js ''PUT'') ?j) True demo_settings = (Inr (Some ?j), s1)"
    by blast
  from save_takes_answer [OF this, of ThemeChoice "[CHAT_THEME]"] show ?thesis
    by (simp add: Let_def nullish_def or_nullish_def val_str_def del: js_Cons)
qed

text \<open>
  Three things that go wrong. The server answers a save with all its settings, so the edits of the
  other sections that were not saved yet are overwritten. The timer of an earlier save takes away the
  message of one that is still running. And a theme that could not be saved stays marked as active.
\<close>

lemma unsaved_edits_lost:
  assumes "api E (js ''/api/settings'') (send_json (js ''PUT'') payload) True s = (Inr (Some v), s1)" and "v \<noteq> JNull"
    and "jprop k v = Some x" and "k \<in> fst ` set (st_form s)"
  shows "map_of (st_form (st_run E (StSave c ks payload) s)) k = Some x"
proof -
  obtain a b d where "s1 = s\<lparr>storage := a, world := b, traffic := d\<rparr>" using assms(1) by (rule api_net)
  then show ?thesis using assms
    by (simp add: settle_def save_answered_def end_of_save_def adopt_theme_def set_item_def apply_theme_def set_status_def
      st_spawn_def map_of_spread Let_def nullish_def del: js_Cons)
qed

lemma timer_hides_saving:
  assumes "st_tasks s = [StIdle Branding]"
  shows "let t = fold (st_step E) [StSaveClick Branding, StRun 0] s in
    SaveBar (st_status t Branding) = None \<and> (\<exists>ks p. st_tasks t = [StSave Branding ks p])"
  using assms by (simp add: start_save_def st_spawn_def set_status_def remove_at_def SaveBar_def Let_def del: js_Cons)

lemma failed_theme_stays_active:
  assumes "st_tasks s = []" and "t \<in> fst ` set THEMES" and "CHAT_THEME \<in> fst ` set (st_form s)"
    and "api E (js ''/api/settings'') (send_json (js ''PUT'') (save_payload [CHAT_THEME] [(CHAT_THEME, t)]
        (set_setting CHAT_THEME (JStr t) (st_form s)))) True
      (s\<lparr>st_form := set_setting CHAT_THEME (JStr t) (st_form s), st_status := (st_status s)(ThemeChoice := Saving),
         st_tasks := []\<rparr>) = (Inl e, s1)"
  shows "let u = fold (st_step E) [StTheme t, StRun 0] s in
    map_of (st_form u) CHAT_THEME = Some (JStr t) \<and> st_status u ThemeChoice = SaveError"
proof -
  obtain a b d where s1: "s1 = s\<lparr>st_form := set_setting CHAT_THEME (JStr t) (st_form s),
      st_status := (st_status s)(ThemeChoice := Saving), st_tasks := [], storage := a, world := b, traffic := d\<rparr>"
    using assms(4) by (rule api_net)
  have "map_of (set_setting CHAT_THEME (JStr t) f) CHAT_THEME = Some (JStr t)" if "CHAT_THEME \<in> fst ` set f" for f
    using that by (induction f) (auto simp: set_setting_def)
  then show ?thesis using assms s1
    by (simp add: start_save_def st_spawn_def set_status_def remove_at_def settle_def Let_def del: js_Cons)
qed

end
