(* ===== verification/Github_Page.thy ===== *)
theory Github_Page
  imports Page_Kit Js_Uri
begin

text \<open>
  The repository browser, \<open>panel/app/(dash)/tools/github/page.tsx\<close>, as a machine: the list of
  repositories, the folder that is shown and the file that is open.
\<close>

section \<open>State\<close>

text \<open>The waiting continuations: the requests with their addresses.\<close>

datatype gh_task =
    GhRepos
  | GhTree jstr
  | GhFile jstr

record 'w github_page = "'w net" +
  gh_repos :: "json list"
  gh_repo :: "json option"
  gh_path :: jstr
  gh_entries :: "json list"
  gh_file :: "json option"
  gh_error :: jstr
  gh_loading :: bool
  gh_tasks :: "gh_task list"

definition gh_spawn :: "gh_task \<Rightarrow> ('w, 'm) github_page_scheme \<Rightarrow> ('w, 'm) github_page_scheme" where
  "gh_spawn t s = s\<lparr>gh_tasks := gh_tasks s @ [t]\<rparr>"

section \<open>Addresses\<close>

text \<open>\<open>const [owner, name] = full_name.split("/")\<close>; a missing part prints as \<open>undefined\<close>.\<close>

definition split_part :: "jstr \<Rightarrow> nat \<Rightarrow> jstr" where
  "split_part full i = (let ps = js_split (js ''/'') full in if i < length ps then ps ! i else js ''undefined'')"

definition repo_url :: "json \<Rightarrow> jstr \<Rightarrow> jstr \<Rightarrow> jstr option" where
  "repo_url r kind p = (let full = str_field (js ''full_name'') r in
     map_option (\<lambda>e. js ''/api/tools/github/repos/'' @ split_part full 0 @ js ''/'' @ split_part full 1
       @ js ''/'' @ kind @ js ''?path='' @ e) (encodeURIComponent p))"

text \<open>\<open>path.split("/").filter(Boolean)\<close> without its last part.\<close>

definition parent_of :: "jstr \<Rightarrow> jstr" where
  "parent_of p = js_join (js ''/'') (butlast (filter (\<lambda>x. x \<noteq> []) (js_split (js ''/'') p)))"

section \<open>Operations\<close>

definition gh_fail :: "'w env \<Rightarrow> err \<Rightarrow> ('w, 'm) github_page_scheme \<Rightarrow> ('w, 'm) github_page_scheme" where
  "gh_fail E e s = s\<lparr>gh_error := err_message E e\<rparr>"

definition gh_ended :: "('w, 'm) github_page_scheme \<Rightarrow> ('w, 'm) github_page_scheme" where
  "gh_ended s = s\<lparr>gh_loading := False\<rparr>"

text \<open>A path that cannot be encoded throws inside the \<open>try\<close>.\<close>

definition openRepo :: "'w env \<Rightarrow> json \<Rightarrow> jstr \<Rightarrow> ('w, 'm) github_page_scheme \<Rightarrow> ('w, 'm) github_page_scheme" where
  "openRepo E r p s = (let s1 = s\<lparr>gh_repo := Some r, gh_path := p, gh_file := None, gh_error := [], gh_loading := True\<rparr> in
     case repo_url r (js ''tree'') p of
       None \<Rightarrow> gh_ended (gh_fail E UriErr s1)
     | Some u \<Rightarrow> gh_spawn (GhTree u) s1)"

definition openEntry :: "'w env \<Rightarrow> json \<Rightarrow> ('w, 'm) github_page_scheme \<Rightarrow> ('w, 'm) github_page_scheme" where
  "openEntry E e s = (case gh_repo s of
       None \<Rightarrow> s
     | Some r \<Rightarrow> if str_field (js ''type'') e = js ''dir'' then openRepo E r (str_field (js ''path'') e) s
         else (let s1 = s\<lparr>gh_error := [], gh_loading := True\<rparr> in
           case repo_url r (js ''file'') (str_field (js ''path'') e) of
             None \<Rightarrow> gh_ended (gh_fail E UriErr s1)
           | Some u \<Rightarrow> gh_spawn (GhFile u) s1))"

definition parentPath :: "'w env \<Rightarrow> ('w, 'm) github_page_scheme \<Rightarrow> ('w, 'm) github_page_scheme" where
  "parentPath E s = (case gh_repo s of None \<Rightarrow> s | Some r \<Rightarrow> openRepo E r (parent_of (gh_path s)) s)"

fun gh_run :: "'w env \<Rightarrow> gh_task \<Rightarrow> ('w, 'm) github_page_scheme \<Rightarrow> ('w, 'm) github_page_scheme" where
  "gh_run E GhRepos s = settle (api E (js ''/api/tools/github/repos'') no_opts True) (gh_fail E)
     (\<lambda>v s. s\<lparr>gh_repos := items_of v\<rparr>) s"
| "gh_run E (GhTree u) s = settle (api E u no_opts True) (\<lambda>e s. gh_ended (gh_fail E e s))
     (\<lambda>v s. gh_ended (s\<lparr>gh_entries := items_of v\<rparr>)) s"
| "gh_run E (GhFile u) s = settle (api E u no_opts True) (\<lambda>e s. gh_ended (gh_fail E e s))
     (\<lambda>v s. gh_ended (s\<lparr>gh_file := (if nullish v then None else v)\<rparr>)) s"

text \<open>The events; the folder's entries, and the way up, are hidden while a file is open.\<close>

datatype gh_event =
    GhMount
  | GhOpenRepo json
  | GhOpenEntry json
  | GhParent
  | GhBack
  | GhRun nat

fun gh_step :: "'w env \<Rightarrow> gh_event \<Rightarrow> ('w, 'm) github_page_scheme \<Rightarrow> ('w, 'm) github_page_scheme" where
  "gh_step E GhMount s = gh_spawn GhRepos s"
| "gh_step E (GhOpenRepo r) s = (if r \<in> set (gh_repos s) then openRepo E r [] s else s)"
| "gh_step E (GhOpenEntry e) s = (if gh_file s = None \<and> e \<in> set (gh_entries s) then openEntry E e s else s)"
| "gh_step E GhParent s = (if gh_file s = None \<and> gh_path s \<noteq> [] then parentPath E s else s)"
| "gh_step E GhBack s = s\<lparr>gh_file := None\<rparr>"
| "gh_step E (GhRun i) s = (if i < length (gh_tasks s)
     then gh_run E (gh_tasks s ! i) (s\<lparr>gh_tasks := remove_at i (gh_tasks s)\<rparr>) else s)"

definition path_label :: "('w, 'm) github_page_scheme \<Rightarrow> jstr" where
  "path_label s = (case gh_repo s of
       None \<Rightarrow> js ''Repo se'' @ [0xE7] @ js ''in''
     | Some r \<Rightarrow> str_field (js ''full_name'') r @ js ''/ '' @ (if gh_path s = [] then js ''(k'' @ [0xF6] @ js ''k)'' else gh_path s))"

section \<open>Facts on paths\<close>

text \<open>A folder's path: names joined by slashes.\<close>

definition name_ok :: "jstr \<Rightarrow> bool" where
  "name_ok n \<longleftrightarrow> n \<noteq> [] \<and> 0x2F \<notin> set n"

lemma split_names: "\<forall>n \<in> set ns. name_ok n \<Longrightarrow> ns \<noteq> [] \<Longrightarrow> js_split (js ''/'') (js_join (js ''/'') ns) = ns"
proof (induction ns)
  case (Cons n ns)
  have n: "0x2F \<notin> set n" using Cons.prems by (simp add: name_ok_def)
  show ?case
  proof (cases "ns = []")
    case True
    then show ?thesis using n by (simp add: js_split_None sublist_single)
  next
    case False
    then have "js_join (js ''/'') (n # ns) = n @ js ''/'' @ js_join (js ''/'') ns" by (rule js_join_Cons)
    moreover have "js_split (js ''/'') (n @ js ''/'' @ js_join (js ''/'') ns) = n # js_split (js ''/'') (js_join (js ''/'') ns)"
      using n by (intro js_split_here) (simp_all add: sublist_single)
    ultimately show ?thesis using Cons False by simp
  qed
qed simp

lemma parent_of_names: "\<forall>n \<in> set ns. name_ok n \<Longrightarrow> parent_of (js_join (js ''/'') ns) = js_join (js ''/'') (butlast ns)"
proof (cases "ns = []")
  case True
  then show ?thesis by (simp add: parent_of_def js_split_None sublist_single)
next
  case False
  assume n: "\<forall>n \<in> set ns. name_ok n"
  then have "filter (\<lambda>x. x \<noteq> []) ns = ns" by (simp add: name_ok_def filter_id_conv)
  then show ?thesis using split_names [OF n False] by (simp add: parent_of_def)
qed

lemma repo_url_query:
  assumes "repo_url r kind p = Some u"
  shows "\<exists>q. u = js ''/api/tools/github/repos/'' @ split_part (str_field (js ''full_name'') r) 0 @ js ''/''
      @ split_part (str_field (js ''full_name'') r) 1 @ js ''/'' @ kind @ js ''?'' @ q \<and> query_get (js ''path'') q = Some p"
proof -
  obtain e where e: "encodeURIComponent p = Some e" and u: "u = js ''/api/tools/github/repos/''
      @ split_part (str_field (js ''full_name'') r) 0 @ js ''/'' @ split_part (str_field (js ''full_name'') r) 1
      @ js ''/'' @ kind @ js ''?path='' @ e"
    using assms by (auto simp: repo_url_def Let_def)
  have "query_get (js ''path'') (js ''path'' @ js ''='' @ e) = Some p"
    by (rule query_get_encoded [OF e]) (simp add: unreserved_def)
  then show ?thesis using u by (intro exI [of _ "js ''path='' @ e"]) simp
qed

section \<open>Properties\<close>

text \<open>C38. Into a folder and back: opening the entry of a folder inside the folder that is shown asks the
  server for exactly the entry's path, whatever characters are in it, since the query of the address
  decodes to it; and the way up then asks for the folder one came from.\<close>

theorem folder_and_back:
  assumes "gh_repo s = Some r" and "\<forall>n \<in> set (ns @ [m]). name_ok n" and "gh_path s = js_join (js ''/'') ns"
    and "str_field (js ''type'') e = js ''dir''" and "str_field (js ''path'') e = js_join (js ''/'') (ns @ [m])"
    and "well_formed (js_join (js ''/'') (ns @ [m]))" and "well_formed (js_join (js ''/'') ns)"
  shows "\<exists>q q'. let pre = js ''/api/tools/github/repos/'' @ split_part (str_field (js ''full_name'') r) 0 @ js ''/''
        @ split_part (str_field (js ''full_name'') r) 1 @ js ''/tree?''; t = openEntry E e s; u = parentPath E t in
      gh_tasks t = gh_tasks s @ [GhTree (pre @ q)] \<and> query_get (js ''path'') q = Some (str_field (js ''path'') e)
      \<and> gh_path t = str_field (js ''path'') e \<and> gh_loading t
      \<and> gh_tasks u = gh_tasks t @ [GhTree (pre @ q')] \<and> query_get (js ''path'') q' = Some (gh_path s)
      \<and> gh_path u = gh_path s \<and> gh_repo u = gh_repo s"
proof -
  let ?p = "js_join (js ''/'') (ns @ [m])" and ?p' = "js_join (js ''/'') ns"
  obtain u u' where u: "repo_url r (js ''tree'') ?p = Some u" "repo_url r (js ''tree'') ?p' = Some u'"
    using assms(6,7) by (simp add: repo_url_def encodeURIComponent_def Let_def)
  have t: "openEntry E e s = gh_spawn (GhTree u)
      (s\<lparr>gh_repo := Some r, gh_path := ?p, gh_file := None, gh_error := [], gh_loading := True\<rparr>)"
    using assms(1,4,5) u(1) by (simp add: openEntry_def openRepo_def Let_def del: js_Cons)
  have "parent_of ?p = ?p'" using parent_of_names [OF assms(2)] by simp
  then have v: "parentPath E (openEntry E e s) = gh_spawn (GhTree u') ((openEntry E e s)
      \<lparr>gh_repo := Some r, gh_path := ?p', gh_file := None, gh_error := [], gh_loading := True\<rparr>)"
    using u(2) by (simp add: t parentPath_def openRepo_def gh_spawn_def Let_def del: js_Cons)
  obtain q q' where "u = js ''/api/tools/github/repos/'' @ split_part (str_field (js ''full_name'') r) 0 @ js ''/''
      @ split_part (str_field (js ''full_name'') r) 1 @ js ''/'' @ js ''tree'' @ js ''?'' @ q" "query_get (js ''path'') q = Some ?p"
    "u' = js ''/api/tools/github/repos/'' @ split_part (str_field (js ''full_name'') r) 0 @ js ''/''
      @ split_part (str_field (js ''full_name'') r) 1 @ js ''/'' @ js ''tree'' @ js ''?'' @ q'" "query_get (js ''path'') q' = Some ?p'"
    using repo_url_query [OF u(1)] repo_url_query [OF u(2)] by blast
  then show ?thesis using assms(1,3,5)
    by (intro exI [of _ q] exI [of _ q']) (simp add: v, simp add: t gh_spawn_def)
qed

definition demo_github :: "nat github_page" where
  "demo_github = \<lparr>storage = Map.empty, world = 0, traffic = [], gh_repos = [], gh_repo = Some (JObj [(js ''full_name'', JStr (js ''a/b''))]),
     gh_path = js ''src'', gh_entries = [], gh_file = None, gh_error = [], gh_loading = False, gh_tasks = []\<rparr>"

theorem folder_and_back_witness:
  "gh_path (parentPath (demo_env []) (openEntry (demo_env [])
     (JObj [(js ''type'', JStr (js ''dir'')), (js ''path'', JStr (js ''src/a&b''))]) demo_github)) = js ''src''"
proof -
  let ?e = "JObj [(js ''type'', JStr (js ''dir'')), (js ''path'', JStr (js ''src/a&b''))]"
  have n: "\<forall>n \<in> set ([js ''src''] @ [js ''a&b'']). name_ok n" by (simp add: name_ok_def)
  have w: "well_formed (js_join (js ''/'') ([js ''src''] @ [js ''a&b'']))" "well_formed (js_join (js ''/'') [js ''src''])"
    by (simp_all add: is_high_def is_low_def)
  have d: "gh_repo demo_github = Some (JObj [(js ''full_name'', JStr (js ''a/b''))])"
    "gh_path demo_github = js_join (js ''/'') [js ''src'']" "gh_path demo_github = js ''src''"
    "str_field (js ''type'') ?e = js ''dir''" "str_field (js ''path'') ?e = js_join (js ''/'') ([js ''src''] @ [js ''a&b''])"
    by (simp_all add: demo_github_def str_field_def)
  show ?thesis
    using folder_and_back [OF d(1) n d(2,4,5) w, of "demo_env []"] by (simp only: Let_def d(3)) blast
qed

text \<open>
  An answer that comes late: the entries of the first repository are shown under the name of the
  second, and a click on one of them opens its path there.
\<close>

lemma late_entries:
  assumes "gh_tasks s = [GhTree u]" and "gh_repo s = Some r"
    and "api E u no_opts True (s\<lparr>gh_tasks := []\<rparr>) = (Inr v, s1)"
  shows "let t = gh_step E (GhRun 0) s in gh_entries t = items_of v \<and> gh_repo t = Some r"
proof -
  obtain a b c where "s1 = s\<lparr>gh_tasks := [], storage := a, world := b, traffic := c\<rparr>" using assms(3) by (rule api_net)
  then show ?thesis using assms by (simp add: remove_at_def settle_def gh_ended_def Let_def)
qed

end
