(* ===== verification/Knowledge_Page.thy ===== *)
theory Knowledge_Page
  imports Page_Kit
begin

text \<open>
  The page of the knowledge base, \<open>panel/app/(dash)/knowledge/page.tsx\<close>, as a machine: indexing a
  document, choosing documents, and asking a question over them.
\<close>

section \<open>State\<close>

text \<open>The waiting continuations; a question has captured its text and the chosen documents.\<close>

datatype kn_task =
    KnLoad
  | KnIndex jstr
  | KnIndexRefresh
  | KnAsk jstr "jstr list"

record 'w know_page = "'w net" +
  kn_docs :: "json list"
  kn_selected :: "jstr list" \<comment> \<open>a \<open>Set\<close>, in the order of insertion\<close>
  kn_question :: jstr
  kn_answer :: jstr
  kn_sources :: "jstr list"
  kn_error :: jstr
  kn_indexing :: "jstr option"
  kn_asking :: bool
  kn_tasks :: "kn_task list"

definition kn_spawn :: "kn_task \<Rightarrow> ('w, 'm) know_page_scheme \<Rightarrow> ('w, 'm) know_page_scheme" where
  "kn_spawn t s = s\<lparr>kn_tasks := kn_tasks s @ [t]\<rparr>"

section \<open>Operations\<close>

definition kn_fail :: "'w env \<Rightarrow> err \<Rightarrow> ('w, 'm) know_page_scheme \<Rightarrow> ('w, 'm) know_page_scheme" where
  "kn_fail E e s = s\<lparr>kn_error := err_message E e\<rparr>"

definition set_know_docs :: "jval \<Rightarrow> ('w, 'm) know_page_scheme \<Rightarrow> ('w, 'm) know_page_scheme" where
  "set_know_docs v s = s\<lparr>kn_docs := items_of v\<rparr>"

definition indexDoc :: "json \<Rightarrow> ('w, 'm) know_page_scheme \<Rightarrow> ('w, 'm) know_page_scheme" where
  "indexDoc d s = (let i = str_field (js ''id'') d in kn_spawn (KnIndex i) (s\<lparr>kn_indexing := Some i, kn_error := []\<rparr>))"

definition index_ended :: "('w, 'm) know_page_scheme \<Rightarrow> ('w, 'm) know_page_scheme" where
  "index_ended s = s\<lparr>kn_indexing := None\<rparr>"

definition toggle_doc :: "jstr \<Rightarrow> jstr list \<Rightarrow> jstr list" where
  "toggle_doc i sel = (if i \<in> set sel then filter (\<lambda>x. x \<noteq> i) sel else sel @ [i])"

definition ask :: "('w, 'm) know_page_scheme \<Rightarrow> ('w, 'm) know_page_scheme" where
  "ask s = (if trim (kn_question s) = [] then s
     else kn_spawn (KnAsk (trim (kn_question s)) (kn_selected s))
       (s\<lparr>kn_asking := True, kn_error := [], kn_answer := [], kn_sources := []\<rparr>))"

text \<open>\<open>document_ids\<close> is \<open>undefined\<close>, and not in the text, when no document is chosen.\<close>

definition ask_opts :: "jstr \<Rightarrow> jstr list \<Rightarrow> init" where
  "ask_opts q ids = send_json (js ''POST'') (JObj ((js ''question'', JStr q)
     # (if ids = [] then [] else [(js ''document_ids'', JArr (map JStr ids))])))"

definition ask_ended :: "('w, 'm) know_page_scheme \<Rightarrow> ('w, 'm) know_page_scheme" where
  "ask_ended s = s\<lparr>kn_asking := False\<rparr>"

definition answered :: "'w env \<Rightarrow> jval \<Rightarrow> ('w, 'm) know_page_scheme \<Rightarrow> ('w, 'm) know_page_scheme" where
  "answered E v s = ask_ended (if nullish v then kn_fail E TypeErr s
     else s\<lparr>kn_answer := str_field (js ''answer'') (value_of v), kn_sources := str_items (opt_prop (js ''sources'') v)\<rparr>)"

fun kn_run :: "'w env \<Rightarrow> kn_task \<Rightarrow> ('w, 'm) know_page_scheme \<Rightarrow> ('w, 'm) know_page_scheme" where
  "kn_run E KnLoad s = settle (api E (js ''/api/documents'') no_opts True) (kn_fail E) set_know_docs s"
| "kn_run E (KnIndex i) s = settle (api E (js ''/api/rag/index/'' @ i) (just_method (js ''POST'')) True)
     (\<lambda>e s. index_ended (kn_fail E e s)) (\<lambda>_. kn_spawn KnIndexRefresh) s"
| "kn_run E KnIndexRefresh s = settle (api E (js ''/api/documents'') no_opts True)
     (\<lambda>e s. index_ended (kn_fail E e s)) (\<lambda>v s. index_ended (set_know_docs v s)) s"
| "kn_run E (KnAsk q ids) s = settle (api E (js ''/api/rag/ask'') (ask_opts q ids) True)
     (\<lambda>e s. ask_ended (kn_fail E e s)) (answered E) s"

text \<open>
  The events: a document's box is enabled when it is indexed, its button when it is not and is not
  being indexed; Enter asks unless a question runs, and so does the button.
\<close>

datatype kn_event =
    KnMount
  | KnIndexClick json
  | KnToggle json
  | KnType jstr
  | KnEnter
  | KnAskClick
  | KnRun nat

fun kn_step :: "'w env \<Rightarrow> kn_event \<Rightarrow> ('w, 'm) know_page_scheme \<Rightarrow> ('w, 'm) know_page_scheme" where
  "kn_step E KnMount s = kn_spawn KnLoad s"
| "kn_step E (KnIndexClick d) s = (if d \<in> set (kn_docs s) \<and> \<not> bool_field (js ''indexed'') d
     \<and> kn_indexing s \<noteq> Some (str_field (js ''id'') d) then indexDoc d s else s)"
| "kn_step E (KnToggle d) s = (if d \<in> set (kn_docs s) \<and> bool_field (js ''indexed'') d
     then s\<lparr>kn_selected := toggle_doc (str_field (js ''id'') d) (kn_selected s)\<rparr> else s)"
| "kn_step E (KnType t) s = s\<lparr>kn_question := t\<rparr>"
| "kn_step E KnEnter s = (if kn_asking s then s else ask s)"
| "kn_step E KnAskClick s = (if kn_asking s \<or> trim (kn_question s) = [] then s else ask s)"
| "kn_step E (KnRun i) s = (if i < length (kn_tasks s)
     then kn_run E (kn_tasks s ! i) (s\<lparr>kn_tasks := remove_at i (kn_tasks s)\<rparr>) else s)"

section \<open>The view\<close>

datatype know_panel =
    Hint
  | Preparing
  | AnswerShown jstr "jstr list"

text \<open>The parts of the answer's panel; the conditions are independent in the code.\<close>

definition know_panels :: "('w, 'm) know_page_scheme \<Rightarrow> know_panel list" where
  "know_panels s = (if kn_answer s = [] \<and> \<not> kn_asking s then [Hint] else [])
     @ (if kn_asking s then [Preparing] else [])
     @ (if kn_answer s \<noteq> [] then [AnswerShown (kn_answer s) (kn_sources s)] else [])"

definition selection_note :: "('w, 'm) know_page_scheme \<Rightarrow> jstr" where
  "selection_note s = (if kn_selected s \<noteq> [] then dec_nat (length (kn_selected s)) @ js '' belge se'' @ [0xE7] @ js ''ili''
     else js ''T'' @ [0xFC] @ js ''m'' @ [0xFC] @ js '' ('' @ dec_nat (length (filter (bool_field (js ''indexed'')) (kn_docs s))) @ js '' indeksli)'')"

section \<open>The invariant\<close>

fun asks :: "kn_task \<Rightarrow> bool" where
  "asks (KnAsk q ids) = True"
| "asks t = False"

fun ask_fine :: "kn_task \<Rightarrow> bool" where
  "ask_fine (KnAsk q ids) = (q \<noteq> [] \<and> distinct ids)"
| "ask_fine t = True"

definition kn_ok :: "('w, 'm) know_page_scheme \<Rightarrow> bool" where
  "kn_ok s \<longleftrightarrow> length (filter asks (kn_tasks s)) = (if kn_asking s then 1 else 0) \<and> distinct (kn_selected s)
     \<and> (\<forall>t \<in> set (kn_tasks s). ask_fine t) \<and> (kn_asking s \<longrightarrow> kn_answer s = [])"

definition kn_start :: "('w, 'm) know_page_scheme \<Rightarrow> bool" where
  "kn_start s \<longleftrightarrow> \<not> kn_asking s \<and> kn_selected s = [] \<and> kn_tasks s = []"

lemmas kn_handlers = kn_spawn_def kn_fail_def set_know_docs_def indexDoc_def index_ended_def ask_def ask_ended_def
  answered_def

lemma distinct_toggle: "distinct sel \<Longrightarrow> distinct (toggle_doc i sel)"
  by (simp add: toggle_doc_def)

lemma kn_ok_run:
  assumes "kn_ok s" and "i < length (kn_tasks s)"
  shows "kn_ok (kn_run E (kn_tasks s ! i) (s\<lparr>kn_tasks := remove_at i (kn_tasks s)\<rparr>))"
proof -
  obtain ys zs where ts: "kn_tasks s = ys @ kn_tasks s ! i # zs" "remove_at i (kn_tasks s) = ys @ zs"
    using remove_at_split [OF assms(2)] .
  let ?t = "kn_tasks s ! i"
  have "filter asks (kn_tasks s) = filter asks (ys @ ?t # zs)" by (subst ts(1)) (rule refl)
  then have n: "length (filter asks (ys @ ?t # zs)) = (if kn_asking s then 1 else 0)"
    using assms(1) by (simp only: kn_ok_def)
  have f: "\<forall>t \<in> set (ys @ zs). ask_fine t"
    using assms(1) set_remove_at [of i "kn_tasks s"] unfolding kn_ok_def ts(2) by blast
  have d: "distinct (kn_selected s)" "kn_asking s \<longrightarrow> kn_answer s = []"
    using assms(1) by (simp_all add: kn_ok_def)
  note keeps = settle_keeps [where P = kn_ok, OF api.touches]
  show ?thesis
  proof (cases ?t)
    case (KnAsk q ids)
    then have "length (filter asks (ys @ zs)) = 0" using n by (simp split: if_splits)
    then show ?thesis unfolding ts(2) KnAsk kn_run.simps using f d
      by (intro keeps) (simp_all add: kn_ok_def kn_handlers)
  qed (unfold ts(2), use n f d in \<open>simp_all only: kn_run.simps\<close>,
      (rule keeps; use n f d in \<open>simp add: kn_ok_def kn_handlers\<close>)+)
qed

lemma kn_ok_step: "kn_ok s \<Longrightarrow> kn_ok (kn_step E e s)"
proof (cases e)
  case (KnRun i)
  then show "kn_ok s \<Longrightarrow> ?thesis" by (simp add: kn_ok_run)
qed (auto simp: kn_ok_def kn_handlers distinct_toggle Let_def)

interpretation know: page_invariant "kn_step E" kn_start kn_ok
  by unfold_locales (simp add: kn_start_def kn_ok_def, rule kn_ok_step)

section \<open>Properties\<close>

text \<open>C39. One question at a time: in every reachable state the page says it prepares an answer exactly when
  one question is in flight, and never more than one is; while it is, no old answer is shown beside
  the message; and a question that is sent is not blank and names no document twice.\<close>

theorem one_question_at_a_time:
  assumes "reaches (kn_step E) kn_start s"
  shows "(kn_asking s \<longleftrightarrow> length (filter asks (kn_tasks s)) = 1) \<and> length (filter asks (kn_tasks s)) \<le> 1
    \<and> (Preparing \<in> set (know_panels s) \<longrightarrow> know_panels s = [Preparing])
    \<and> (\<forall>q ids. KnAsk q ids \<in> set (kn_tasks s) \<longrightarrow> q \<noteq> [] \<and> distinct ids)"
proof -
  have ok: "kn_ok s" using assms by (rule know.ok_reached)
  then have "KnAsk q ids \<in> set (kn_tasks s) \<Longrightarrow> ask_fine (KnAsk q ids)" for q ids
    unfolding kn_ok_def by blast
  then show ?thesis using ok by (auto simp: kn_ok_def know_panels_def)
qed

definition demo_know :: "nat know_page" where
  "demo_know = \<lparr>storage = Map.empty, world = 0, traffic = [], kn_docs = [], kn_selected = [], kn_question = [],
     kn_answer = [], kn_sources = [], kn_error = [], kn_indexing = None, kn_asking = False, kn_tasks = []\<rparr>"

theorem one_question_at_a_time_witness:
  "length (filter asks (kn_tasks (fold (kn_step (demo_env [])) [KnType (js ''q''), KnEnter, KnEnter] demo_know))) = 1"
proof -
  have q: "trim (js ''q'') = js ''q''" "js ''q'' \<noteq> []" by code_simp+
  have "reaches (kn_step (demo_env [])) kn_start (fold (kn_step (demo_env [])) [KnType (js ''q''), KnEnter, KnEnter] demo_know)"
    by (intro reaches_fold reaches_start) (simp add: kn_start_def demo_know_def)
  from one_question_at_a_time [OF this] show ?thesis
    using q by (simp add: demo_know_def ask_def kn_spawn_def del: js_Cons)
qed

text \<open>
  The mark of the document that is being indexed is one for all: when a second document is indexed
  meanwhile, the end of the first takes the mark from the second, whose button can be pressed again.
\<close>

lemma index_mark_lost:
  assumes "kn_tasks s = [KnIndexRefresh, KnIndex j]" and "kn_indexing s = Some j"
    and "api E (js ''/api/documents'') no_opts True (s\<lparr>kn_tasks := [KnIndex j]\<rparr>) = (Inr v, s1)"
    and "d \<in> set (items_of v)" and "str_field (js ''id'') d = j" and "\<not> bool_field (js ''indexed'') d"
  shows "kn_tasks (fold (kn_step E) [KnRun 0, KnIndexClick d] s) = [KnIndex j, KnIndex j]"
proof -
  obtain a b c where "s1 = s\<lparr>kn_tasks := [KnIndex j], storage := a, world := b, traffic := c\<rparr>" using assms(3) by (rule api_net)
  then show ?thesis using assms
    by (simp add: remove_at_def settle_def kn_handlers Let_def del: js_Cons)
qed

end
