(* ===== verification/Tool_Pages.thy ===== *)
theory Tool_Pages
  imports Page_Kit
begin

text \<open>
  Three tools of the marketplace as machines: Slack (\<open>panel/app/(dash)/tools/slack/page.tsx\<close>),
  Sentry (\<open>panel/app/(dash)/tools/sentry/page.tsx\<close>) and fine-tuning
  (\<open>panel/app/(dash)/tools/finetune/page.tsx\<close>).
\<close>

section \<open>Slack\<close>

text \<open>
  The waiting continuations. The end of unfollowing has captured whether all channels were shown and
  whether the channel was the active one.
\<close>

datatype sl_task =
    SlFollowed
  | SlAll
  | SlMessages jstr
  | SlFollow jstr jstr
  | SlFollowRefresh
  | SlUnfollow jstr bool bool
  | SlUnfollowRefresh bool bool
  | SlUnfollowAll bool
  | SlSend json jstr

record 'w slack_page = "'w net" +
  sl_channels :: "json list"
  sl_followed :: "json list"
  sl_active :: "json option"
  sl_msgs :: "json list"
  sl_input :: jstr
  sl_error :: jstr
  sl_show_all :: bool
  sl_tasks :: "sl_task list"

definition sl_spawn :: "sl_task \<Rightarrow> ('w, 'm) slack_page_scheme \<Rightarrow> ('w, 'm) slack_page_scheme" where
  "sl_spawn t s = s\<lparr>sl_tasks := sl_tasks s @ [t]\<rparr>"

definition channel_id :: "json \<Rightarrow> jstr" where
  "channel_id c = str_field (js ''id'') c"

definition sl_fail :: "'w env \<Rightarrow> err \<Rightarrow> ('w, 'm) slack_page_scheme \<Rightarrow> ('w, 'm) slack_page_scheme" where
  "sl_fail E e s = s\<lparr>sl_error := err_message E e\<rparr>"

definition loadAll :: "sl_task \<Rightarrow> ('w, 'm) slack_page_scheme \<Rightarrow> ('w, 'm) slack_page_scheme" where
  "loadAll t s = sl_spawn t (s\<lparr>sl_show_all := True\<rparr>)"

definition openChannel :: "json \<Rightarrow> ('w, 'm) slack_page_scheme \<Rightarrow> ('w, 'm) slack_page_scheme" where
  "openChannel c s = sl_spawn (SlMessages (channel_id c)) (s\<lparr>sl_active := Some c, sl_error := []\<rparr>)"

definition set_followed :: "jval \<Rightarrow> ('w, 'm) slack_page_scheme \<Rightarrow> ('w, 'm) slack_page_scheme" where
  "set_followed v s = s\<lparr>sl_followed := items_of v\<rparr>"

definition unfollow_end :: "bool \<Rightarrow> ('w, 'm) slack_page_scheme \<Rightarrow> ('w, 'm) slack_page_scheme" where
  "unfollow_end act s = (if act then s\<lparr>sl_active := None\<rparr> else s)"

definition follow_opts :: "jstr \<Rightarrow> jstr \<Rightarrow> init" where
  "follow_opts i n = send_json (js ''POST'') (JObj [(js ''id'', JStr i), (js ''name'', JStr n)])"

definition slack_send_opts :: "jstr \<Rightarrow> jstr \<Rightarrow> init" where
  "slack_send_opts i text = send_json (js ''POST'') (JObj [(js ''channel'', JStr i), (js ''text'', JStr text)])"

definition SL_FOLLOWED :: jstr where "SL_FOLLOWED = js ''/api/tools/slack/followed''"
definition SL_CHANNELS :: jstr where "SL_CHANNELS = js ''/api/tools/slack/channels''"

fun sl_run :: "'w env \<Rightarrow> sl_task \<Rightarrow> ('w, 'm) slack_page_scheme \<Rightarrow> ('w, 'm) slack_page_scheme" where
  "sl_run E SlFollowed s = settle (api E SL_FOLLOWED no_opts True) (sl_fail E) set_followed s"
| "sl_run E SlAll s = settle (api E SL_CHANNELS no_opts True) (sl_fail E) (\<lambda>v s. s\<lparr>sl_channels := items_of v\<rparr>) s"
| "sl_run E (SlMessages i) s = settle (api E (js ''/api/tools/slack/messages?channel='' @ i) no_opts True)
     (\<lambda>e s. (sl_fail E e s)\<lparr>sl_msgs := []\<rparr>) (\<lambda>v s. s\<lparr>sl_msgs := items_of v\<rparr>) s"
| "sl_run E (SlFollow i n) s = settle (api E (js ''/api/tools/slack/follow'') (follow_opts i n) True)
     (\<lambda>_ s. s) (\<lambda>_. sl_spawn SlFollowRefresh) s"
| "sl_run E SlFollowRefresh s = settle (api E SL_FOLLOWED no_opts True) (\<lambda>_ s. s)
     (\<lambda>v s. loadAll SlAll (set_followed v s)) s"
| "sl_run E (SlUnfollow i al act) s =
     settle (api E (js ''/api/tools/slack/follow/'' @ i) (just_method (js ''DELETE'')) True)
     (\<lambda>_ s. s) (\<lambda>_. sl_spawn (SlUnfollowRefresh al act)) s"
| "sl_run E (SlUnfollowRefresh al act) s = settle (api E SL_FOLLOWED no_opts True) (\<lambda>_ s. s)
     (\<lambda>v s. let s1 = set_followed v s in if al then loadAll (SlUnfollowAll act) s1 else unfollow_end act s1) s"
| "sl_run E (SlUnfollowAll act) s = settle (api E SL_CHANNELS no_opts True) (\<lambda>e s. unfollow_end act (sl_fail E e s))
     (\<lambda>v s. unfollow_end act (s\<lparr>sl_channels := items_of v\<rparr>)) s"
| "sl_run E (SlSend c text) s = settle (api E (js ''/api/tools/slack/send'') (slack_send_opts (channel_id c) text) True)
     (sl_fail E) (\<lambda>_. openChannel c) s"

definition slack_send :: "('w, 'm) slack_page_scheme \<Rightarrow> ('w, 'm) slack_page_scheme" where
  "slack_send s = (case sl_active s of
       None \<Rightarrow> s
     | Some c \<Rightarrow> if trim (sl_input s) = [] then s else sl_spawn (SlSend c (trim (sl_input s))) (s\<lparr>sl_input := []\<rparr>))"

text \<open>The channels an administrator can add.\<close>

definition addable :: "('w, 'm) slack_page_scheme \<Rightarrow> json list" where
  "addable s = filter (\<lambda>c. \<not> bool_field (js ''followed'') c) (sl_channels s)"

datatype sl_event =
    SlMount
  | SlOpen json
  | SlUnfollowClick json
  | SlShowAll
  | SlFollowClick json
  | SlType jstr
  | SlEnter
  | SlRun nat

fun sl_step :: "'w env \<Rightarrow> sl_event \<Rightarrow> ('w, 'm) slack_page_scheme \<Rightarrow> ('w, 'm) slack_page_scheme" where
  "sl_step E SlMount s = sl_spawn SlFollowed s"
| "sl_step E (SlOpen c) s = (if c \<in> set (sl_followed s) then openChannel c s else s)"
| "sl_step E (SlUnfollowClick c) s = (if is_admin E s \<and> c \<in> set (sl_followed s)
     then sl_spawn (SlUnfollow (channel_id c) (sl_show_all s) (map_option channel_id (sl_active s) = Some (channel_id c))) s else s)"
| "sl_step E SlShowAll s = (if is_admin E s \<and> \<not> sl_show_all s then loadAll SlAll s else s)"
| "sl_step E (SlFollowClick c) s = (if is_admin E s \<and> sl_show_all s \<and> c \<in> set (addable s)
     then sl_spawn (SlFollow (channel_id c) (str_field (js ''name'') c)) s else s)"
| "sl_step E (SlType t) s = (if sl_active s \<noteq> None then s\<lparr>sl_input := t\<rparr> else s)"
| "sl_step E SlEnter s = slack_send s"
| "sl_step E (SlRun i) s = (if i < length (sl_tasks s)
     then sl_run E (sl_tasks s ! i) (s\<lparr>sl_tasks := remove_at i (sl_tasks s)\<rparr>) else s)"

text \<open>Sending to a channel: a blank text sends nothing; any other empties the field at once and sends the
  trimmed text to the open channel; when the server took it the channel is open and its messages are
  read again, and when it did not the error is shown, the messages stay and the text is gone.\<close>

theorem slack_send_outcome:
  assumes "sl_active s = Some c" and "sl_tasks s = []"
    and "api E (js ''/api/tools/slack/send'') (slack_send_opts (channel_id c) (trim (sl_input s))) True
      (s\<lparr>sl_input := [], sl_tasks := []\<rparr>) = (r, s1)"
  shows "let t = fold (sl_step E) [SlEnter, SlRun 0] s in
    if trim (sl_input s) = [] then t = s
    else sl_input t = [] \<and> sl_active t = Some c \<and> sl_msgs t = sl_msgs s \<and> traffic t = traffic s1
      \<and> (case r of Inl e \<Rightarrow> sl_error t = err_message E e \<and> sl_tasks t = []
         | Inr _ \<Rightarrow> sl_error t = [] \<and> sl_tasks t = [SlMessages (channel_id c)])"
proof (cases "trim (sl_input s) = []")
  case True
  then show ?thesis using assms(1,2) by (simp add: slack_send_def)
next
  case False
  obtain a b d where "s1 = s\<lparr>sl_input := [], sl_tasks := [], storage := a, world := b, traffic := d\<rparr>"
    using assms(3) by (rule api_net)
  then show ?thesis using False assms
    by (cases r) (simp_all add: slack_send_def sl_spawn_def remove_at_def settle_def sl_fail_def openChannel_def Let_def)
qed

definition demo_slack :: "nat slack_page" where
  "demo_slack = \<lparr>storage = Map.empty, world = 0, traffic = [], sl_channels = [], sl_followed = [],
     sl_active = Some (JObj [(js ''id'', JStr (js ''C1''))]), sl_msgs = [], sl_input = js ''hi'', sl_error = [],
     sl_show_all = False, sl_tasks = []\<rparr>"

theorem slack_send_outcome_witness:
  "sl_input (fold (sl_step (demo_env [])) [SlEnter, SlRun 0] demo_slack) = []"
proof -
  have hi: "trim (js ''hi'') \<noteq> []" by code_simp
  have st: "sl_active demo_slack = Some (JObj [(js ''id'', JStr (js ''C1''))])" "sl_tasks demo_slack = []"
    "trim (sl_input demo_slack) \<noteq> []" using hi by (simp_all add: demo_slack_def del: js_Cons)
  obtain r s1 where "api (demo_env []) (js ''/api/tools/slack/send'')
      (slack_send_opts (channel_id (JObj [(js ''id'', JStr (js ''C1''))])) (trim (sl_input demo_slack))) True
      (demo_slack\<lparr>sl_input := [], sl_tasks := []\<rparr>) = (r, s1)" by (metis surj_pair)
  from slack_send_outcome [OF st(1,2) this] show ?thesis using st(3) by (simp only: Let_def if_False)
qed

text \<open>The end of a send opens its channel again, also when another one was opened meanwhile.\<close>

lemma send_switches_back:
  assumes "sl_tasks s = [SlSend c t]" and "sl_active s = Some d"
    and "api E (js ''/api/tools/slack/send'') (slack_send_opts (channel_id c) t) True (s\<lparr>sl_tasks := []\<rparr>) = (Inr v, s1)"
  shows "sl_active (sl_step E (SlRun 0) s) = Some c"
  using assms by (simp add: remove_at_def settle_def openChannel_def sl_spawn_def)

section \<open>Sentry\<close>

datatype sn_task =
    SnProjects
  | SnIssues jstr
  | SnExplain jstr

record 'w sentry_page = "'w net" +
  sn_projects :: "json list"
  sn_active :: jstr
  sn_issues :: "json list"
  sn_error :: jstr
  sn_link :: jstr
  sn_analyzing :: jstr
  sn_result :: jval
  sn_analysis_error :: jstr
  sn_tasks :: "sn_task list"

definition sn_spawn :: "sn_task \<Rightarrow> ('w, 'm) sentry_page_scheme \<Rightarrow> ('w, 'm) sentry_page_scheme" where
  "sn_spawn t s = s\<lparr>sn_tasks := sn_tasks s @ [t]\<rparr>"

definition openProject :: "jstr \<Rightarrow> ('w, 'm) sentry_page_scheme \<Rightarrow> ('w, 'm) sentry_page_scheme" where
  "openProject slug s = sn_spawn (SnIssues slug) (s\<lparr>sn_active := slug, sn_error := []\<rparr>)"

definition sentry_explain :: "jstr \<Rightarrow> ('w, 'm) sentry_page_scheme \<Rightarrow> ('w, 'm) sentry_page_scheme" where
  "sentry_explain issue s = (if trim issue = [] then s
     else sn_spawn (SnExplain issue) (s\<lparr>sn_analyzing := issue, sn_analysis_error := [], sn_result := None\<rparr>))"

fun sn_run :: "'w env \<Rightarrow> sn_task \<Rightarrow> ('w, 'm) sentry_page_scheme \<Rightarrow> ('w, 'm) sentry_page_scheme" where
  "sn_run E SnProjects s = settle (api E (js ''/api/tools/sentry/projects'') no_opts True)
     (\<lambda>e s. s\<lparr>sn_error := err_message E e\<rparr>) (\<lambda>v s. s\<lparr>sn_projects := items_of v\<rparr>) s"
| "sn_run E (SnIssues slug) s = settle (api E (js ''/api/tools/sentry/issues?project='' @ slug) no_opts True)
     (\<lambda>e s. s\<lparr>sn_error := err_message E e, sn_issues := []\<rparr>) (\<lambda>v s. s\<lparr>sn_issues := items_of v\<rparr>) s"
| "sn_run E (SnExplain issue) s =
     settle (api E (js ''/api/tools/sentry/explain'') (send_json (js ''POST'') (JObj [(js ''issue'', JStr issue)])) True)
     (\<lambda>e s. s\<lparr>sn_analysis_error := err_message E e, sn_analyzing := []\<rparr>)
     (\<lambda>v s. s\<lparr>sn_result := v, sn_analyzing := []\<rparr>) s"

definition issue_key :: "json \<Rightarrow> jstr" where
  "issue_key i = (let p = str_field (js ''permalink'') i in if p = [] then str_field (js ''id'') i else p)"

datatype sn_event =
    SnMount
  | SnOpen json
  | SnLink jstr
  | SnEnter
  | SnAnalyze
  | SnIssue json
  | SnClose
  | SnRun nat

fun sn_step :: "'w env \<Rightarrow> sn_event \<Rightarrow> ('w, 'm) sentry_page_scheme \<Rightarrow> ('w, 'm) sentry_page_scheme" where
  "sn_step E SnMount s = sn_spawn SnProjects s"
| "sn_step E (SnOpen p) s = (if p \<in> set (sn_projects s) then openProject (str_field (js ''slug'') p) s else s)"
| "sn_step E (SnLink t) s = s\<lparr>sn_link := t\<rparr>"
| "sn_step E SnEnter s = sentry_explain (sn_link s) s"
| "sn_step E SnAnalyze s = (if trim (sn_link s) = [] \<or> sn_analyzing s = sn_link s then s else sentry_explain (sn_link s) s)"
| "sn_step E (SnIssue i) s = (if i \<in> set (sn_issues s) \<and> sn_analyzing s \<noteq> issue_key i
     then sentry_explain (issue_key i) (s\<lparr>sn_link := issue_key i\<rparr>) else s)"
| "sn_step E SnClose s = s\<lparr>sn_result := None\<rparr>"
| "sn_step E (SnRun i) s = (if i < length (sn_tasks s)
     then sn_run E (sn_tasks s ! i) (s\<lparr>sn_tasks := remove_at i (sn_tasks s)\<rparr>) else s)"

definition sn_ok :: "('w, 'm) sentry_page_scheme \<Rightarrow> bool" where
  "sn_ok s \<longleftrightarrow> (sn_analyzing s \<noteq> [] \<longrightarrow> SnExplain (sn_analyzing s) \<in> set (sn_tasks s))"

definition sn_start :: "('w, 'm) sentry_page_scheme \<Rightarrow> bool" where
  "sn_start s \<longleftrightarrow> sn_analyzing s = [] \<and> sn_tasks s = []"

lemma sn_ok_run:
  assumes "sn_ok s" and "i < length (sn_tasks s)"
  shows "sn_ok (sn_run E (sn_tasks s ! i) (s\<lparr>sn_tasks := remove_at i (sn_tasks s)\<rparr>))"
proof -
  have keep: "SnExplain x \<in> set (remove_at i (sn_tasks s))"
    if "SnExplain x \<in> set (sn_tasks s)" "SnExplain x \<noteq> sn_tasks s ! i" for x
    using that by (rule in_set_remove_at)
  note keeps = settle_keeps [where P = sn_ok, OF api.touches]
  show ?thesis
  proof (cases "sn_tasks s ! i")
    case (SnExplain y)
    then show ?thesis by (simp only: sn_run.simps) (rule keeps; simp add: sn_ok_def)
  qed (simp_all only: sn_run.simps, (rule keeps; use assms(1) keep in \<open>simp add: sn_ok_def\<close>)+)
qed

lemma sn_ok_step: "sn_ok s \<Longrightarrow> sn_ok (sn_step E e s)"
proof (cases e)
  case (SnRun i)
  then show "sn_ok s \<Longrightarrow> ?thesis" by (simp add: sn_ok_run)
qed (auto simp: sn_ok_def sn_spawn_def openProject_def sentry_explain_def)

interpretation sentry: page_invariant "sn_step E" sn_start sn_ok
  by unfold_locales (simp add: sn_start_def sn_ok_def, rule sn_ok_step)

text \<open>The mark of an analysis that runs is on only while one is in flight.\<close>

lemma analysis_mark_ends:
  "reaches (sn_step E) sn_start s \<Longrightarrow> sn_analyzing s \<noteq> [] \<Longrightarrow> SnExplain (sn_analyzing s) \<in> set (sn_tasks s)"
  using sentry.ok_reached by (fastforce simp: sn_ok_def)

section \<open>Fine-tuning\<close>

datatype ft_task =
    FtLoad
  | FtCreate jstr jstr
  | FtRefresh

record 'w tune_page = "'w net" +
  ft_jobs :: "json list"
  ft_docs :: "json list"
  ft_doc :: jstr
  ft_model :: jstr
  ft_error :: jstr
  ft_creating :: bool
  ft_tasks :: "ft_task list"

definition ft_spawn :: "ft_task \<Rightarrow> ('w, 'm) tune_page_scheme \<Rightarrow> ('w, 'm) tune_page_scheme" where
  "ft_spawn t s = s\<lparr>ft_tasks := ft_tasks s @ [t]\<rparr>"

definition ft_calls :: "'w env \<Rightarrow> ('w, 'm, jval list) net_eff" where
  "ft_calls E = allE (map (\<lambda>p. api E p no_opts True) [js ''/api/tools/finetune/jobs'', js ''/api/documents''])"

definition training_doc :: "json \<Rightarrow> bool" where
  "training_doc d \<longleftrightarrow> ends_with (str_field (js ''filename'') d) (js ''.jsonl'')
     \<or> js_includes (str_field (js ''mime_type'') d) (js ''json'')"

definition store_tune :: "jval list \<Rightarrow> ('w, 'm) tune_page_scheme \<Rightarrow> ('w, 'm) tune_page_scheme" where
  "store_tune vs s = s\<lparr>ft_jobs := items_of (vs ! 0), ft_docs := filter training_doc (items_of (vs ! 1))\<rparr>"

definition ft_fail :: "'w env \<Rightarrow> err \<Rightarrow> ('w, 'm) tune_page_scheme \<Rightarrow> ('w, 'm) tune_page_scheme" where
  "ft_fail E e s = s\<lparr>ft_error := err_message E e\<rparr>"

definition ft_ended :: "('w, 'm) tune_page_scheme \<Rightarrow> ('w, 'm) tune_page_scheme" where
  "ft_ended s = s\<lparr>ft_creating := False\<rparr>"

definition NO_DOCUMENT :: jstr where
  "NO_DOCUMENT = js ''E'' @ [0x11F] @ js ''itim belgesi se'' @ [0xE7] @ js ''in (.jsonl).''"

definition create_job :: "('w, 'm) tune_page_scheme \<Rightarrow> ('w, 'm) tune_page_scheme" where
  "create_job s = (if ft_doc s = [] then s\<lparr>ft_error := NO_DOCUMENT\<rparr>
     else ft_spawn (FtCreate (ft_doc s) (ft_model s)) (s\<lparr>ft_creating := True, ft_error := []\<rparr>))"

definition job_opts :: "jstr \<Rightarrow> jstr \<Rightarrow> init" where
  "job_opts d m = send_json (js ''POST'') (JObj [(js ''document_id'', JStr d), (js ''base_model'', JStr m)])"

fun ft_run :: "'w env \<Rightarrow> ft_task \<Rightarrow> ('w, 'm) tune_page_scheme \<Rightarrow> ('w, 'm) tune_page_scheme" where
  "ft_run E FtLoad s = settle (ft_calls E) (ft_fail E) store_tune s"
| "ft_run E (FtCreate d m) s = settle (api E (js ''/api/tools/finetune/jobs'') (job_opts d m) True)
     (\<lambda>e s. ft_ended (ft_fail E e s)) (\<lambda>_. ft_spawn FtRefresh) s"
| "ft_run E FtRefresh s = settle (ft_calls E) (\<lambda>e s. ft_ended (ft_fail E e s)) (\<lambda>vs s. ft_ended (store_tune vs s)) s"

datatype ft_event =
    FtMount
  | FtDoc jstr
  | FtModel jstr
  | FtCreateClick
  | FtRun nat

fun ft_step :: "'w env \<Rightarrow> ft_event \<Rightarrow> ('w, 'm) tune_page_scheme \<Rightarrow> ('w, 'm) tune_page_scheme" where
  "ft_step E FtMount s = ft_spawn FtLoad s"
| "ft_step E (FtDoc d) s = (if d = [] \<or> d \<in> str_field (js ''id'') ` set (ft_docs s) then s\<lparr>ft_doc := d\<rparr> else s)"
| "ft_step E (FtModel m) s = s\<lparr>ft_model := m\<rparr>"
| "ft_step E FtCreateClick s = (if ft_creating s \<or> ft_doc s = [] then s else create_job s)"
| "ft_step E (FtRun i) s = (if i < length (ft_tasks s)
     then ft_run E (ft_tasks s ! i) (s\<lparr>ft_tasks := remove_at i (ft_tasks s)\<rparr>) else s)"

text \<open>A row of the table, \<open>created_at\<close> cut to the minute.\<close>

definition job_row :: "json \<Rightarrow> jstr list" where
  "job_row j = (let or_line = (\<lambda>t. if t = [] then [0x2014] else t) in
     [str_field (js ''base_model'') j, or_line (str_field (js ''external_job_id'') j), str_field (js ''status'') j,
      or_line (str_field (js ''fine_tuned_model'') j),
      (let t = js_slice 0 16 (str_field (js ''created_at'') j) in case cut_at (js ''T'') t of
         Some (a, b) \<Rightarrow> a @ [0x20] @ b | None \<Rightarrow> t)])"

fun creates :: "ft_task \<Rightarrow> bool" where
  "creates FtLoad = False"
| "creates (FtCreate d m) = True"
| "creates FtRefresh = True"

fun create_fine :: "ft_task \<Rightarrow> bool" where
  "create_fine (FtCreate d m) = (d \<noteq> [])"
| "create_fine t = True"

definition ft_ok :: "('w, 'm) tune_page_scheme \<Rightarrow> bool" where
  "ft_ok s \<longleftrightarrow> length (filter creates (ft_tasks s)) = (if ft_creating s then 1 else 0)
     \<and> (\<forall>t \<in> set (ft_tasks s). create_fine t) \<and> (\<forall>d \<in> set (ft_docs s). training_doc d)"

definition ft_start :: "('w, 'm) tune_page_scheme \<Rightarrow> bool" where
  "ft_start s \<longleftrightarrow> \<not> ft_creating s \<and> ft_docs s = [] \<and> ft_tasks s = []"

lemmas ft_handlers = ft_spawn_def ft_fail_def ft_ended_def store_tune_def create_job_def

lemma touches_ft_calls: "touches_net (ft_calls E)"
  unfolding ft_calls_def by (intro touches_allE) (auto intro: api.touches)

lemma ft_ok_run:
  assumes "ft_ok s" and "i < length (ft_tasks s)"
  shows "ft_ok (ft_run E (ft_tasks s ! i) (s\<lparr>ft_tasks := remove_at i (ft_tasks s)\<rparr>))"
proof -
  obtain ys zs where ts: "ft_tasks s = ys @ ft_tasks s ! i # zs" "remove_at i (ft_tasks s) = ys @ zs"
    using remove_at_split [OF assms(2)] .
  let ?t = "ft_tasks s ! i"
  have "filter creates (ft_tasks s) = filter creates (ys @ ?t # zs)" by (subst ts(1)) (rule refl)
  then have n: "length (filter creates (ys @ ?t # zs)) = (if ft_creating s then 1 else 0)"
    using assms(1) by (simp only: ft_ok_def)
  have f: "\<forall>t \<in> set (ys @ zs). create_fine t" "create_fine ?t"
    using assms set_remove_at [of i "ft_tasks s"] nth_mem unfolding ft_ok_def ts(2) by blast+
  have d: "\<forall>d \<in> set (ft_docs s). training_doc d" using assms(1) by (simp add: ft_ok_def)
  note keeps = settle_keeps [where P = ft_ok, OF touches_ft_calls] settle_keeps [where P = ft_ok, OF api.touches]
  show ?thesis
  proof (cases ?t)
    case FtLoad
    then have "length (filter creates (ys @ zs)) = (if ft_creating s then 1 else 0)" using n by simp
    then show ?thesis unfolding ts(2) FtLoad ft_run.simps using f d
      by (intro keeps) (simp_all add: ft_ok_def ft_handlers)
  next
    case (FtCreate x m)
    then have "ft_creating s" "filter creates (ys @ zs) = []" using n by (auto split: if_splits)
    then show ?thesis unfolding ts(2) FtCreate ft_run.simps using f d
      by (intro keeps) (simp_all add: ft_ok_def ft_handlers)
  next
    case FtRefresh
    then have "ft_creating s" "filter creates (ys @ zs) = []" using n by (auto split: if_splits)
    then show ?thesis unfolding ts(2) FtRefresh ft_run.simps using f d
      by (intro keeps) (simp_all add: ft_ok_def ft_handlers)
  qed
qed

lemma ft_ok_step: "ft_ok s \<Longrightarrow> ft_ok (ft_step E e s)"
proof (cases e)
  case (FtRun i)
  then show "ft_ok s \<Longrightarrow> ?thesis" by (simp add: ft_ok_run)
qed (auto simp: ft_ok_def ft_handlers)

interpretation tune: page_invariant "ft_step E" ft_start ft_ok
  by unfold_locales (simp add: ft_start_def ft_ok_def, rule ft_ok_step)

text \<open>One job at a time: in every reachable state the button is locked exactly while one creation, with the
  reload that ends it, is in flight, never more than one is, every creation names a document, and
  only documents that can train are offered.\<close>

lemma one_job_at_a_time:
  assumes "reaches (ft_step E) ft_start s"
  shows "(ft_creating s \<longleftrightarrow> length (filter creates (ft_tasks s)) = 1) \<and> length (filter creates (ft_tasks s)) \<le> 1
    \<and> (\<forall>d m. FtCreate d m \<in> set (ft_tasks s) \<longrightarrow> d \<noteq> []) \<and> (\<forall>d \<in> set (ft_docs s). training_doc d)"
proof -
  have ok: "ft_ok s" using assms by (rule tune.ok_reached)
  then have "FtCreate d m \<in> set (ft_tasks s) \<Longrightarrow> create_fine (FtCreate d m)" for d m
    unfolding ft_ok_def by blast
  then show ?thesis using ok by (auto simp: ft_ok_def)
qed

definition demo_tune :: "nat tune_page" where
  "demo_tune = \<lparr>storage = Map.empty, world = 0, traffic = [], ft_jobs = [], ft_docs = [], ft_doc = js ''d'',
     ft_model = js ''m'', ft_error = [], ft_creating = False, ft_tasks = []\<rparr>"

lemma one_job_at_a_time_witness:
  "length (filter creates (ft_tasks (fold (ft_step (demo_env [])) [FtCreateClick, FtCreateClick] demo_tune))) = 1"
proof -
  have d: "js ''d'' \<noteq> []" by simp
  have "reaches (ft_step (demo_env [])) ft_start (fold (ft_step (demo_env [])) [FtCreateClick, FtCreateClick] demo_tune)"
    by (intro reaches_fold reaches_start) (simp add: ft_start_def demo_tune_def)
  from one_job_at_a_time [OF this] show ?thesis
    using d by (simp add: demo_tune_def create_job_def ft_spawn_def del: js_Cons)
qed

end
