(* ===== verification/Dashboard_Page.thy ===== *)
theory Dashboard_Page
  imports Charts
begin

text \<open>
  The dashboard, \<open>panel/app/(dash)/dashboard/page.tsx\<close>, as a machine that loads its figures and the
  feed of alerts for a period, and the audit log, \<open>panel/app/(dash)/audit/page.tsx\<close>. The formatting
  of numbers and dates by the platform's locale is a parameter of the views (\<open>Insight_Views\<close>).
\<close>

section \<open>The dashboard\<close>

datatype db_task =
    DbMetrics nat
  | DbAlerts

record 'w dash_page = "'w net" +
  db_days :: nat
  db_summary :: jval
  db_series :: "json list"
  db_models :: "json list"
  db_users :: "json list"
  db_alerts :: "json list"
  db_error :: jstr
  db_tasks :: "db_task list"

definition db_spawn :: "db_task \<Rightarrow> ('w, 'm) dash_page_scheme \<Rightarrow> ('w, 'm) dash_page_scheme" where
  "db_spawn t s = s\<lparr>db_tasks := db_tasks s @ [t]\<rparr>"

definition metric_paths :: "nat \<Rightarrow> jstr list" where
  "metric_paths days = map (\<lambda>p. js ''/api/metrics/'' @ p @ js ''?days='' @ dec_nat days)
     [js ''summary'', js ''timeseries'', js ''by_model'', js ''by_user'']"

definition db_calls :: "'w env \<Rightarrow> nat \<Rightarrow> ('w, 'm, jval list) net_eff" where
  "db_calls E days = allE (map (\<lambda>p. api E p no_opts True) (metric_paths days))"

definition set_metrics :: "jval list \<Rightarrow> ('w, 'm) dash_page_scheme \<Rightarrow> ('w, 'm) dash_page_scheme" where
  "set_metrics vs s = s\<lparr>db_summary := vs ! 0, db_series := items_of (vs ! 1), db_models := items_of (vs ! 2),
     db_users := items_of (vs ! 3)\<rparr>"

fun db_run :: "'w env \<Rightarrow> db_task \<Rightarrow> ('w, 'm) dash_page_scheme \<Rightarrow> ('w, 'm) dash_page_scheme" where
  "db_run E (DbMetrics days) s = settle (db_calls E days) (\<lambda>e s. s\<lparr>db_error := err_message E e\<rparr>) set_metrics s"
| "db_run E DbAlerts s = settle (api E (js ''/api/alerts'') no_opts True) (\<lambda>_ s. s) (\<lambda>v s. s\<lparr>db_alerts := items_of v\<rparr>) s"

text \<open>The effect runs on mounting and whenever the period changes.\<close>

definition load_dashboard :: "('w, 'm) dash_page_scheme \<Rightarrow> ('w, 'm) dash_page_scheme" where
  "load_dashboard s = db_spawn DbAlerts (db_spawn (DbMetrics (db_days s)) s)"

datatype db_event = DbMount | DbDays nat | DbRun nat

fun db_step :: "'w env \<Rightarrow> db_event \<Rightarrow> ('w, 'm) dash_page_scheme \<Rightarrow> ('w, 'm) dash_page_scheme" where
  "db_step E DbMount s = load_dashboard s"
| "db_step E (DbDays n) s = (if n \<in> {7, 30, 90} \<and> n \<noteq> db_days s then load_dashboard (s\<lparr>db_days := n\<rparr>) else s)"
| "db_step E (DbRun i) s = (if i < length (db_tasks s)
     then db_run E (db_tasks s ! i) (s\<lparr>db_tasks := remove_at i (db_tasks s)\<rparr>) else s)"

section \<open>The view\<close>

text \<open>The age of an alert, from the milliseconds since it was made.\<close>

definition ago :: "int \<Rightarrow> jstr" where
  "ago ms = (let d = max 0 ms in
     if d < 60000 then js ''az '' @ [0xF6] @ js ''nce''
     else if d < 3600000 then dec_int (d div 60000) @ js '' dk '' @ [0xF6] @ js ''nce''
     else if d < 86400000 then dec_int (d div 3600000) @ js '' sa '' @ [0xF6] @ js ''nce''
     else dec_int (d div 86400000) @ js '' g'' @ [0xFC] @ js ''n '' @ [0xF6] @ js ''nce'')"

definition PILL :: "(jstr \<times> jstr \<times> jstr) list" where
  "PILL = [(js ''block'', js ''pill-crit'', js ''engel''), (js ''mask'', js ''pill-good'', js ''maske''),
     (js ''flag'', js ''pill-warn'', js ''flag'')]"

definition pill :: "jstr \<Rightarrow> jstr \<times> jstr" where
  "pill action = (case map_of PILL action of Some p \<Rightarrow> p | None \<Rightarrow> (js ''pill-warn'', action))"

text \<open>The feed: class, label, rule and age; the clock is a parameter.\<close>

definition alert_feed :: "(jstr \<Rightarrow> int) \<Rightarrow> json list \<Rightarrow> ((jstr \<times> jstr) \<times> jstr \<times> jstr) list" where
  "alert_feed since alerts = map (\<lambda>a. (pill (str_field (js ''action'') a), str_field (js ''rule_name'') a,
     ago (since (str_field (js ''created_at'') a)))) (js_slice 0 6 alerts)"

definition count_of :: "jstr \<Rightarrow> json \<Rightarrow> rat" where
  "count_of k j = (case jprop k j of Some (JInt i) \<Rightarrow> of_int i | _ \<Rightarrow> 0)"

definition request_chart :: "('w, 'm) dash_page_scheme \<Rightarrow> (rat \<times> rat) list" where
  "request_chart s = line_points 200 (map (count_of (js ''requests'')) (db_series s))"

definition token_chart :: "('w, 'm) dash_page_scheme \<Rightarrow> (rat \<times> rat) list" where
  "token_chart s = line_points 200 (map (count_of (js ''tokens'')) (db_series s))"

definition model_donut :: "('w, 'm) dash_page_scheme \<Rightarrow> (jstr \<times> rat \<times> rat \<times> rat) list" where
  "model_donut s = zip (map (str_field (js ''model'')) (db_models s)) (donut (map (count_of (js ''requests'')) (db_models s)))"

definition user_bars :: "('w, 'm) dash_page_scheme \<Rightarrow> (jstr \<times> rat) list" where
  "user_bars s = zip (map (str_field (js ''email'')) (db_users s)) (bar_widths (map (count_of (js ''tokens'')) (db_users s)))"

section \<open>The audit log\<close>

record 'w audit_page = "'w net" +
  au_rows :: "json list"
  au_error :: jstr

definition mount_audit :: "'w env \<Rightarrow> ('w, 'm audit_page_ext, unit) net_eff" where
  "mount_audit E = tryE E (bindE (api E (js ''/api/audit?limit=200'') no_opts True)
     (\<lambda>v. modE (\<lambda>s. s\<lparr>au_rows := items_of v\<rparr>))) (\<lambda>m s. s\<lparr>au_error := m\<rparr>)"

record audit_row =
  aw_model :: jstr
  aw_status :: jstr
  aw_failed :: bool
  aw_tokens :: jstr
  aw_latency :: jstr
  aw_policies :: "jstr option"

definition audit_row_of :: "json \<Rightarrow> audit_row" where
  "audit_row_of r =
     \<lparr>aw_model = val_str (or_nullish (jprop (js ''model'') r) (Some (JStr [0x2014]))),
      aw_status = val_str (jprop (js ''status_code'') r),
      aw_failed = (400 \<le> count_of (js ''status_code'') r),
      aw_tokens = val_str (jprop (js ''request_tokens'') r) @ js ''/'' @ val_str (jprop (js ''response_tokens'') r),
      aw_latency = val_str (jprop (js ''latency_ms'') r) @ js '' ms'',
      aw_policies = (let ps = str_items (jprop (js ''applied_policies'') r) in
        if ps = [] then None else Some (js_join (js '', '') ps))\<rparr>"

text \<open>The table: the rows, or one line when there are none and nothing failed.\<close>

definition audit_table :: "('w, 'm) audit_page_scheme \<Rightarrow> audit_row list + jstr option" where
  "audit_table s = (if au_rows s = [] then Inr (if au_error s = [] then Some (js ''No audit records yet.'') else None)
     else Inl (map audit_row_of (au_rows s)))"

section \<open>Facts\<close>

text \<open>All calls of a \<open>Promise.all\<close> are made, each with its one to three requests.\<close>

lemma runE_traffic:
  "\<exists>l. traffic (snd (runE (map (\<lambda>p. api E p no_opts True) ps) s)) = traffic s @ l \<and> length ps \<le> length l \<and> length l \<le> 3 * length ps"
proof (induction ps arbitrary: s)
  case (Cons p ps)
  let ?s = "snd (api E p no_opts True s)"
  obtain l where l: "traffic ?s = traffic s @ l" "1 \<le> length l" "length l \<le> 3"
    using api.traffic_bound [of E p no_opts True s] by auto
  obtain k where k: "traffic (snd (runE (map (\<lambda>p. api E p no_opts True) ps) ?s)) = traffic ?s @ k"
    "length ps \<le> length k" "length k \<le> 3 * length ps" using Cons.IH by blast
  have "snd (runE (map (\<lambda>p. api E p no_opts True) (p # ps)) s) = snd (runE (map (\<lambda>p. api E p no_opts True) ps) ?s)"
    by (auto simp: eff_defs attemptE_def split: prod.split sum.split)
  then show ?case using l k by (intro exI [of _ "l @ k"]) simp
qed (simp add: retE_def)

lemma runE_length: "fst (runE ms s) = Inr rs \<Longrightarrow> length rs = length ms"
proof (induction ms arbitrary: s rs)
  case (Cons m ms)
  then show ?case by (auto simp: eff_defs attemptE_def split: prod.splits sum.splits) (metis fst_conv)
qed (simp add: retE_def)

lemma allE_cases:
  "snd (allE ms s) = snd (runE ms s) \<and> (\<forall>as. fst (allE ms s) = Inr as \<longrightarrow> length as = length ms)"
proof -
  obtain r s1 where r: "runE ms s = (r, s1)" by (cases "runE ms s")
  have "\<exists>rs. r = Inr rs"
    using r by (induction ms arbitrary: s s1 r) (auto simp: eff_defs attemptE_def split: prod.splits sum.splits)
  then obtain rs where rs: "r = Inr rs" by blast
  have "length rs = length ms" using runE_length [of ms s rs] r rs by simp
  then show ?thesis using r rs by (auto simp: allE_def eff_defs settled_Inr split: sum.split)
qed

text \<open>C40. The dashboard's figures are of one answer: a load makes all four calls, whichever of them fail, with
  at most two more requests each for a refresh; either all four figures are replaced by their answers
  or none is and the error of the first failure is shown; and neither a load of the figures touches the
  feed of alerts nor the other way round, whose failure shows nowhere.\<close>

theorem dashboard_loads_all_or_none:
  "let t = db_run E (DbMetrics d) s; u = db_run E DbAlerts s in
    (\<exists>l. traffic t = traffic s @ l \<and> 4 \<le> length l \<and> length l \<le> 12)
    \<and> (case fst (db_calls E d s) of
        Inl e \<Rightarrow> (db_summary t, db_series t, db_models t, db_users t) = (db_summary s, db_series s, db_models s, db_users s)
          \<and> db_error t = err_message E e
      | Inr vs \<Rightarrow> length vs = 4 \<and> [db_summary t, Some (JArr (db_series t)), Some (JArr (db_models t)), Some (JArr (db_users t))]
          = [vs ! 0, Some (JArr (items_of (vs ! 1))), Some (JArr (items_of (vs ! 2))), Some (JArr (items_of (vs ! 3)))]
          \<and> db_error t = db_error s)
    \<and> db_alerts t = db_alerts s
    \<and> (db_summary u, db_series u, db_models u, db_users u, db_error u) = (db_summary s, db_series s, db_models s, db_users s, db_error s)"
proof -
  obtain r s1 where r: "db_calls E d s = (r, s1)" by (cases "db_calls E d s")
  have "touches_net (db_calls E d :: ('a, 'b dash_page_ext, jval list) net_eff)"
    unfolding db_calls_def by (intro touches_allE) (auto intro: api.touches)
  then obtain a b c where s1: "s1 = s\<lparr>storage := a, world := b, traffic := c\<rparr>"
    using touches_netE [where s = s] r by (metis prod.inject)
  have all: "snd (db_calls E d s) = snd (runE (map (\<lambda>p. api E p no_opts True) (metric_paths d)) s)"
    and len: "fst (db_calls E d s) = Inr vs \<Longrightarrow> length vs = 4" for vs
    using allE_cases [of "map (\<lambda>p. api E p no_opts True) (metric_paths d)" s] by (simp_all add: db_calls_def metric_paths_def)
  have "traffic (db_run E (DbMetrics d) s) = traffic s1"
    using r by (cases r) (simp_all add: settle_def set_metrics_def)
  moreover have "s1 = snd (runE (map (\<lambda>p. api E p no_opts True) (metric_paths d)) s)" using all r by simp
  moreover have "length (metric_paths d) = 4" by (simp add: metric_paths_def)
  ultimately have "\<exists>l. traffic (db_run E (DbMetrics d) s) = traffic s @ l \<and> 4 \<le> length l \<and> length l \<le> 12"
    using runE_traffic [of E "metric_paths d" s] by (simp only:) simp
  moreover obtain r' s2 where u: "api E (js ''/api/alerts'') no_opts True s = (r', s2)" by (metis surj_pair)
  then obtain a' b' c' where "s2 = s\<lparr>storage := a', world := b', traffic := c'\<rparr>" by (rule api_net)
  ultimately show ?thesis using r s1 len u
    by (cases r; cases r') (simp_all add: settle_def set_metrics_def Let_def del: js_Cons)
qed

text \<open>
  What a load does not do: it does not take away the error of an earlier one, and the figures of a
  period that was left may come last and stay under the new one.
\<close>

lemma figures_of_another_period:
  assumes "db_tasks s = [DbMetrics 30]" and "db_days s = 7" and "db_calls E 30 (s\<lparr>db_tasks := []\<rparr>) = (Inr vs, s1)"
    and "db_days s1 = 7"
  shows "let t = db_step E (DbRun 0) s in db_days t = 7 \<and> db_summary t = vs ! 0"
  using assms by (simp add: remove_at_def settle_def set_metrics_def Let_def)

lemma feed_is_short: "length (alert_feed since alerts) \<le> 6"
  by (simp add: alert_feed_def js_slice_0)

text \<open>The age in words is the age: in the unit that is named, rounded down, and the unit fits.\<close>

lemma ago_units:
  assumes "60000 \<le> ms"
  shows "\<exists>n u. n > 0 \<and> u \<in> {60000, 3600000, 86400000} \<and> n * u \<le> ms \<and> ms < (n + 1) * u
    \<and> (u = 60000 \<longrightarrow> n < 60) \<and> (u = 3600000 \<longrightarrow> n < 24)
    \<and> ago ms = dec_int n @ (if u = 60000 then js '' dk '' @ [0xF6] @ js ''nce'' else if u = 3600000 then js '' sa '' @ [0xF6] @ js ''nce'' else js '' g'' @ [0xFC] @ js ''n '' @ [0xF6] @ js ''nce'')"
proof -
  define u :: int where "u = (if ms < 3600000 then 60000 else if ms < 86400000 then 3600000 else 86400000)"
  have u: "u = 60000 \<and> ms < 3600000 \<or> u = 3600000 \<and> 3600000 \<le> ms \<and> ms < 86400000 \<or> u = 86400000 \<and> 86400000 \<le> ms"
    by (auto simp: u_def)
  then have q: "ms div u * u \<le> ms" "ms < (ms div u + 1) * u" "0 < ms div u" "u = 60000 \<longrightarrow> ms div u < 60" "u = 3600000 \<longrightarrow> ms div u < 24"
    using assms by (elim disjE conjE; simp; presburger)+
  have a: "ago ms = dec_int (ms div u) @ (if u = 60000 then js '' dk '' @ [0xF6] @ js ''nce'' else if u = 3600000 then js '' sa '' @ [0xF6] @ js ''nce'' else js '' g'' @ [0xFC] @ js ''n '' @ [0xF6] @ js ''nce'')"
    using u assms by (elim disjE conjE) (simp_all add: ago_def Let_def del: js_Cons)
  have "u \<in> {60000, 3600000, 86400000}" using u by blast
  then show ?thesis by (intro exI [of _ "ms div u"] exI [of _ u] conjI q a)
qed

end
