(* ===== verification/Api_Calls.thy ===== *)
theory Api_Calls
  imports Page_Kit
begin

text \<open>
  \<open>api\<close> and \<open>uploadFile\<close> of \<open>panel/lib/api.ts\<close> as tasks of the event loop: what the code
  does between two awaits is one step, and any other code of the page may run in between. In a
  browser tab several calls are under way together, and the user may log out while they are.
  \<open>Api_Session\<close> has a call as one effect; here its steps are shown to implement that effect,
  and what holds when the steps of many calls interleave.
\<close>

section \<open>The steps of a call\<close>

text \<open>
  A request waits for the server at one of three places of the code: the first \<open>fetch\<close>, the
  one of \<open>tryRefresh\<close>, which remembers the refused response, and the \<open>fetch\<close> of the retry.
\<close>

datatype place = First | Renewal response | Last

text \<open>
  \<open>Sent\<close> is on its way, \<open>Arrived\<close> has its answer in the queue of the event loop,
  \<open>TokensBody\<close> awaits the body of the refresh and \<open>Body\<close> the body of a response.
\<close>

datatype 'a call =
    Sent place request
  | Arrived place fetch_result
  | TokensBody response response
  | Body response
  | Returned "err + 'a"

definition begin_call :: "'w env \<Rightarrow> (jstr option \<Rightarrow> request) \<Rightarrow> bool \<Rightarrow> ('w, 'm) net_scheme \<Rightarrow> 'a call" where
  "begin_call E mk retry s = Sent (if retry then First else Last) (mk (getToken E s))"

text \<open>What follows the response to the request itself.\<close>

definition on_response :: "'w env \<Rightarrow> bool \<Rightarrow> response \<Rightarrow> ('w, 'm) net_scheme \<Rightarrow> 'a call" where
  "on_response E retry res s =
     (if status res = 401 \<and> retry then (case refresh_token s of
         None \<Rightarrow> Body res
       | Some t \<Rightarrow> Sent (Renewal res) (refresh_request E t))
      else Body res)"

fun on_arrival :: "'w env \<Rightarrow> place \<Rightarrow> fetch_result \<Rightarrow> ('w, 'm) net_scheme \<Rightarrow> 'a call" where
  "on_arrival E p Rejected s = Returned (Inl NetErr)"
| "on_arrival E First (Answered res) s = on_response E True res s"
| "on_arrival E (Renewal old) (Answered res) s = (if res_ok res then TokensBody old res else Body old)"
| "on_arrival E Last (Answered res) s = on_response E False res s"

fun resume :: "'w env \<Rightarrow> (jstr option \<Rightarrow> request) \<Rightarrow> (fetch_result \<Rightarrow> err + 'a) \<Rightarrow> 'a call
    \<Rightarrow> ('w, 'm) net_scheme \<Rightarrow> 'a call \<times> ('w, 'm) net_scheme" where
  "resume E mk outcome (Sent p q) s = (case fetch E (world s) q of (x, w) \<Rightarrow>
     (Arrived p x, s\<lparr>world := w, traffic := traffic s @ [(q, x)]\<rparr>))"
| "resume E mk outcome (Arrived p x) s = (on_arrival E p x s, s)"
| "resume E mk outcome (TokensBody old res) s = (case refreshed (Answered res) of
       Inl e \<Rightarrow> (Returned (Inl e), s)
     | Inr None \<Rightarrow> (Body old, s)
     | Inr (Some (a, f, ro)) \<Rightarrow> (let s' = setSession a f ro s in (Sent Last (mk (getToken E s')), s')))"
| "resume E mk outcome (Body res) s = (Returned (outcome (Answered res)), s)"
| "resume E mk outcome (Returned r) s = (Returned r, s)"

text \<open>How many steps a call has left at most.\<close>

fun steps_left :: "'a call \<Rightarrow> nat" where
  "steps_left (Sent First q) = 8"
| "steps_left (Arrived First x) = 7"
| "steps_left (Sent (Renewal old) q) = 6"
| "steps_left (Arrived (Renewal old) x) = 5"
| "steps_left (TokensBody old res) = 4"
| "steps_left (Sent Last q) = 3"
| "steps_left (Arrived Last x) = 2"
| "steps_left (Body res) = 1"
| "steps_left (Returned r) = 0"

fun returned :: "'a call \<Rightarrow> bool" where
  "returned (Returned r) = True"
| "returned c = False"

lemma returned_iff: "returned c \<longleftrightarrow> steps_left c = 0"
  by (cases c rule: steps_left.cases) simp_all

lemma steps_left_le: "steps_left c \<le> 8"
  by (cases c rule: steps_left.cases) simp_all

lemma resume_progress: "steps_left (fst (resume E mk outcome c s)) \<le> steps_left c - 1"
  by (cases c rule: steps_left.cases; cases "case c of Arrived p x \<Rightarrow> x | _ \<Rightarrow> Rejected")
    (auto simp: on_response_def Let_def split: prod.split sum.split option.split)

section \<open>A call that runs alone\<close>

fun run_call :: "nat \<Rightarrow> 'w env \<Rightarrow> (jstr option \<Rightarrow> request) \<Rightarrow> (fetch_result \<Rightarrow> err + 'a) \<Rightarrow> 'a call
    \<Rightarrow> ('w, 'm) net_scheme \<Rightarrow> 'a call \<times> ('w, 'm) net_scheme" where
  "run_call 0 E mk outcome c s = (c, s)"
| "run_call (Suc n) E mk outcome c s = (case resume E mk outcome c s of (c', s') \<Rightarrow> run_call n E mk outcome c' s')"

lemma run_returned [simp]: "run_call n E mk outcome (Returned r) s = (Returned r, s)"
  by (induction n) simp_all

lemma run_body: "run_call (Suc n) E mk outcome (Body res) s = (Returned (outcome (Answered res)), s)"
  by simp

context retried_call
begin

lemma run_last:
  "run_call (Suc (Suc (Suc n))) E mk outcome (Sent Last (mk (getToken E s))) s
    = (let (r, s') = call False s in (Returned r, s'))"
proof -
  obtain x w where x: "fetch E (world s) (mk (getToken E s)) = (x, w)" by fastforce
  then show ?thesis
    using last_attempt [OF x, of False]
    by (cases x) (simp_all add: on_response_def rejected)
qed

text \<open>The way from the refused response over the refresh to the retry.\<close>

lemma run_renewal:
  assumes "status res = 401"
  shows "run_call 6 E mk outcome (on_response E True res s) s
    = (let (r, s') = bindE (tryRefresh E) (\<lambda>ok. if ok then call False else finish res) s in (Returned r, s'))"
proof (cases rule: tryRefresh_cases [of s E])
  case none
  then show ?thesis using assms by (simp add: bindE_def finish on_response_def numeral_eq_Suc)
next
  case (asked t y w)
  let ?s = "s\<lparr>world := w, traffic := traffic s @ [(refresh_request E t, y)]\<rparr>"
  have renew: "run_call 6 E mk outcome (on_response E True res s) s
      = run_call 4 E mk outcome (on_arrival E (Renewal res) y ?s) ?s"
    using asked assms by (simp add: on_response_def numeral_eq_Suc)
  show ?thesis
  proof (cases "\<exists>a f ro. refreshed y = Inr (Some (a, f, ro))")
    case True
    then obtain a f ro where p: "refreshed y = Inr (Some (a, f, ro))" by blast
    then obtain fres where "y = Answered fres" "res_ok fres"
      by (auto simp: refreshed_def split: fetch_result.splits if_splits)
    then show ?thesis unfolding renew
      using asked p run_last [of 0 "setSession a f ro ?s"] by (simp add: bindE_def Let_def numeral_eq_Suc)
  next
    case False
    then show ?thesis unfolding renew
      using asked by (cases y) (auto simp: bindE_def finish refreshed_def numeral_eq_Suc split: sum.splits if_splits)
  qed
qed

lemma run_first:
  "run_call 8 E mk outcome (Sent First (mk (getToken E s))) s = (let (r, s') = call True s in (Returned r, s'))"
proof -
  obtain x w where x: "fetch E (world s) (mk (getToken E s)) = (x, w)" by fastforce
  let ?s = "s\<lparr>world := w, traffic := traffic s @ [(mk (getToken E s), x)]\<rparr>"
  show ?thesis
  proof (cases "unauthorized x")
    case False
    then show ?thesis using last_attempt [OF x, of True] x
      by (cases x) (simp_all add: on_response_def rejected unauthorized_def numeral_eq_Suc)
  next
    case True
    then obtain res where res: "x = Answered res" "status res = 401"
      by (auto simp: unauthorized_def split: fetch_result.splits)
    have "call True s = bindE (tryRefresh E) (\<lambda>ok. if ok then call False else finish res) ?s"
      by (subst call) (simp add: getE_def bindE_def do_fetch_def x res)
    moreover have "run_call 8 E mk outcome (Sent First (mk (getToken E s))) s
        = run_call 6 E mk outcome (on_response E True res ?s) ?s"
      by (simp add: x res numeral_eq_Suc)
    ultimately show ?thesis using run_renewal [OF res(2), of ?s] by simp
  qed
qed

lemma run_alone: "run_call 8 E mk outcome (begin_call E mk retry s) s = (let (r, s') = call retry s in (Returned r, s'))"
  using run_first run_last [of 5 s] by (cases retry) (simp_all add: begin_call_def numeral_eq_Suc)

end

text \<open>C10. A call of \<open>api\<close> that is alone in the page runs, by its at most eight steps between awaits,
  to exactly the result, the storage and the requests of the one effect that the pages' models
  use; the same holds for \<open>uploadFile\<close>.\<close>

theorem api_steps_refine:
  "run_call 8 E (api_request E path opts) api_outcome (begin_call E (api_request E path opts) retry s) s
     = (let (r, s') = api E path opts retry s in (Returned r, s'))
   \<and> run_call 8 E (upload_request E path form) upload_outcome (begin_call E (upload_request E path form) retry s) s
     = (let (r, s') = uploadFile E path form retry s in (Returned r, s'))"
  by (intro conjI) (rule api.run_alone, rule upload.run_alone)

section \<open>The calls of a tab\<close>

text \<open>
  The network state of a tab with the calls that were begun in it, each with its request. The
  user logs out at any time, and the login page may store a new session.
\<close>

record 'w tab = "'w net" +
  tab_calls :: "((jstr \<times> init) \<times> jval call) list"

datatype tab_event =
    Call jstr init
  | Run nat
  | Logout
  | SignIn jstr jstr

definition run_one :: "'w env \<Rightarrow> nat \<Rightarrow> 'w tab \<Rightarrow> 'w tab" where
  "run_one E i s = (if i < length (tab_calls s) then
       (case tab_calls s ! i of ((path, opts), c) \<Rightarrow>
         (case resume E (api_request E path opts) api_outcome c s of (c', s') \<Rightarrow>
           s'\<lparr>tab_calls := (tab_calls s)[i := ((path, opts), c')]\<rparr>))
     else s)"

fun tab_step :: "'w env \<Rightarrow> tab_event \<Rightarrow> 'w tab \<Rightarrow> 'w tab" where
  "tab_step E (Call path opts) s =
     s\<lparr>tab_calls := tab_calls s @ [((path, opts), begin_call E (api_request E path opts) True s)]\<rparr>"
| "tab_step E (Run i) s = run_one E i s"
| "tab_step E Logout s = clearSession s"
| "tab_step E (SignIn email password) s = snd (login E email password s)"

lemma resume_frame:
  "snd (resume E mk outcome c s) = s\<lparr>storage := storage (snd (resume E mk outcome c s)),
     world := world (snd (resume E mk outcome c s)), traffic := traffic (snd (resume E mk outcome c s))\<rparr>"
  by (cases c) (simp_all add: setSession_def Let_def split: prod.split sum.split option.split)

lemma run_one_calls:
  "tab_calls (run_one E i s) = (if i < length (tab_calls s) then (tab_calls s)[i := (case tab_calls s ! i of
     (po, c) \<Rightarrow> (po, fst (resume E (api_request E (fst po) (snd po)) api_outcome c s)))] else tab_calls s)"
  by (simp add: run_one_def split: prod.split)

lemma touches_login: "touches_net (login E email password)"
  unfolding login_def by (intro touches_intros touches_store_tokens)

lemma login_calls [simp]: "tab_calls (snd (login E email password s)) = tab_calls s"
proof -
  obtain r a b c where "login E email password s = (r, s\<lparr>storage := a, world := b, traffic := c\<rparr>)"
    using touches_login by (rule touches_netE)
  then show ?thesis by simp
qed

lemma clear_calls [simp]: "tab_calls (clearSession s) = tab_calls s"
  by (simp add: clearSession_def)

section \<open>Every call ends\<close>

lemma tab_step_length: "length (tab_calls s) \<le> length (tab_calls (tab_step E e s))"
  by (cases e) (simp_all add: run_one_calls)

lemma tab_step_others:
  assumes "i < length (tab_calls s)" and "e \<noteq> Run i"
  shows "tab_calls (tab_step E e s) ! i = tab_calls s ! i"
  using assms by (cases e) (simp_all add: run_one_calls nth_append)

lemma tab_step_rank:
  assumes "i < length (tab_calls s)"
  shows "steps_left (snd (tab_calls (tab_step E e s) ! i))
    \<le> steps_left (snd (tab_calls s ! i)) - (if e = Run i then 1 else 0)"
proof (cases "e = Run i")
  case True
  then show ?thesis using assms by (simp add: run_one_calls resume_progress [unfolded One_nat_def] split: prod.split)
next
  case False
  then show ?thesis using tab_step_others [OF assms False] by simp
qed

lemma tab_run_rank:
  assumes "i < length (tab_calls s)"
  shows "i < length (tab_calls (fold (tab_step E) es s))
    \<and> steps_left (snd (tab_calls (fold (tab_step E) es s) ! i)) \<le> steps_left (snd (tab_calls s ! i)) - count_list es (Run i)"
  using assms
proof (induction es arbitrary: s)
  case (Cons e es)
  have "i < length (tab_calls (tab_step E e s))" using Cons.prems tab_step_length [of s E e] by simp
  from Cons.IH [OF this] tab_step_rank [OF Cons.prems, of E e] show ?case by (simp split: if_splits)
qed simp

text \<open>C11. However the steps of the calls of a tab interleave, with other calls being begun, logins and
  logouts between them: a call that gets eight steps has returned, with a result or an error, so no
  sequence of refusals keeps \<open>api\<close> from ending.\<close>

theorem every_call_returns:
  assumes "i < length (tab_calls s)" and "8 \<le> count_list es (Run i)"
  shows "returned (snd (tab_calls (fold (tab_step E) es s) ! i))"
  using tab_run_rank [OF assms(1), of E es] steps_left_le [of "snd (tab_calls s ! i)"] assms(2)
  by (simp add: returned_iff)

section \<open>Whose answer, whose session\<close>

text \<open>
  A call holds only answers to its own requests: at every place of the code, the request and the
  answers are those of this path and these options, or of a refresh; what it returned came from one
  of them.
\<close>

fun own_answers :: "'w env \<Rightarrow> (jstr option \<Rightarrow> request) \<Rightarrow> (fetch_result \<Rightarrow> err + 'a)
    \<Rightarrow> (request \<times> fetch_result) set \<Rightarrow> 'a call \<Rightarrow> bool" where
  "own_answers E mk outcome tr (Sent p q) = (case p of
       Renewal old \<Rightarrow> q \<in> range (refresh_request E) \<and> (\<exists>tok. (mk tok, Answered old) \<in> tr)
     | _ \<Rightarrow> q \<in> range mk)"
| "own_answers E mk outcome tr (Arrived p x) = (case p of
       Renewal old \<Rightarrow> (\<exists>t. (refresh_request E t, x) \<in> tr) \<and> (\<exists>tok. (mk tok, Answered old) \<in> tr)
     | _ \<Rightarrow> (\<exists>tok. (mk tok, x) \<in> tr))"
| "own_answers E mk outcome tr (TokensBody old res) =
     ((\<exists>t. (refresh_request E t, Answered res) \<in> tr) \<and> (\<exists>tok. (mk tok, Answered old) \<in> tr))"
| "own_answers E mk outcome tr (Body res) = (\<exists>tok. (mk tok, Answered res) \<in> tr)"
| "own_answers E mk outcome tr (Returned r) = ((\<exists>tok x. (mk tok, x) \<in> tr \<and> r = outcome x)
     \<or> (\<exists>t y e. (refresh_request E t, y) \<in> tr \<and> refreshed y = Inl e \<and> r = Inl e))"

text \<open>The three keys of the storage, and the sessions that the server gave out.\<close>

definition session :: "(jstr \<Rightarrow> jstr option) \<Rightarrow> jstr option \<times> jstr option \<times> jstr option" where
  "session st = (st ACCESS, st REFRESH, st ROLE)"

definition asks_session :: "'w env \<Rightarrow> request \<Rightarrow> bool" where
  "asks_session E q \<longleftrightarrow> (\<exists>t. q = refresh_request E t) \<or> (\<exists>e p. q = login_request E e p)"

definition given_out :: "'w env \<Rightarrow> (request \<times> fetch_result) set \<Rightarrow> (jstr option \<times> jstr option \<times> jstr option) set" where
  "given_out E tr = {(Some a, Some f, Some ro) | a f ro.
     \<exists>(q, y) \<in> tr. asks_session E q \<and> refreshed y = Inr (Some (a, f, ro))}"

definition tab_ok :: "'w env \<Rightarrow> jstr option \<times> jstr option \<times> jstr option \<Rightarrow> 'w tab \<Rightarrow> bool" where
  "tab_ok E first s \<longleftrightarrow>
     (\<forall>((path, opts), c) \<in> set (tab_calls s). own_answers E (api_request E path opts) api_outcome (set (traffic s)) c)
     \<and> session (storage s) \<in> {first, (None, None, None)} \<union> given_out E (set (traffic s))"

lemma own_answers_mono: "own_answers E mk outcome tr c \<Longrightarrow> tr \<subseteq> tr' \<Longrightarrow> own_answers E mk outcome tr' c"
  by (cases c) (auto split: place.splits)

lemma given_out_mono: "x \<in> given_out E tr \<Longrightarrow> tr \<subseteq> tr' \<Longrightarrow> x \<in> given_out E tr'"
  unfolding given_out_def by blast

lemma given_outI:
  assumes "(q, y) \<in> tr" and "refreshed y = Inr (Some (a, f, ro))" and "asks_session E q"
  shows "(Some a, Some f, Some ro) \<in> given_out E tr"
  using assms by (auto simp: given_out_def)

lemma asks_session_simps [simp]: "asks_session E (refresh_request E t)" "asks_session E (login_request E e p)"
  by (auto simp: asks_session_def)

lemma session_keys: "ACCESS \<noteq> ROLE" "ACCESS \<noteq> REFRESH" "REFRESH \<noteq> ROLE"
  by code_simp+

lemma session_set_items [simp]: "session (set_items a f ro st) = (Some a, Some f, Some ro)"
  using session_keys by (simp add: session_def set_items_def)

lemma own_begin: "own_answers E mk outcome tr (begin_call E mk retry s)"
  by (simp add: begin_call_def)

lemma traffic_resume: "set (traffic s) \<subseteq> set (traffic (snd (resume E mk outcome c s)))"
  by (cases c) (auto simp: setSession_def Let_def split: prod.split sum.split option.split)

lemma own_arrival:
  assumes own: "own_answers E mk outcome tr (Arrived p x)" and rejected: "outcome Rejected = Inl NetErr"
  shows "own_answers E mk outcome tr (on_arrival E p x s)"
proof (cases x)
  case Rejected
  then have "(\<exists>tok. (mk tok, Rejected) \<in> tr) \<or> (\<exists>t. (refresh_request E t, Rejected) \<in> tr)"
    using own by (auto split: place.splits)
  moreover have "refreshed Rejected = Inl NetErr" by (simp add: refreshed_def)
  ultimately show ?thesis using Rejected rejected by (cases p) (simp_all, metis+)
next
  case (Answered res)
  then show ?thesis using own by (cases p) (auto simp: on_response_def split: option.split)
qed

lemma own_resume:
  assumes own: "own_answers E mk outcome (set (traffic s)) c" and rejected: "outcome Rejected = Inl NetErr"
  shows "own_answers E mk outcome (set (traffic (snd (resume E mk outcome c s)))) (fst (resume E mk outcome c s))"
proof (cases c)
  case (Sent p q)
  then show ?thesis using own
    by (cases p) (auto split: prod.split)
next
  case (Arrived p x)
  then show ?thesis using own_arrival [OF own [unfolded Arrived] rejected] by simp
next
  case (TokensBody old res)
  then show ?thesis using own
    by (auto simp: setSession_def Let_def split: sum.split option.split)
qed (use own in auto)

lemma session_resume:
  assumes own: "own_answers E mk outcome (set (traffic s)) c"
  shows "session (storage (snd (resume E mk outcome c s)))
    \<in> insert (session (storage s)) (given_out E (set (traffic (snd (resume E mk outcome c s)))))"
proof (cases c)
  case (TokensBody old res)
  then show ?thesis using own
    by (auto simp: setSession_def Let_def split: sum.split option.split intro: given_outI)
qed (auto split: prod.split)

lemma tab_ok_session: "tab_ok E first s \<Longrightarrow> session (storage s) \<in> {first, (None, None, None)} \<union> given_out E (set (traffic s))"
  by (simp add: tab_ok_def)

lemma tab_ok_run:
  assumes ok: "tab_ok E first s"
  shows "tab_ok E first (run_one E i s)"
proof (cases "i < length (tab_calls s)")
  case True
  obtain path opts c where c: "tab_calls s ! i = ((path, opts), c)" by (metis prod.exhaust)
  let ?r = "resume E (api_request E path opts) api_outcome c s"
  have own: "own_answers E (api_request E path opts) api_outcome (set (traffic s)) c"
    using ok True c nth_mem [OF True] unfolding tab_ok_def by auto
  have eq: "run_one E i s = (snd ?r)\<lparr>tab_calls := (tab_calls s)[i := ((path, opts), fst ?r)]\<rparr>"
    using True c by (simp add: run_one_def split: prod.split)
  have more: "set (traffic s) \<subseteq> set (traffic (snd ?r))" by (rule traffic_resume)
  have "own_answers E (api_request E path opts) api_outcome (set (traffic (snd ?r))) (fst ?r)"
    by (rule own_resume [OF own]) (simp add: api_outcome_def)
  moreover have "session (storage (snd ?r)) \<in> {first, (None, None, None)} \<union> given_out E (set (traffic (snd ?r)))"
    using session_resume [OF own] tab_ok_session [OF ok]
      given_out_mono [OF _ more, where E = E and x = "session (storage s)"] by auto
  ultimately show ?thesis
    using ok own_answers_mono [OF _ more] set_update_subset_insert [of "tab_calls s" i "((path, opts), fst ?r)"]
    unfolding eq tab_ok_def by fastforce
next
  case False
  then show ?thesis using ok by (simp add: run_one_def)
qed

lemma login_effect:
  "\<exists>y. traffic (snd (login E email password s)) = traffic s @ [(login_request E email password, y)]
    \<and> storage (snd (login E email password s)) = (case refreshed y of Inr (Some (a, f, ro)) \<Rightarrow> set_items a f ro (storage s)
        | _ \<Rightarrow> storage s)"
  by (auto simp: login_def bindE_def do_fetch_def throwE_def res_json_def thenE_def store_tokens_def modE_def
      retE_def setSession_def refreshed_def split: prod.splits fetch_result.splits sum.splits)

lemma tab_ok_step:
  assumes ok: "tab_ok E first s"
  shows "tab_ok E first (tab_step E e s)"
proof (cases e)
  case (Call path opts)
  then show ?thesis using ok own_begin by (auto simp: tab_ok_def)
next
  case (Run i)
  then show ?thesis using tab_ok_run [OF ok] by simp
next
  case Logout
  have "session (storage (clearSession s)) = (None, None, None)"
    using session_keys by (simp add: session_def clearSession_def)
  moreover have "traffic (clearSession s) = traffic s" by (simp add: clearSession_def)
  ultimately show ?thesis using ok Logout by (simp add: tab_ok_def)
next
  case (SignIn email password)
  let ?s = "snd (login E email password s)"
  obtain y where y: "traffic ?s = traffic s @ [(login_request E email password, y)]"
      "storage ?s = (case refreshed y of Inr (Some (a, f, ro)) \<Rightarrow> set_items a f ro (storage s) | _ \<Rightarrow> storage s)"
    using login_effect by blast
  then have more: "set (traffic s) \<subseteq> set (traffic ?s)" by auto
  have "session (storage ?s) \<in> insert (session (storage s)) (given_out E (set (traffic ?s)))"
    using y by (auto split: sum.splits option.splits intro: given_outI [where q = "login_request E email password"])
  then have "session (storage ?s) \<in> {first, (None, None, None)} \<union> given_out E (set (traffic ?s))"
    using tab_ok_session [OF ok] given_out_mono [OF _ more, where E = E and x = "session (storage s)"] by auto
  moreover have "\<forall>((path, opts), c) \<in> set (tab_calls s).
      own_answers E (api_request E path opts) api_outcome (set (traffic ?s)) c"
    using ok own_answers_mono [OF _ more] unfolding tab_ok_def by blast
  ultimately show ?thesis by (simp add: tab_ok_def SignIn)
qed

interpretation tab: page_invariant "tab_step E" "\<lambda>s. session (storage s) = first \<and> tab_calls s = []" "tab_ok E first"
  for E :: "'w env" and first
proof unfold_locales
  show "tab_ok E first s" if "session (storage s) = first \<and> tab_calls s = []" for s :: "'w tab"
    using that by (simp add: tab_ok_def)
  show "tab_ok E first (tab_step E e s)" if "tab_ok E first s" for e and s :: "'w tab"
    using that by (rule tab_ok_step)
qed

text \<open>C12. Whatever the server answers and however the steps interleave: a call that returned got the
  outcome of an answer to its own path and options, or the failure of a refresh, never an answer that
  another call asked for; and the tokens and the role in the storage always belong together: they are
  those of the beginning, none, or those of one answer to a refresh or a login.\<close>

theorem calls_do_not_mix:
  assumes "reaches (tab_step E) (\<lambda>s. session (storage s) = first \<and> tab_calls s = []) s"
  shows "(\<forall>((path, opts), c) \<in> set (tab_calls s). case c of Returned r \<Rightarrow>
        (\<exists>tok x. (api_request E path opts tok, x) \<in> set (traffic s) \<and> r = api_outcome x)
        \<or> (\<exists>t y e. (refresh_request E t, y) \<in> set (traffic s) \<and> refreshed y = Inl e \<and> r = Inl e)
      | _ \<Rightarrow> True)
    \<and> session (storage s) \<in> {first, (None, None, None)} \<union> given_out E (set (traffic s))"
  using tab.ok_reached [OF assms] unfolding tab_ok_def by (force split: call.splits)

section \<open>Logging out while a refresh is under way\<close>

text \<open>
  \<open>clearSession\<close> cannot stop a call. One that awaits the body of its refresh stores the new
  tokens after the logout, and whoever opens the panel next is logged in.
\<close>

lemma session_comes_back:
  assumes "i < length (tab_calls s)" and "tab_calls s ! i = (po, TokensBody old res)"
    and "refreshed (Answered res) = Inr (Some (a, f, ro))" and "has_window E"
  shows "getToken E (tab_step E Logout s) = None"
    and "getToken E (fold (tab_step E) [Logout, Run i] s) = Some a"
    and "getRole E (fold (tab_step E) [Logout, Run i] s) = Some ro"
  using assms session_keys
  by (simp_all add: run_one_def getToken_def getRole_def clearSession_def setSession_def set_items_def Let_def
      split: prod.split)

definition demo_tab :: "(jstr \<times> jstr) list \<Rightarrow> nat tab" where
  "demo_tab st = \<lparr>storage = map_of st, world = 0, traffic = [], tab_calls = []\<rparr>"

definition demo_tokens :: json where
  "demo_tokens = JObj [(js ''access_token'', JStr (js ''a2'')), (js ''refresh_token'', JStr (js ''r2'')),
     (js ''role'', JStr (js ''admin''))]"

definition expired_env :: "nat env" where
  "expired_env = demo_env [Answered (json_answer 401 JNull), Answered (json_answer 200 demo_tokens)]"

definition before_logout :: "nat tab" where
  "before_logout = fold (tab_step expired_env) [Call (js ''/api/auth/me'') no_opts, Run 0, Run 0, Run 0, Run 0]
     (demo_tab [(ACCESS, js ''a1''), (REFRESH, js ''r1''), (ROLE, js ''admin'')])"

lemma plain_demo_tokens: "plain demo_tokens"
  by code_simp

lemma refreshed_demo: "refreshed (Answered (json_answer 200 demo_tokens)) = Inr (Some (js ''a2'', js ''r2'', js ''admin''))"
proof -
  have "read_json (json_answer 200 demo_tokens) = Inr demo_tokens"
    by (rule read_json_sent) (simp_all add: json_answer_def body_bytes_def plain_demo_tokens)
  moreover have "res_ok (json_answer 200 demo_tokens)" by (simp add: res_ok_def json_answer_def)
  moreover have "demo_tokens \<noteq> JNull" "val_str (jprop (js ''access_token'') demo_tokens) = js ''a2''"
    "val_str (jprop (js ''refresh_token'') demo_tokens) = js ''r2''" "val_str (jprop (js ''role'') demo_tokens) = js ''admin''"
    by code_simp+
  ultimately show ?thesis by (simp add: refreshed_def)
qed

lemma before_logout_calls:
  "tab_calls before_logout = [((js ''/api/auth/me'', no_opts), TokensBody (json_answer 401 JNull) (json_answer 200 demo_tokens))]"
  using session_keys
  by (simp add: before_logout_def demo_tab_def expired_env_def demo_env_def run_one_def begin_call_def on_response_def
      refresh_token_def getToken_def json_answer_def res_ok_def numeral_2_eq_2 split: prod.split)

lemma logged_out_and_in_again:
  "getToken expired_env (tab_step expired_env Logout before_logout) = None
   \<and> getToken expired_env (fold (tab_step expired_env) [Logout, Run 0] before_logout) = Some (js ''a2'')"
proof -
  have "has_window expired_env" by (simp add: expired_env_def demo_env_def)
  then show ?thesis
    using session_comes_back [of 0 before_logout "(js ''/api/auth/me'', no_opts)" "json_answer 401 JNull"
        "json_answer 200 demo_tokens" "js ''a2''" "js ''r2''" "js ''admin''" expired_env]
    by (simp add: before_logout_calls refreshed_demo)
qed

theorem every_call_returns_witness:
  "returned (snd (tab_calls (fold (tab_step expired_env) [Run 0, Logout, Run 0, Run 0, Call [] no_opts, Run 0, Run 0,
     Run 0, Run 1, Run 0, Run 0] (tab_step expired_env (Call [] no_opts) (demo_tab []))) ! 0))"
  by (rule every_call_returns) (simp_all add: demo_tab_def)

theorem calls_do_not_mix_witness:
  "session (storage before_logout)
     \<in> {(Some (js ''a1''), Some (js ''r1''), Some (js ''admin'')), (None, None, None)}
       \<union> given_out expired_env (set (traffic before_logout))"
proof -
  let ?first = "(Some (js ''a1''), Some (js ''r1''), Some (js ''admin''))"
  let ?start = "demo_tab [(ACCESS, js ''a1''), (REFRESH, js ''r1''), (ROLE, js ''admin'')]"
  have "session (storage ?start) = ?first \<and> tab_calls ?start = []"
    using session_keys by (simp add: demo_tab_def session_def)
  then have "reaches (tab_step expired_env) (\<lambda>s. session (storage s) = ?first \<and> tab_calls s = []) before_logout"
    unfolding before_logout_def by (intro reaches_fold reaches_start)
  from calls_do_not_mix [OF this] show ?thesis by simp
qed

end
