(* ===== verification/Panel_Html.thy ===== *)
theory Panel_Html
  imports Page_Kit
begin

text \<open>
  The elements that the components of the panel return, as trees: an element has a tag, attributes
  and children; an attribute is a text, a flag or a handler, which maps the value of the control to
  an event of the page. Of the class names only what depends on the state is kept. The offers of a
  tree are the handlers that a user can set off: a disabled control has none, and a form with an
  empty required field or a disabled submit button cannot be submitted.
\<close>

section \<open>Elements\<close>

datatype 'e attr =
    At string jstr
  | Flag string bool
  | On string "jstr \<Rightarrow> 'e"

datatype 'e html =
    Txt jstr
  | El string "'e attr list" "'e html list"

text \<open>\<open>onClick={() => e}\<close>, \<open>{b && ...}\<close> and a list of rows\<close>

definition click :: "'e \<Rightarrow> 'e attr" where
  "click e = On ''click'' (\<lambda>_. e)"

definition shown_if :: "bool \<Rightarrow> 'e html list \<Rightarrow> 'e html list" where
  "shown_if b ns = (if b then ns else [])"

definition say :: "string \<Rightarrow> 'e html" where
  "say s = Txt (js s)"

definition option_el :: "string \<Rightarrow> jstr \<Rightarrow> 'e html" where
  "option_el v label = El ''option'' [At ''value'' (js v)] [Txt label]"

text \<open>A text or a number as a child; \<open>null\<close>, \<open>undefined\<close> and the truth values show nothing.\<close>

definition child_text :: "jval \<Rightarrow> jstr" where
  "child_text v = (case v of Some (JStr t) \<Rightarrow> t | Some (JInt i) \<Rightarrow> dec_int i | Some (JNum t) \<Rightarrow> t | _ \<Rightarrow> [])"

definition nat_field :: "jstr \<Rightarrow> json \<Rightarrow> nat" where
  "nat_field k j = (case jprop k j of Some (JInt i) \<Rightarrow> nat i | _ \<Rightarrow> 0)"

text \<open>\<open>t.slice(0, 16).replace("T", " ")\<close>: a point in time, to the minute.\<close>

definition minute_text :: "jstr \<Rightarrow> jstr" where
  "minute_text t = (let u = js_slice 0 16 t in case cut_at (js ''T'') u of Some (a, b) \<Rightarrow> a @ [0x20] @ b | None \<Rightarrow> u)"

text \<open>\<open>t || d\<close> for texts\<close>

definition or_text :: "jstr \<Rightarrow> jstr \<Rightarrow> jstr" where
  "or_text t d = (if t = [] then d else t)"

section \<open>Shared shapes\<close>

definition labelled :: "'e html list \<Rightarrow> 'e html \<Rightarrow> 'e html" where
  "labelled label control = El ''div'' [] [El ''label'' [] label, control]"

definition input_el :: "'e attr list \<Rightarrow> jstr \<Rightarrow> (jstr \<Rightarrow> 'e) \<Rightarrow> 'e html" where
  "input_el attrs v h = El ''input'' ([At ''value'' v, On ''change'' h] @ attrs) []"

definition select_el :: "jstr \<Rightarrow> (jstr \<Rightarrow> 'e) \<Rightarrow> 'e html list \<Rightarrow> 'e html" where
  "select_el v h options = El ''select'' [At ''value'' v, On ''change'' h] options"

definition error_el :: "jstr \<Rightarrow> 'e html list" where
  "error_el m = shown_if (m \<noteq> []) [El ''p'' [] [Txt m]]"

definition head_row :: "jstr list \<Rightarrow> 'e html" where
  "head_row titles = El ''thead'' [] [El ''tr'' [] (map (\<lambda>t. El ''th'' [] [Txt t]) titles)]"

definition link_el :: "jstr \<Rightarrow> 'e html list \<Rightarrow> 'e html" where
  "link_el href kids = El ''a'' [At ''href'' href] kids"

section \<open>What a user sees and can do\<close>

fun flag_set :: "string \<Rightarrow> 'e attr \<Rightarrow> bool" where
  "flag_set k (Flag k' b) = (k' = k \<and> b)"
| "flag_set k _ = False"

fun is_text :: "string \<Rightarrow> jstr \<Rightarrow> 'e attr \<Rightarrow> bool" where
  "is_text k v (At k' v') = (k' = k \<and> v' = v)"
| "is_text k v _ = False"

text \<open>What keeps a form from being submitted: a required field without a value, a disabled submit button.\<close>

fun holds_back :: "'e html \<Rightarrow> bool" where
  "holds_back (Txt t) = False"
| "holds_back (El tag attrs kids) =
     ((list_ex (flag_set ''required'') attrs \<and> list_ex (is_text ''value'' []) attrs)
      \<or> (list_ex (flag_set ''disabled'') attrs \<and> list_ex (is_text ''type'' (js ''submit'')) attrs)
      \<or> list_ex holds_back kids)"

fun handlers :: "bool \<Rightarrow> 'e attr \<Rightarrow> (jstr \<Rightarrow> 'e) list" where
  "handlers blocked (On k h) = (if blocked \<and> k = ''submit'' then [] else [h])"
| "handlers blocked _ = []"

fun offers :: "'e html \<Rightarrow> (jstr \<Rightarrow> 'e) list" where
  "offers (Txt t) = []"
| "offers (El tag attrs kids) =
     (if list_ex (flag_set ''disabled'') attrs then []
      else concat (map (handlers (list_ex holds_back kids)) attrs))
     @ concat (map offers kids)"

definition page_offers :: "'e html list \<Rightarrow> (jstr \<Rightarrow> 'e) list" where
  "page_offers ns = concat (map offers ns)"

definition fires :: "(jstr \<Rightarrow> 'e) \<Rightarrow> 'e \<Rightarrow> bool" where
  "fires h e \<longleftrightarrow> (\<exists>v. h v = e)"

definition can_do :: "'e html list \<Rightarrow> 'e \<Rightarrow> bool" where
  "can_do ns e \<longleftrightarrow> (\<exists>h \<in> set (page_offers ns). fires h e)"

fun words :: "'e html \<Rightarrow> jstr list" where
  "words (Txt t) = [t]"
| "words (El tag attrs kids) = concat (map words kids)"

definition page_words :: "'e html list \<Rightarrow> jstr list" where
  "page_words ns = concat (map words ns)"

fun attr_texts :: "string \<Rightarrow> 'e attr \<Rightarrow> jstr list" where
  "attr_texts k (At k' v) = (if k' = k then [v] else [])"
| "attr_texts k _ = []"

fun attr_values :: "string \<Rightarrow> 'e html \<Rightarrow> jstr list" where
  "attr_values k (Txt t) = []"
| "attr_values k (El tag attrs kids) = concat (map (attr_texts k) attrs) @ concat (map (attr_values k) kids)"

section \<open>How the pieces of a page add up\<close>

named_theorems html_simps "offers and words of the pieces of a page"

lemma page_offers_simps [html_simps]:
  "page_offers [] = []"
  "page_offers (n # ns) = offers n @ page_offers ns"
  "page_offers (ns @ ms) = page_offers ns @ page_offers ms"
  by (simp_all add: page_offers_def)

lemma page_offers_if [html_simps]: "page_offers (shown_if b ns) = (if b then page_offers ns else [])"
  by (simp add: page_offers_def shown_if_def)

lemma page_offers_rows [html_simps]: "page_offers (concat (map f xs)) = concat (map (\<lambda>x. page_offers (f x)) xs)"
  by (induction xs) (simp_all add: html_simps)

lemma page_offers_map [html_simps]: "page_offers (map f xs) = concat (map (\<lambda>x. offers (f x)) xs)"
  by (simp add: page_offers_def comp_def)

lemma offers_el [html_simps]:
  "offers (El tag attrs kids) =
     (if list_ex (flag_set ''disabled'') attrs then [] else concat (map (handlers (list_ex holds_back kids)) attrs))
     @ page_offers kids"
  by (simp add: page_offers_def)

lemma offers_say [html_simps]: "offers (say s) = []" "offers (option_el v l) = []"
  by (simp_all add: say_def option_el_def)

lemma page_words_simps [html_simps]:
  "page_words [] = []"
  "page_words (n # ns) = words n @ page_words ns"
  "page_words (ns @ ms) = page_words ns @ page_words ms"
  by (simp_all add: page_words_def)

lemma page_words_if [html_simps]: "page_words (shown_if b ns) = (if b then page_words ns else [])"
  by (simp add: page_words_def shown_if_def)

lemma page_words_rows [html_simps]: "page_words (concat (map f xs)) = concat (map (\<lambda>x. page_words (f x)) xs)"
  by (induction xs) (simp_all add: html_simps)

lemma page_words_map [html_simps]: "page_words (map f xs) = concat (map (\<lambda>x. words (f x)) xs)"
  by (simp add: page_words_def comp_def)

lemma words_el [html_simps]: "words (El tag attrs kids) = page_words kids"
  by (simp add: page_words_def)

lemma words_say [html_simps]: "words (say s) = [js s]" "words (option_el v l) = [l]"
  by (simp_all add: say_def option_el_def)

lemma missing_say [simp]: "\<not> holds_back (say s)" "\<not> holds_back (option_el v l)"
  by (simp_all add: say_def option_el_def)

lemma handlers_click [simp]: "handlers b (click e) = [\<lambda>_. e]"
  by (simp add: click_def)

lemma flag_set_click [simp]: "flag_set k (click e) = False"
  by (simp add: click_def)

declare offers.simps(2) [simp del] words.simps(2) [simp del]

lemmas shape_defs = input_el_def select_el_def labelled_def error_el_def head_row_def link_el_def

lemma shape_offers [html_simps]:
  "page_offers (error_el m) = []" "offers (head_row ts) = []" "offers (link_el u kids) = page_offers kids"
  "offers (labelled l c) = page_offers l @ offers c"
  "offers (input_el as v h) = (if list_ex (flag_set ''disabled'') as then [] else h # concat (map (handlers False) as))"
  "offers (select_el v h os) = h # page_offers os"
  by (auto simp: shape_defs html_simps comp_def say_def)

text \<open>What can be done on a page is what can be done on one of its pieces.\<close>

named_theorems can_simps "what can be done on the pieces of a page"

definition does :: "'e html \<Rightarrow> 'e \<Rightarrow> bool" where
  "does n e \<longleftrightarrow> can_do [n] e"

fun sets_off :: "bool \<Rightarrow> 'e attr \<Rightarrow> 'e \<Rightarrow> bool" where
  "sets_off blocked (On k h) e = (\<not> (blocked \<and> k = ''submit'') \<and> fires h e)"
| "sets_off blocked a e = False"

lemma sets_off_iff: "sets_off b a e \<longleftrightarrow> (\<exists>h \<in> set (handlers b a). fires h e)"
  by (cases a) auto

lemma can_do_simps [can_simps]:
  "can_do [] e \<longleftrightarrow> False"
  "can_do (n # ns) e \<longleftrightarrow> does n e \<or> can_do ns e"
  "can_do (ns @ ms) e \<longleftrightarrow> can_do ns e \<or> can_do ms e"
  "can_do (shown_if b ns) e \<longleftrightarrow> b \<and> can_do ns e"
  "can_do (map f xs) e \<longleftrightarrow> (\<exists>x \<in> set xs. does (f x) e)"
  "can_do (concat (map g xs)) e \<longleftrightarrow> (\<exists>x \<in> set xs. can_do (g x) e)"
  by (auto simp: can_do_def does_def page_offers_def shown_if_def)

lemma does_el [can_simps]:
  "does (Txt t) e \<longleftrightarrow> False"
  "does (El tag attrs kids) e \<longleftrightarrow>
     (\<not> list_ex (flag_set ''disabled'') attrs \<and> list_ex (\<lambda>a. sets_off (list_ex holds_back kids) a e) attrs) \<or> can_do kids e"
  by (auto simp: does_def can_do_def page_offers_def sets_off_iff list_ex_iff offers.simps(2))

lemma does_shapes [can_simps]:
  "does (say v) e \<longleftrightarrow> False" "does (option_el v u) e \<longleftrightarrow> False" "can_do (error_el m) e \<longleftrightarrow> False"
  "does (head_row ts) e \<longleftrightarrow> False" "does (link_el u kids) e \<longleftrightarrow> can_do kids e"
  "does (labelled l c) e \<longleftrightarrow> can_do l e \<or> does c e"
  "does (input_el as u h) e \<longleftrightarrow> \<not> list_ex (flag_set ''disabled'') as \<and> (fires h e \<or> list_ex (\<lambda>a. sets_off False a e) as)"
  "does (select_el u h os) e \<longleftrightarrow> fires h e \<or> can_do os e"
  by (auto simp: shape_defs can_simps say_def option_el_def)

lemma does_case_prod [can_simps]: "does (case p of (a, b) \<Rightarrow> f a b) e \<longleftrightarrow> (case p of (a, b) \<Rightarrow> does (f a b) e)"
  by (simp split: prod.split)

lemma fires_simps [can_simps]: "fires (\<lambda>_. e') e \<longleftrightarrow> e' = e"
  by (simp add: fires_def)

lemma sets_off_click [can_simps]: "sets_off b (click e') e \<longleftrightarrow> e' = e"
  by (simp add: click_def fires_def)

lemma shape_words [html_simps]:
  "page_words (error_el m) = (if m = [] then [] else [m])" "words (head_row ts) = ts"
  "words (link_el u kids) = page_words kids" "words (labelled l c) = page_words l @ words c"
  "words (input_el as v h) = []" "words (select_el v h os) = page_words os"
  by (auto simp: shape_defs html_simps comp_def say_def)

end
