(* ===== verification/Admin_Views.thy ===== *)
theory Admin_Views
  imports Admin_Pages Panel_Html
begin

text \<open>
  What the pages of \<open>Admin_Pages\<close> show, and their events: the returned elements of
  \<open>panel/app/(dash)/policy/page.tsx\<close>, \<open>users/page.tsx\<close> and \<open>teams/page.tsx\<close>, the handler
  behind each event, and which events a user can set off in which state.
\<close>

section \<open>The policy page\<close>

definition RULE_SEV :: "(jstr \<times> jstr) list" where
  "RULE_SEV = [((js ''high''), (js ''bg-red-100 text-red-700'')), ((js ''medium''), (js ''bg-amber-100 text-amber-700'')),
     ((js ''low''), (js ''bg-slate-100 text-slate-600''))]"

definition RULE_ACT :: "(jstr \<times> jstr) list" where
  "RULE_ACT = [((js ''mask''), (js ''bg-indigo-100 text-indigo-700'')), ((js ''block''), (js ''bg-red-100 text-red-700'')),
     ((js ''flag''), (js ''bg-amber-100 text-amber-700''))]"

definition RULE_ACTION_TR :: "(jstr \<times> jstr) list" where
  "RULE_ACTION_TR = [((js ''mask''), (js ''Maskele'')), ((js ''block''), (js ''Blokla'')), ((js ''flag''), (js ''Uyar''))]"

text \<open>\<open>table[k]\<close> in a template and as a child: a key that is missing gives \<open>undefined\<close>.\<close>

definition class_in :: "(jstr \<times> jstr) list \<Rightarrow> jstr \<Rightarrow> jstr" where
  "class_in table k = (case map_of table k of None \<Rightarrow> js ''undefined'' | Some c \<Rightarrow> c)"

definition label_in :: "(jstr \<times> jstr) list \<Rightarrow> jstr \<Rightarrow> jstr" where
  "label_in table k = (case map_of table k of None \<Rightarrow> [] | Some t \<Rightarrow> t)"

datatype rule_key = RName | RCategory | RKind | RPattern | RAction | RSeverity

fun set_rule :: "rule_key \<Rightarrow> jstr \<Rightarrow> rule_form \<Rightarrow> rule_form" where
  "set_rule RName v f = f\<lparr>rf_name := v\<rparr>"
| "set_rule RCategory v f = f\<lparr>rf_category := v\<rparr>"
| "set_rule RKind v f = f\<lparr>rf_kind := v\<rparr>"
| "set_rule RPattern v f = f\<lparr>rf_pattern := v\<rparr>"
| "set_rule RAction v f = f\<lparr>rf_action := v\<rparr>"
| "set_rule RSeverity v f = f\<lparr>rf_severity := v\<rparr>"

datatype policy_event =
    PoMask
  | PoSet rule_key jstr
  | PoCreate
  | PoToggle json
  | PoRemove json

text \<open>The handler of an event; the user's answer to \<open>confirm\<close> is an argument.\<close>

fun policy_do :: "'w env \<Rightarrow> bool \<Rightarrow> policy_event \<Rightarrow> ('w, 'm policy_page_ext, unit) net_eff" where
  "policy_do E confirmed PoMask = toggleMaskResponses E"
| "policy_do E confirmed (PoSet k v) = modE (\<lambda>s. s\<lparr>po_form := set_rule k v (po_form s)\<rparr>)"
| "policy_do E confirmed PoCreate = create_rule E"
| "policy_do E confirmed (PoToggle r) = toggle_rule E r"
| "policy_do E confirmed (PoRemove r) = remove_rule E confirmed r"

definition mask_card :: "bool \<Rightarrow> policy_event html" where
  "mask_card on = El ''div'' []
     [El ''div'' [] [El ''h2'' [] [Txt (js ''LLM yan'' @ [0x131] @ js ''t'' @ [0x131] @ js ''nda maskeleme'')],
        El ''p'' [] [Txt (js ''A'' @ [0xE7, 0x131] @ js ''kken, modelin '' @ [0xFC] @ js ''retti'' @ [0x11F] @ js ''i yan'' @ [0x131] @ js ''ttaki hassas veriler (TCKN, IBAN, kart, API anahtar'' @ [0x131] @ js '' vb.) kullan'' @ [0x131] @ js ''c'' @ [0x131] @ js ''ya g'' @ [0xF6] @ js ''sterilmeden '' @ [0xF6] @ js ''nce maskelenir. Streaming yan'' @ [0x131] @ js ''tlarda da '' @ [0xE7] @ js ''al'' @ [0x131, 0x15F, 0x131] @ js ''r.'')]],
      El ''button'' [click PoMask, At ''class'' (if on then (js ''bg-brand'') else (js ''bg-slate-300'')),
         At ''title'' (if on then (js ''A'' @ [0xE7, 0x131] @ js ''k'') else (js ''Kapal'' @ [0x131]))]
        [El ''span'' [At ''class'' (if on then (js ''left-6'') else (js ''left-1''))] []]]"

definition builtins_card :: "json list \<Rightarrow> policy_event html" where
  "builtins_card bs = El ''div'' []
     [El ''h2'' [] [Txt (js ''Yerle'' @ [0x15F] @ js ''ik detekt'' @ [0xF6] @ js ''rler ''), El ''span'' [] [say ''(her zaman aktif)'']],
      El ''div'' [] (map (\<lambda>b. El ''span'' [At ''key'' (str_field (js ''name'') b)]
        [Txt (str_field (js ''name'') b),
         El ''span'' [At ''class'' ((js ''badge ml-1 '') @ class_in RULE_ACT (str_field (js ''action'') b))]
           [Txt (label_in RULE_ACTION_TR (str_field (js ''action'') b))]]) bs)]"

definition rule_form_el :: "rule_form \<Rightarrow> policy_event html" where
  "rule_form_el f = El ''form'' [On ''submit'' (\<lambda>_. PoCreate)]
     [labelled [Txt (js ''Kural ad'' @ [0x131])] (input_el [Flag ''required'' True] (rf_name f) (PoSet RName)),
      labelled [say ''Kategori''] (input_el [] (rf_category f) (PoSet RCategory)),
      labelled [Txt (js ''T'' @ [0xFC] @ js ''r'')] (select_el (rf_kind f) (PoSet RKind)
        [option_el ''keyword'' (js ''Anahtar kelime''), option_el ''regex'' (js ''Regex'')]),
      labelled [say ''Desen''] (input_el [Flag ''required'' True,
          At ''placeholder'' (if rf_kind f = js ''regex'' then ([0xF6] @ js ''rn. '' @ [0x5C] @ js ''bGIZLI-'' @ [0x5C] @ js ''d+'' @ [0x5C] @ js ''b'') else ([0xF6] @ js ''rn. ProjeAtlas''))]
        (rf_pattern f) (PoSet RPattern)),
      labelled [say ''Aksiyon''] (select_el (rf_action f) (PoSet RAction)
        [option_el ''mask'' (js ''Maskele''), option_el ''block'' (js ''Blokla''), option_el ''flag'' (js ''Uyar'')]),
      labelled [Txt ([0xD6] @ js ''nem'')] (select_el (rf_severity f) (PoSet RSeverity)
        [option_el ''low'' (js ''D'' @ [0xFC, 0x15F, 0xFC] @ js ''k''), option_el ''medium'' (js ''Orta''), option_el ''high'' (js ''Y'' @ [0xFC] @ js ''ksek'')]),
      El ''div'' [] [El ''button'' [At ''type'' (js ''submit'')] [say ''Kural ekle'']]]"

definition rule_row :: "json \<Rightarrow> policy_event html" where
  "rule_row r = (let f = (\<lambda>k. str_field (js k) r) in El ''tr'' [At ''key'' (f ''id'')]
     [El ''td'' [] [Txt (f ''name'')],
      El ''td'' [] [Txt (f ''category'')],
      El ''td'' [] [El ''span'' [] [Txt (f ''kind'')], Txt (js '' '' @ [0xB7] @ js '' ''), El ''code'' [] [Txt (f ''pattern'')]],
      El ''td'' [] [El ''span'' [At ''class'' ((js ''badge '') @ class_in RULE_ACT (f ''action''))]
        [Txt (label_in RULE_ACTION_TR (f ''action''))]],
      El ''td'' [] [El ''span'' [At ''class'' ((js ''badge '') @ class_in RULE_SEV (f ''severity''))] [Txt (f ''severity'')]],
      El ''td'' [] [El ''div'' []
        [El ''button'' [click (PoToggle r)]
           [Txt (if bool_field (js ''enabled'') r then (js ''Pasifle'' @ [0x15F] @ js ''tir'') else (js ''Aktifle'' @ [0x15F] @ js ''tir''))],
         El ''button'' [click (PoRemove r)] [say ''Sil'']]]])"

definition rules_table :: "json list \<Rightarrow> policy_event html" where
  "rules_table rs = El ''table'' []
     [head_row [(js ''Ad''), (js ''Kategori''), (js ''T'' @ [0xFC] @ js ''r / Desen''), (js ''Aksiyon''), ([0xD6] @ js ''nem''), ([0x130, 0x15F] @ js ''lem'')],
      El ''tbody'' [] (map rule_row rs
        @ shown_if (rs = []) [El ''tr'' [] [El ''td'' [] [Txt (js ''Hen'' @ [0xFC] @ js ''z '' @ [0xF6] @ js ''zel kural yok.'')]]])]"

definition policy_view :: "('w, 'm) policy_page_scheme \<Rightarrow> policy_event html list" where
  "policy_view s =
     [El ''h1'' [] [say ''Policy Rules''],
      El ''p'' [] [Txt (js ''Hassas i'' @ [0xE7] @ js ''erik tespiti. E'' @ [0x15F] @ js ''le'' @ [0x15F] @ js ''meler kullan'' @ [0x131] @ js ''c'' @ [0x131] @ js ''ya g'' @ [0xF6] @ js ''r'' @ [0xFC] @ js ''nmeden maskelenir/bloklan'' @ [0x131] @ js ''r ve admin'' @ [0x2019] @ js ''e uyar'' @ [0x131] @ js '' d'' @ [0xFC, 0x15F] @ js ''er. T'' @ [0xFC] @ js ''rk'' @ [0xE7] @ js ''e finansal ve m'' @ [0xFC, 0x15F] @ js ''teri-verisi s'' @ [0xF6] @ js ''zl'' @ [0xFC] @ js ''kleri dahildir.'')],
      mask_card (po_mask s), builtins_card (po_builtins s), rule_form_el (po_form s)]
     @ error_el (po_error s) @ [El ''div'' [] [rules_table (po_rules s)]]"

section \<open>The users page\<close>

datatype user_key = UEmail | UPassword | URole | URpm | UDaily

fun set_user :: "user_key \<Rightarrow> jstr \<Rightarrow> ('w, 'm) users_page_scheme \<Rightarrow> ('w, 'm) users_page_scheme" where
  "set_user UEmail v s = s\<lparr>us_email := v\<rparr>"
| "set_user UPassword v s = s\<lparr>us_password := v\<rparr>"
| "set_user URole v s = s\<lparr>us_role := v\<rparr>"
| "set_user URpm v s = s\<lparr>us_rpm := v\<rparr>"
| "set_user UDaily v s = s\<lparr>us_daily := v\<rparr>"

datatype users_event =
    UsSet user_key jstr
  | UsCreate
  | UsToggle json
  | UsRemove json

fun users_do :: "'w env \<Rightarrow> bool \<Rightarrow> users_event \<Rightarrow> ('w, 'm users_page_ext, unit) net_eff" where
  "users_do E confirmed (UsSet k v) = modE (set_user k v)"
| "users_do E confirmed UsCreate = create_user E"
| "users_do E confirmed (UsToggle u) = toggle_active E u"
| "users_do E confirmed (UsRemove u) = remove_user E confirmed u"

definition user_form_el :: "('w, 'm) users_page_scheme \<Rightarrow> users_event html" where
  "user_form_el s = El ''form'' [On ''submit'' (\<lambda>_. UsCreate)]
     [labelled [say ''Email''] (input_el [Flag ''required'' True] (us_email s) (UsSet UEmail)),
      labelled [say ''Password '', El ''span'' [] [say ''(blank = auto-generate)'']]
        (input_el [At ''type'' (js ''password''), At ''placeholder'' (js ''leave blank to generate'')] (us_password s) (UsSet UPassword)),
      labelled [say ''Role''] (select_el (us_role s) (UsSet URole)
        [option_el ''user'' (js ''user''), option_el ''admin'' (js ''admin'')]),
      El ''details'' []
        [El ''summary'' [] [say ''Rate limits (optional)''],
         El ''div'' []
           [labelled [say ''Requests / min''] (input_el [At ''type'' (js ''number''), At ''min'' (js ''0''), At ''placeholder'' (js ''default'')]
              (us_rpm s) (UsSet URpm)),
            labelled [say ''Daily token quota''] (input_el [At ''type'' (js ''number''), At ''min'' (js ''0''), At ''placeholder'' (js ''default'')]
              (us_daily s) (UsSet UDaily))],
         El ''p'' [] [Txt (js ''Blank = gateway default '' @ [0xB7] @ js '' 0 = unlimited.'')]],
      El ''button'' [At ''type'' (js ''submit'')] [say ''Add user'']]"

definition created_box :: "json \<Rightarrow> users_event html" where
  "created_box c = El ''div'' []
     [El ''p'' [] [say ''User created: '', Txt (str_field (js ''email'') c)],
      El ''p'' [] [Txt (js ''Temporary password (share it with the user '' @ [0x2014] @ js '' they must change it on first sign-in):'')],
      El ''code'' [] [Txt (str_field (js ''generated_password'') c)]]"

text \<open>\<open>v ?? "-"\<close> with the dash of the source\<close>

definition limit_or_dash :: "jval \<Rightarrow> jstr" where
  "limit_or_dash v = child_text (or_nullish v (Some (JStr [0x2014])))"

definition user_row :: "json \<Rightarrow> users_event html" where
  "user_row u = El ''tr'' [At ''key'' (str_field (js ''id'') u)]
     [El ''td'' [] [Txt (str_field (js ''email'') u)],
      El ''td'' [] [Txt (str_field (js ''role'') u)],
      El ''td'' [] [El ''span'' [At ''class'' (if bool_field (js ''is_active'') u then (js ''text-green-600'') else (js ''text-slate-400''))]
        [Txt (if bool_field (js ''is_active'') u then (js ''active'') else (js ''disabled''))]],
      El ''td'' [] [Txt (limit_or_dash (jprop (js ''rate_limit_rpm'') u)), say '' / '',
        Txt (limit_or_dash (jprop (js ''daily_token_quota'') u))],
      El ''td'' [] (shown_if (str_field (js ''role'') u \<noteq> js ''owner'') [El ''div'' []
        [El ''button'' [click (UsToggle u)] [Txt (if bool_field (js ''is_active'') u then (js ''Disable'') else (js ''Enable''))],
         El ''button'' [click (UsRemove u)] [say ''Delete'']]])]"

definition users_view :: "('w, 'm) users_page_scheme \<Rightarrow> users_event html list" where
  "users_view s =
     [El ''h1'' [] [say ''User Management''], user_form_el s] @ error_el (us_error s)
     @ (case us_created s of None \<Rightarrow> [] | Some c \<Rightarrow> [created_box c])
     @ [El ''div'' [] [El ''table'' []
         [head_row [(js ''Email''), (js ''Role''), (js ''Status''), (js ''Limits (rpm / daily)''), (js ''Actions'')],
          El ''tbody'' [] (map user_row (us_users s))]]]"

section \<open>The teams page\<close>

datatype team_key = TName | TDesc | TRpm | TQuota

fun set_team :: "team_key \<Rightarrow> jstr \<Rightarrow> ('w, 'm) teams_page_scheme \<Rightarrow> ('w, 'm) teams_page_scheme" where
  "set_team TName v s = s\<lparr>tm_name := v\<rparr>"
| "set_team TDesc v s = s\<lparr>tm_desc := v\<rparr>"
| "set_team TRpm v s = s\<lparr>tm_rpm := v\<rparr>"
| "set_team TQuota v s = s\<lparr>tm_quota := v\<rparr>"

datatype teams_event =
    TmShow
  | TmSet team_key jstr
  | TmProvider jstr
  | TmCreate
  | TmOpen json
  | TmDelete json
  | TmClose
  | TmAdd jstr
  | TmRemove jstr

fun teams_do :: "'w env \<Rightarrow> (jstr \<Rightarrow> json) \<Rightarrow> bool \<Rightarrow> teams_event \<Rightarrow> ('w, 'm teams_page_ext, unit) net_eff" where
  "teams_do E number confirmed TmShow = modE (\<lambda>s. s\<lparr>tm_show := \<not> tm_show s\<rparr>)"
| "teams_do E number confirmed (TmSet k v) = modE (set_team k v)"
| "teams_do E number confirmed (TmProvider i) = modE (toggle_provider i)"
| "teams_do E number confirmed TmCreate = create_team E number"
| "teams_do E number confirmed (TmOpen t) = open_team E t"
| "teams_do E number confirmed (TmDelete t) = delete_team E confirmed t"
| "teams_do E number confirmed TmClose = modE (\<lambda>s. s\<lparr>tm_selected := None\<rparr>)"
| "teams_do E number confirmed (TmAdd i) = add_member E i"
| "teams_do E number confirmed (TmRemove i) = remove_member E i"

definition team_form_el :: "('w, 'm) teams_page_scheme \<Rightarrow> teams_event html" where
  "team_form_el s = El ''div'' []
     [input_el [At ''placeholder'' (js ''Tak'' @ [0x131] @ js ''m ad'' @ [0x131])] (tm_name s) (TmSet TName),
      input_el [At ''placeholder'' (js ''A'' @ [0xE7, 0x131] @ js ''klama'')] (tm_desc s) (TmSet TDesc),
      El ''div'' []
        [input_el [At ''placeholder'' ([0x130] @ js ''stek/dakika (bo'' @ [0x15F] @ js ''=miras, 0=s'' @ [0x131] @ js ''n'' @ [0x131] @ js ''rs'' @ [0x131] @ js ''z)'')] (tm_rpm s) (TmSet TRpm),
         input_el [At ''placeholder'' (js ''G'' @ [0xFC] @ js ''nl'' @ [0xFC] @ js ''k token (bo'' @ [0x15F] @ js ''=miras, 0=s'' @ [0x131] @ js ''n'' @ [0x131] @ js ''rs'' @ [0x131] @ js ''z)'')] (tm_quota s) (TmSet TQuota)],
      El ''div'' []
        [El ''p'' [] [Txt ([0x130] @ js ''zinli sa'' @ [0x11F] @ js ''lay'' @ [0x131] @ js ''c'' @ [0x131] @ js ''lar'')],
         El ''div'' [] (map (\<lambda>p. El ''button'' [At ''key'' (str_field (js ''id'') p),
             click (TmProvider (str_field (js ''id'') p)),
             At ''class'' (if str_field (js ''id'') p \<in> set (tm_provider_ids s)
               then (js ''border-brand bg-brand/10 text-brand'') else (js ''border-slate-300 text-slate-500''))]
           [Txt (str_field (js ''name'') p)]) (tm_providers s)),
         El ''p'' [] [Txt (js ''Hi'' @ [0xE7] @ js ''biri se'' @ [0xE7] @ js ''ilmezse tak'' @ [0x131] @ js ''m k'' @ [0x131] @ js ''s'' @ [0x131] @ js ''tlama getirmez. Bir sa'' @ [0x11F] @ js ''lay'' @ [0x131] @ js ''c'' @ [0x131] @ js '' en az bir tak'' @ [0x131] @ js ''ma atan'' @ [0x131] @ js ''nca yaln'' @ [0x131] @ js ''zca o tak'' @ [0x131] @ js ''mlar kullanabilir.'')]],
      El ''button'' [click TmCreate] [Txt (js ''Olu'' @ [0x15F] @ js ''tur'')]]"

text \<open>A limit: \<open>null\<close> is inherited, and \<open>v || "\<infinity>"\<close> shows 0 as unlimited.\<close>

definition limit_text :: "jstr \<Rightarrow> jval \<Rightarrow> jstr" where
  "limit_text name v = name @ (if nullish v then (js '': miras'')
     else (js '': '') @ (if truthy v then child_text v else [0x221E]))"

definition team_row :: "('w, 'm) teams_page_scheme \<Rightarrow> json \<Rightarrow> teams_event html" where
  "team_row s t = El ''div'' [At ''key'' (str_field (js ''id'') t),
      At ''class'' (if (\<exists>u. tm_selected s = Some u \<and> jprop (js ''id'') u = jprop (js ''id'') t) then (js ''bg-slate-50'') else [])]
     [El ''button'' [click (TmOpen t)]
        [El ''p'' [] [Txt (str_field (js ''name'') t)],
         El ''p'' [] [Txt (child_text (jprop (js ''member_count'') t)), Txt (js '' '' @ [0xFC] @ js ''ye '' @ [0xB7] @ js '' ''),
           Txt (dec_nat (length (items_of (jprop (js ''provider_ids'') t)))), Txt (js '' sa'' @ [0x11F] @ js ''lay'' @ [0x131] @ js ''c'' @ [0x131] @ js '' '' @ [0xB7] @ js '' ''),
           Txt (limit_text (js ''RPM'') (jprop (js ''rate_limit_rpm'') t)), Txt (js '' '' @ [0xB7] @ js '' ''),
           Txt (limit_text (js ''kota'') (jprop (js ''daily_token_quota'') t))]],
      El ''button'' [click (TmOpen t)] [Txt (js ''Y'' @ [0xF6] @ js ''net'')],
      El ''button'' [click (TmDelete t)] [say ''Sil'']]"

definition member_row :: "json \<Rightarrow> teams_event html" where
  "member_row m = El ''div'' [At ''key'' (str_field (js ''user_id'') m)]
     [El ''span'' [] [Txt (str_field (js ''email'') m)],
      El ''button'' [click (TmRemove (str_field (js ''user_id'') m))] [Txt ([0xE7, 0x131] @ js ''kar'')]]"

definition non_member_row :: "json \<Rightarrow> teams_event html" where
  "non_member_row u = El ''div'' [At ''key'' (str_field (js ''id'') u)]
     [El ''span'' [] [Txt (str_field (js ''email'') u)],
      El ''button'' [click (TmAdd (str_field (js ''id'') u))] [say ''+ ekle'']]"

definition member_panel :: "('w, 'm) teams_page_scheme \<Rightarrow> json \<Rightarrow> teams_event html" where
  "member_panel s t = El ''div'' []
     [El ''div'' [] [El ''span'' [] [Txt (str_field (js ''name'') t), Txt (js '' '' @ [0x2014] @ js '' '' @ [0xDC] @ js ''yeler'')],
        El ''button'' [click TmClose] [say ''Kapat'']],
      El ''div'' [] ([El ''p'' [] [Txt ([0xDC] @ js ''yeler'')]]
        @ shown_if (tm_members s = []) [El ''p'' [] [Txt ([0xDC] @ js ''ye yok.'')]]
        @ map member_row (tm_members s)
        @ [El ''p'' [] [say ''Ekle'']]
        @ map non_member_row (non_members s))]"

definition teams_view :: "('w, 'm) teams_page_scheme \<Rightarrow> teams_event html list" where
  "teams_view s =
     [El ''div'' []
        [El ''div'' [] [El ''h1'' [] [Txt (js ''Tak'' @ [0x131] @ js ''mlar'')],
           El ''p'' [] [Txt (js ''Tak'' @ [0x131] @ js ''mlara LLM kullan'' @ [0x131] @ js ''m limiti ve sa'' @ [0x11F] @ js ''lay'' @ [0x131] @ js ''c'' @ [0x131] @ js '' eri'' @ [0x15F] @ js ''im yetkisi verin.'')]],
         El ''button'' [click TmShow] [Txt (if tm_show s then ([0x130] @ js ''ptal'') else (js ''+ Tak'' @ [0x131] @ js ''m Olu'' @ [0x15F] @ js ''tur''))]]]
     @ error_el (tm_error s)
     @ shown_if (tm_show s) [team_form_el s]
     @ [El ''div'' [] (shown_if (tm_teams s = []) [El ''p'' [] [Txt (js ''Hen'' @ [0xFC] @ js ''z tak'' @ [0x131] @ js ''m yok.'')]] @ map (team_row s) (tm_teams s))]
     @ (case tm_selected s of None \<Rightarrow> [] | Some t \<Rightarrow> [member_panel s t])"

section \<open>Which controls a user has\<close>

lemma users_offers:
  "h \<in> set (page_offers (users_view s)) \<longleftrightarrow> h \<in> set (offers (user_form_el s))
    \<or> (\<exists>u \<in> set (us_users s). str_field (js ''role'') u \<noteq> js ''owner'' \<and> (h = (\<lambda>_. UsToggle u) \<or> h = (\<lambda>_. UsRemove u)))"
  by (auto simp: users_view_def html_simps created_box_def user_row_def shown_if_def simp del: js_Cons split: option.split)

lemma user_form_offers: "h \<in> set (offers (user_form_el s)) \<Longrightarrow> h v \<noteq> UsToggle u \<and> h v \<noteq> UsRemove u"
  by (auto simp: user_form_el_def html_simps split: if_splits)

text \<open>C16. The users page offers to switch off, switch on or delete a user exactly if it is in the
  list and is no owner.\<close>

theorem owner_has_no_controls:
  "(can_do (users_view s) (UsToggle u) \<longleftrightarrow> u \<in> set (us_users s) \<and> str_field (js ''role'') u \<noteq> js ''owner'')
   \<and> (can_do (users_view s) (UsRemove u) \<longleftrightarrow> u \<in> set (us_users s) \<and> str_field (js ''role'') u \<noteq> js ''owner'')"
  unfolding can_do_def fires_def Bex_def users_offers by (auto dest: user_form_offers simp del: js_Cons)

text \<open>A rule can be added exactly if it has a name and a pattern; each rule can be switched and deleted.\<close>

lemma policy_controls:
  "(can_do (policy_view s) PoCreate \<longleftrightarrow> rf_name (po_form s) \<noteq> [] \<and> rf_pattern (po_form s) \<noteq> [])
   \<and> (can_do (policy_view s) (PoToggle r) \<longleftrightarrow> r \<in> set (po_rules s))
   \<and> (can_do (policy_view s) (PoRemove r) \<longleftrightarrow> r \<in> set (po_rules s))
   \<and> can_do (policy_view s) PoMask"
  by (auto simp: can_do_def fires_def policy_view_def mask_card_def builtins_card_def rule_form_el_def rules_table_def
      rule_row_def html_simps shown_if_def shape_defs Let_def simp del: js_Cons split: if_splits)

lemma members_can_be_removed_others_added:
  "(can_do (teams_view s) (TmAdd i) \<longleftrightarrow> tm_selected s \<noteq> None \<and> i \<in> str_field (js ''id'') ` set (tm_users s)
      \<and> i \<notin> str_field (js ''user_id'') ` set (tm_members s))
   \<and> (can_do (teams_view s) (TmRemove i) \<longleftrightarrow> tm_selected s \<noteq> None \<and> i \<in> str_field (js ''user_id'') ` set (tm_members s))
   \<and> (can_do (teams_view s) TmCreate \<longleftrightarrow> tm_show s)"
  by (auto simp: can_do_def fires_def teams_view_def team_form_el_def team_row_def member_panel_def member_row_def
      non_member_row_def non_members_def html_simps shown_if_def simp del: js_Cons split: if_splits option.splits)

end
