(* ===== verification/Tool_Views.thy ===== *)
theory Tool_Views
  imports Api_Tools Github_Page Tool_Pages Documents_Page Panel_Html
begin

text \<open>
  What the tools of the marketplace show: the returned elements of \<open>api-client\<close>, \<open>swagger\<close>,
  \<open>github\<close>, \<open>slack\<close>, \<open>sentry\<close> and \<open>finetune\<close> under \<open>panel/app/(dash)/tools\<close>. The handler
  of a key is the one for Enter. Copying to the clipboard changes no state and has no event.
\<close>

definition back_link :: "'e html" where
  "back_link = link_el (js ''/marketplace'') [Txt ([0x2190] @ js '' Marketplace'')]"

definition kilobytes :: "nat \<Rightarrow> jstr" where
  "kilobytes n = fixed1 n 1024 @ (js '' KB'')"

section \<open>The API client\<close>

datatype client_event =
    ClMethod jstr
  | ClUrl jstr
  | ClHeaders jstr
  | ClBody jstr
  | ClSend
  | ClSave
  | ClLoad json
  | ClDelete json
  | ClExplain

text \<open>The handler of an event; the answer to \<open>prompt\<close> is an argument.\<close>

fun client_do :: "'w env \<Rightarrow> jstr option \<Rightarrow> client_event \<Rightarrow> ('w, 'm client_page_ext, unit) net_eff" where
  "client_do E name (ClMethod v) = modE (\<lambda>s. s\<lparr>cl_method := v\<rparr>)"
| "client_do E name (ClUrl v) = modE (\<lambda>s. s\<lparr>cl_url := v\<rparr>)"
| "client_do E name (ClHeaders v) = modE (\<lambda>s. s\<lparr>cl_headers := v\<rparr>)"
| "client_do E name (ClBody v) = modE (\<lambda>s. s\<lparr>cl_body := v\<rparr>)"
| "client_do E name ClSend = send_request E"
| "client_do E name ClSave = save_request E name"
| "client_do E name (ClLoad r) = modE (load_request r)"
| "client_do E name (ClDelete r) = delete_request E r"
| "client_do E name ClExplain = explain_response E"

definition saved_row :: "json \<Rightarrow> client_event html" where
  "saved_row r = El ''div'' [At ''key'' (str_field (js ''id'') r)]
     [El ''button'' [click (ClLoad r)]
        [El ''span'' [] [Txt (str_field (js ''method'') r)], say '' '', Txt (str_field (js ''name'') r)],
      El ''button'' [click (ClDelete r)] [say ''sil'']]"

definition request_bar :: "('w, 'm) client_page_scheme \<Rightarrow> client_event html" where
  "request_bar s = El ''div'' []
     [El ''div'' []
        [select_el (cl_method s) ClMethod (map (\<lambda>m. El ''option'' [At ''key'' m] [Txt m]) METHODS),
         input_el [At ''placeholder'' (js ''https://api.example.com/v1/...'')] (cl_url s) ClUrl,
         El ''button'' [click ClSend, Flag ''disabled'' (cl_loading s \<or> cl_url s = [])]
           [Txt (if cl_loading s then [0x2026] else (js ''G'' @ [0xF6] @ js ''nder''))],
         El ''button'' [click ClSave, Flag ''disabled'' (cl_url s = [])] [say ''Kaydet'']],
      El ''div'' []
        [El ''textarea'' [At ''placeholder'' (js ''Ba'' @ [0x15F] @ js ''l'' @ [0x131] @ js ''klar (her sat'' @ [0x131] @ js ''r: Key: Value)''), At ''value'' (cl_headers s),
           On ''change'' ClHeaders] [],
         El ''textarea'' [At ''placeholder'' ([0x130] @ js ''stek g'' @ [0xF6] @ js ''vdesi (JSON vb.)''), At ''value'' (cl_body s), On ''change'' ClBody] []]]"

definition response_el :: "('w, 'm) client_page_scheme \<Rightarrow> json \<Rightarrow> client_event html list" where
  "response_el s r =
     [El ''div'' []
        [El ''span'' [At ''class'' (if nat_field (js ''status'') r < 400 then (js ''text-green-600'') else (js ''text-red-600''))]
           [say ''HTTP '', Txt (child_text (jprop (js ''status'') r))],
         El ''span'' [] [Txt (child_text (jprop (js ''time_ms'') r)), say '' ms''],
         El ''span'' [] [Txt (kilobytes (nat_field (js ''size_bytes'') r))],
         El ''button'' [click ClExplain, Flag ''disabled'' (cl_explaining s)]
           [Txt (if cl_explaining s then (js ''LLM d'' @ [0xFC, 0x15F, 0xFC] @ js ''n'' @ [0xFC] @ js ''yor'' @ [0x2026]) else ([0xD83E, 0xDD16] @ js '' LLM'' @ [0x27] @ js ''e sor''))]]]
     @ shown_if (cl_explanation s \<noteq> []) [El ''div'' [] [Txt (cl_explanation s)]]
     @ [El ''pre'' [] [Txt (str_field (js ''body'') r)]]"

definition client_view :: "('w, 'm) client_page_scheme \<Rightarrow> client_event html list" where
  "client_view s =
     [El ''div'' []
        [El ''div'' [] [back_link, El ''h2'' [] [Txt ([0xD83D, 0xDEF0, 0xFE0F] @ js '' API Client'')]],
         El ''div'' [] ([El ''p'' [] [Txt (js ''Kay'' @ [0x131] @ js ''tl'' @ [0x131])]] @ map saved_row (cl_saved s)
           @ shown_if (cl_saved s = []) [El ''p'' [] [Txt (js ''Kay'' @ [0x131] @ js ''tl'' @ [0x131] @ js '' istek yok.'')]])],
      request_bar s]
     @ error_el (cl_error s)
     @ (case cl_resp s of
          Some r \<Rightarrow> response_el s r
        | None \<Rightarrow> shown_if (\<not> cl_loading s) [El ''p'' [] [Txt ([0x130] @ js ''stek g'' @ [0xF6] @ js ''nderin, yan'' @ [0x131] @ js ''t burada g'' @ [0xF6] @ js ''r'' @ [0xFC] @ js ''necek.'')]])"

section \<open>The OpenAPI reader\<close>

definition METHOD_COLORS :: "(jstr \<times> jstr) list" where
  "METHOD_COLORS = [((js ''GET''), (js ''text-sky-600'')), ((js ''POST''), (js ''text-green-600'')), ((js ''PUT''), (js ''text-amber-600'')),
     ((js ''PATCH''), (js ''text-amber-600'')), ((js ''DELETE''), (js ''text-red-600''))]"

text \<open>\<open>table[k] || d\<close>\<close>

definition class_or :: "(jstr \<times> jstr) list \<Rightarrow> jstr \<Rightarrow> jstr \<Rightarrow> jstr" where
  "class_or table k d = (case map_of table k of None \<Rightarrow> d | Some c \<Rightarrow> c)"

datatype swagger_event =
    SwUrl jstr
  | SwLoad
  | SwText jstr
  | SwParse
  | SwSend endpoint

fun swagger_do :: "'w env \<Rightarrow> swagger_event \<Rightarrow> ('w, 'm swagger_page_ext, unit) net_eff" where
  "swagger_do E (SwUrl v) = modE (\<lambda>s. s\<lparr>sw_url := v\<rparr>)"
| "swagger_do E SwLoad = load_spec_url E"
| "swagger_do E (SwText v) = modE (\<lambda>s. s\<lparr>sw_text := v\<rparr>)"
| "swagger_do E SwParse = getE (\<lambda>s. parse_spec (sw_text s))"
| "swagger_do E (SwSend ep) = modE (sendToApiClient ep)"

definition endpoint_row :: "nat \<Rightarrow> endpoint \<Rightarrow> swagger_event html" where
  "endpoint_row i ep = El ''div'' [At ''key'' (dec_nat i)]
     [El ''span'' [At ''class'' (class_or METHOD_COLORS (ep_method ep) (js ''text-slate-600''))] [Txt (ep_method ep)],
      El ''span'' [] [Txt (ep_path ep)],
      El ''span'' [] [Txt (child_text (Some (ep_summary ep)))],
      El ''button'' [click (SwSend ep)] [Txt (js ''API Client'' @ [0x27] @ js ''a aktar'')]]"

definition swagger_view :: "('w, 'm) swagger_page_scheme \<Rightarrow> swagger_event html list" where
  "swagger_view s =
     [back_link, El ''h1'' [] [Txt ([0xD83D, 0xDCD8] @ js '' Swagger / OpenAPI'')],
      El ''p'' [] [Txt (js ''OpenAPI tan'' @ [0x131] @ js ''m'' @ [0x131] @ js ''n'' @ [0x131] @ js '' URL'' @ [0x27] @ js ''den y'' @ [0xFC] @ js ''kleyin veya JSON yap'' @ [0x131, 0x15F] @ js ''t'' @ [0x131] @ js ''r'' @ [0x131] @ js ''n. Endpoint'' @ [0x27] @ js ''leri API Client'' @ [0x27] @ js ''a aktar'' @ [0x131] @ js ''n.'')]]
     @ error_el (sw_error s)
     @ [El ''div'' []
         [El ''div'' [] [input_el [At ''placeholder'' (js ''https://.../openapi.json'')] (sw_url s) SwUrl,
            El ''button'' [click SwLoad, Flag ''disabled'' (sw_url s = [])] [Txt (js ''URL'' @ [0x27] @ js ''den y'' @ [0xFC] @ js ''kle'')]],
          El ''textarea'' [At ''placeholder'' ([0x2026] @ js ''veya OpenAPI JSON yap'' @ [0x131, 0x15F] @ js ''t'' @ [0x131] @ js ''r'' @ [0x131] @ js ''n''), At ''value'' (sw_text s), On ''change'' SwText] [],
          El ''button'' [click SwParse, Flag ''disabled'' (sw_text s = [])] [Txt (js ''JSON'' @ [0x27] @ js ''u '' @ [0xE7, 0xF6] @ js ''z'' @ [0xFC] @ js ''mle'')]]]
     @ shown_if (sw_endpoints s \<noteq> [])
         [El ''div'' [] (El ''div'' [] ([Txt (child_text (Some (sw_title s))), Txt (js '' '' @ [0x2014] @ js '' ''),
             Txt (dec_nat (length (sw_endpoints s))), say '' endpoint '']
             @ shown_if (truthy (Some (sw_base s))) [El ''span'' [] [Txt ([0xB7] @ js '' ''), Txt (child_text (Some (sw_base s)))]])
           # map (\<lambda>(i, ep). endpoint_row i ep) (enumerate 0 (sw_endpoints s)))]"

section \<open>GitHub\<close>

definition repo_button :: "('w, 'm) github_page_scheme \<Rightarrow> json \<Rightarrow> gh_event html" where
  "repo_button s r = El ''button'' [At ''key'' (str_field (js ''full_name'') r), click (GhOpenRepo r),
      At ''class'' (if map_option (jprop (js ''full_name'')) (gh_repo s) = Some (jprop (js ''full_name'') r)
        then (js ''bg-slate-100 font-medium'') else (js ''hover:bg-slate-50''))]
     (Txt (str_field (js ''full_name'') r) # shown_if (bool_field (js ''private'') r) [El ''span'' [] [Txt [0xD83D, 0xDD12]]])"

definition file_el :: "json \<Rightarrow> gh_event html" where
  "file_el f = El ''div'' []
     [El ''div'' [] [El ''span'' [] [Txt (str_field (js ''path'') f)],
        El ''div'' [] [El ''button'' [] [say ''Kopyala''], El ''button'' [click GhBack] [say ''Geri'']]],
      El ''pre'' [] [Txt (str_field (js ''content'') f)]]"

definition entry_button :: "json \<Rightarrow> gh_event html" where
  "entry_button e = El ''button'' [At ''key'' (str_field (js ''path'') e), click (GhOpenEntry e)]
     ([Txt (if str_field (js ''type'') e = js ''dir'' then [0xD83D, 0xDCC1] else [0xD83D, 0xDCC4]), say '' '', Txt (str_field (js ''name'') e)]
      @ shown_if (str_field (js ''type'') e = js ''file'')
          [El ''span'' [] [Txt (kilobytes (nat_field (js ''size'') e))]])"

definition github_view :: "('w, 'm) github_page_scheme \<Rightarrow> gh_event html list" where
  "github_view s =
     [El ''div'' []
        [El ''div'' [] [back_link, El ''h2'' [] [Txt ([0xD83D, 0xDC19] @ js '' GitHub'')]],
         El ''div'' [] (map (repo_button s) (gh_repos s)
           @ shown_if (gh_repos s = []) [El ''p'' [] [Txt (js ''Repo yok ya da token ge'' @ [0xE7] @ js ''ersiz.'')]])],
      El ''div'' [] (case gh_repo s of
          None \<Rightarrow> [El ''span'' [] [Txt (js ''Repo se'' @ [0xE7] @ js ''in'')]]
        | Some r \<Rightarrow> [El ''span'' [] [Txt (child_text (or_nullish (jprop (js ''full_name'') r) (Some (JStr (js ''Repo se'' @ [0xE7] @ js ''in'')))))],
            El ''span'' [] [say ''/ '', Txt (or_text (gh_path s) (js ''(k'' @ [0xF6] @ js ''k)''))]])]
     @ error_el (gh_error s)
     @ shown_if (gh_loading s) [El ''p'' [] [Txt (js ''Y'' @ [0xFC] @ js ''kleniyor'' @ [0x2026])]]
     @ (case gh_file s of
          Some f \<Rightarrow> [file_el f]
        | None \<Rightarrow> [El ''div'' []
            (shown_if (gh_repo s \<noteq> None \<and> gh_path s \<noteq> []) [El ''button'' [click GhParent] [Txt ([0xD83D, 0xDCC1] @ js '' ..'')]]
             @ map entry_button (gh_entries s))])"

section \<open>Slack\<close>

definition followed_row :: "bool \<Rightarrow> ('w, 'm) slack_page_scheme \<Rightarrow> json \<Rightarrow> sl_event html" where
  "followed_row admin s c = El ''div'' [At ''key'' (channel_id c)]
     (El ''button'' [click (SlOpen c), At ''class'' (if map_option channel_id (sl_active s) = Some (channel_id c)
          then (js ''font-medium'') else [])] [say ''# '', Txt (str_field (js ''name'') c)]
      # shown_if admin [El ''button'' [click (SlUnfollowClick c)] [Txt [0xD7]]])"

definition add_channel_el :: "('w, 'm) slack_page_scheme \<Rightarrow> sl_event html" where
  "add_channel_el s = El ''div'' []
     (if \<not> sl_show_all s then [El ''button'' [click SlShowAll] [say ''+ Kanal ekle'']]
      else El ''p'' [] [Txt (js ''T'' @ [0xFC] @ js ''m kanallar'')]
        # map (\<lambda>c. El ''button'' [At ''key'' (channel_id c), click (SlFollowClick c)]
            [say ''+ # '', Txt (str_field (js ''name'') c)]) (addable s))"

definition slack_msg :: "nat \<Rightarrow> json \<Rightarrow> sl_event html" where
  "slack_msg i m = El ''div'' [At ''key'' (str_field (js ''ts'') m @ dec_nat i)]
     [El ''span'' [] [Txt (str_field (js ''user'') m)], El ''span'' [] [Txt (str_field (js ''text'') m)]]"

definition slack_view :: "'w env \<Rightarrow> ('w, 'm) slack_page_scheme \<Rightarrow> sl_event html list" where
  "slack_view E s = (let admin = is_admin E s in
     [El ''div'' []
        [El ''div'' [] [back_link, El ''h2'' [] [Txt ([0xD83D, 0xDCAC] @ js '' Slack'')]],
         El ''div'' [] ([El ''p'' [] [say ''Takip edilen'']] @ map (followed_row admin s) (sl_followed s)
           @ shown_if (sl_followed s = []) [El ''p'' [] [Txt (js ''Hen'' @ [0xFC] @ js ''z kanal takip edilmiyor.'')]]
           @ shown_if admin [add_channel_el s])],
      El ''div'' [] [Txt (case sl_active s of None \<Rightarrow> (js ''Bir kanal se'' @ [0xE7] @ js ''in'') | Some c \<Rightarrow> (js ''# '') @ str_field (js ''name'') c)]]
     @ error_el (sl_error s)
     @ [El ''div'' [] (map (\<lambda>(i, m). slack_msg i m) (enumerate 0 (sl_msgs s))
         @ shown_if (sl_active s \<noteq> None \<and> sl_msgs s = []) [El ''p'' [] [say ''Mesaj yok.'']])]
     @ (case sl_active s of
          None \<Rightarrow> []
        | Some c \<Rightarrow> [El ''div'' []
            [input_el [At ''placeholder'' ((js ''# '') @ str_field (js ''name'') c @ (js '' kanal'' @ [0x131] @ js ''na yaz'' @ [0x2026])), On ''keydown'' (\<lambda>_. SlEnter)]
               (sl_input s) SlType,
             El ''button'' [click SlEnter, Flag ''disabled'' (trim (sl_input s) = [])] [Txt (js ''G'' @ [0xF6] @ js ''nder'')]]]))"

section \<open>Sentry\<close>

definition LEVEL :: "(jstr \<times> jstr) list" where
  "LEVEL = [((js ''error''), (js ''bg-red-100 text-red-700'')), ((js ''warning''), (js ''bg-amber-100 text-amber-700'')),
     ((js ''info''), (js ''bg-sky-100 text-sky-700''))]"

definition project_button :: "('w, 'm) sentry_page_scheme \<Rightarrow> json \<Rightarrow> sn_event html" where
  "project_button s p = El ''button'' [At ''key'' (str_field (js ''slug'') p), click (SnOpen p),
      At ''class'' (if sn_active s = str_field (js ''slug'') p then (js ''bg-slate-100 font-medium'') else (js ''hover:bg-slate-50''))]
     [Txt (str_field (js ''name'') p)]"

definition analyze_card :: "('w, 'm) sentry_page_scheme \<Rightarrow> sn_event html" where
  "analyze_card s = El ''div'' []
     [El ''p'' [] [Txt ([0xD83D, 0xDD0D] @ js '' Hata linkini yap'' @ [0x131, 0x15F] @ js ''t'' @ [0x131] @ js ''r '' @ [0x2192] @ js '' analiz et'')],
      El ''div'' []
        [input_el [At ''placeholder'' (js ''https://<org>.sentry.io/issues/12345/ veya issue id''), On ''keydown'' (\<lambda>_. SnEnter)]
           (sn_link s) SnLink,
         El ''button'' [click SnAnalyze, Flag ''disabled'' (trim (sn_link s) = [] \<or> sn_analyzing s = sn_link s)]
           [Txt (if sn_analyzing s = sn_link s then (js ''Analiz ediliyor'' @ [0x2026]) else (js ''Analiz et''))]]]"

definition result_card :: "json \<Rightarrow> sn_event html" where
  "result_card r = El ''div'' []
     [El ''div'' [] ([El ''span'' [] [Txt (or_text (str_field (js ''title'') r) ((js ''Issue '') @ str_field (js ''issue_id'') r))]]
        @ shown_if (str_field (js ''permalink'') r \<noteq> []) [link_el (str_field (js ''permalink'') r) [Txt (js ''Sentry'' @ [0x27] @ js ''de a'' @ [0xE7] @ js '' '' @ [0x2197])]]
        @ [El ''button'' [click SnClose] [Txt (js ''kapat '' @ [0xD7])]]),
      El ''div'' [] [Txt (str_field (js ''answer'') r)]]"

definition issue_card :: "('w, 'm) sentry_page_scheme \<Rightarrow> json \<Rightarrow> sn_event html" where
  "issue_card s i = El ''div'' [At ''key'' (str_field (js ''id'') i)]
     (El ''div'' []
        [El ''span'' [At ''class'' ((js ''badge '') @ class_or LEVEL (str_field (js ''level'') i) (js ''bg-slate-100 text-slate-600''))]
           [Txt (or_text (str_field (js ''level'') i) (js ''?''))],
         link_el (str_field (js ''permalink'') i) [Txt (str_field (js ''title'') i)],
         El ''span'' [] [Txt (str_field (js ''count'') i), Txt [0xD7]],
         El ''button'' [click (SnIssue i), Flag ''disabled'' (sn_analyzing s = issue_key i)]
           [Txt (if sn_analyzing s = issue_key i then [0x2026] else ([0xD83D, 0xDD0D] @ js '' Analiz et''))]]
      # shown_if (str_field (js ''culprit'') i \<noteq> []) [El ''p'' [] [Txt (str_field (js ''culprit'') i)]])"

definition sentry_view :: "('w, 'm) sentry_page_scheme \<Rightarrow> sn_event html list" where
  "sentry_view s =
     [El ''div'' []
        [El ''div'' [] [back_link, El ''h2'' [] [Txt ([0xD83D, 0xDEE1, 0xFE0F] @ js '' Sentry'')]],
         El ''div'' [] (map (project_button s) (sn_projects s)
           @ shown_if (sn_projects s = []) [El ''p'' [] [Txt (js ''Proje yok / token ge'' @ [0xE7] @ js ''ersiz.'')]])]]
     @ error_el (sn_error s)
     @ [analyze_card s]
     @ shown_if (sn_analysis_error s \<noteq> []) [El ''p'' [] [Txt ([0x26A0, 0xFE0F] @ js '' ''), Txt (sn_analysis_error s)]]
     @ shown_if (\<not> nullish (sn_result s)) [result_card (value_of (sn_result s))]
     @ shown_if (sn_active s = [] \<and> nullish (sn_result s))
         [El ''p'' [] [Txt (js ''Bir proje se'' @ [0xE7] @ js ''in ya da yukar'' @ [0x131] @ js ''ya bir hata linki yap'' @ [0x131, 0x15F] @ js ''t'' @ [0x131] @ js ''r'' @ [0x131] @ js ''n.'')]]
     @ [El ''div'' [] (map (issue_card s) (sn_issues s)
         @ shown_if (sn_active s \<noteq> [] \<and> sn_issues s = []) [El ''p'' [] [Txt (js ''A'' @ [0xE7, 0x131] @ js ''k issue yok. '' @ [0xD83C, 0xDF89])]])]"

section \<open>Fine-tuning\<close>

definition STATUS :: "(jstr \<times> jstr) list" where
  "STATUS = [((js ''succeeded''), (js ''bg-green-100 text-green-700'')), ((js ''failed''), (js ''bg-red-100 text-red-700'')),
     ((js ''cancelled''), (js ''bg-slate-100 text-slate-500'')), ((js ''running''), (js ''bg-sky-100 text-sky-700'')),
     ((js ''queued''), (js ''bg-amber-100 text-amber-700'')), ((js ''pending''), (js ''bg-amber-100 text-amber-700''))]"

definition job_form :: "('w, 'm) tune_page_scheme \<Rightarrow> ft_event html" where
  "job_form s = El ''div'' []
     ([El ''div'' []
        [labelled [Txt (js ''E'' @ [0x11F] @ js ''itim belgesi (.jsonl)'')] (select_el (ft_doc s) FtDoc
           (option_el [] ([0x2014] @ js '' se'' @ [0xE7] @ js ''in '' @ [0x2014]) # map (\<lambda>d. El ''option'' [At ''key'' (str_field (js ''id'') d),
              At ''value'' (str_field (js ''id'') d)] [Txt (str_field (js ''filename'') d)]) (ft_docs s))),
         labelled [say ''Temel model''] (input_el [] (ft_model s) FtModel)],
       El ''button'' [click FtCreateClick, Flag ''disabled'' (ft_creating s \<or> ft_doc s = [])]
         [Txt (if ft_creating s then (js ''Ba'' @ [0x15F] @ js ''lat'' @ [0x131] @ js ''l'' @ [0x131] @ js ''yor'' @ [0x2026]) else (js ''Fine-tune ba'' @ [0x15F] @ js ''lat''))]]
      @ shown_if (ft_docs s = []) [El ''p'' [] [Txt (js ''JSONL belge bulunamad'' @ [0x131] @ js ''. '' @ [0xD6] @ js ''nce ''),
          link_el (js ''/documents'') [say ''Belgelerim''], Txt ([0x27] @ js ''e bir .jsonl y'' @ [0xFC] @ js ''kleyin.'')]])"

definition job_el :: "json \<Rightarrow> ft_event html" where
  "job_el j = (let f = (\<lambda>k. str_field (js k) j) in El ''tr'' [At ''key'' (f ''id'')]
     [El ''td'' [] [Txt (f ''base_model'')],
      El ''td'' [] [Txt (or_text (f ''external_job_id'') [0x2014])],
      El ''td'' [] [El ''span'' [At ''class'' ((js ''badge '') @ class_or STATUS (f ''status'') (js ''bg-slate-100 text-slate-600''))]
        [Txt (f ''status'')]],
      El ''td'' [] [Txt (or_text (f ''fine_tuned_model'') [0x2014])],
      El ''td'' [] [Txt (minute_text (f ''created_at''))]])"

definition tune_view :: "('w, 'm) tune_page_scheme \<Rightarrow> ft_event html list" where
  "tune_view s =
     [back_link, El ''h1'' [] [Txt ([0xD83C, 0xDFAF] @ js '' Fine-tuning'')],
      El ''p'' [] [Txt (js ''Belgelerim'' @ [0x27] @ js ''e y'' @ [0xFC] @ js ''kledi'' @ [0x11F] @ js ''iniz JSONL e'' @ [0x11F] @ js ''itim dosyas'' @ [0x131] @ js ''yla OpenAI '' @ [0xFC] @ js ''zerinde fine-tune i'' @ [0x15F] @ js ''i ba'' @ [0x15F] @ js ''lat'' @ [0x131] @ js ''n. OpenAI anahtar'' @ [0x131] @ js ''n'' @ [0x131] @ js ''z'' @ [0x131] @ js '' Ba'' @ [0x11F] @ js ''lant'' @ [0x131] @ js ''lar'' @ [0x131] @ js ''m'' @ [0x27] @ js ''dan eklemelisiniz.'')]]
     @ error_el (ft_error s) @ [job_form s]
     @ [El ''table'' []
         [head_row [(js ''Temel model''), (js ''Job ID''), (js ''Durum''), (js ''Sonu'' @ [0xE7] @ js '' modeli''), (js ''Tarih'')],
          El ''tbody'' [] (map job_el (ft_jobs s)
            @ shown_if (ft_jobs s = []) [El ''tr'' [] [El ''td'' [] [Txt (js ''Hen'' @ [0xFC] @ js ''z i'' @ [0x15F] @ js '' yok.'')]]])]]"

section \<open>What is not offered does nothing\<close>

lemma github_offers:
  "(can_do (github_view s) (GhOpenRepo r) \<longleftrightarrow> r \<in> set (gh_repos s))
   \<and> (can_do (github_view s) (GhOpenEntry e) \<longleftrightarrow> gh_file s = None \<and> e \<in> set (gh_entries s))
   \<and> (can_do (github_view s) GhParent \<longleftrightarrow> gh_file s = None \<and> gh_repo s \<noteq> None \<and> gh_path s \<noteq> [])
   \<and> (can_do (github_view s) GhBack \<longleftrightarrow> gh_file s \<noteq> None)"
  by (cases "gh_repo s"; cases "gh_file s")
    (simp_all add: github_view_def back_link_def repo_button_def file_el_def entry_button_def fires_def can_simps del: js_Cons)

lemma slack_offers:
  "(can_do (slack_view E s) (SlOpen c) \<longleftrightarrow> c \<in> set (sl_followed s))
   \<and> (can_do (slack_view E s) (SlUnfollowClick c) \<longleftrightarrow> is_admin E s \<and> c \<in> set (sl_followed s))
   \<and> (can_do (slack_view E s) SlShowAll \<longleftrightarrow> is_admin E s \<and> \<not> sl_show_all s)
   \<and> (can_do (slack_view E s) (SlFollowClick c) \<longleftrightarrow> is_admin E s \<and> sl_show_all s \<and> c \<in> set (addable s))
   \<and> (can_do (slack_view E s) (SlType t) \<longleftrightarrow> sl_active s \<noteq> None)
   \<and> (can_do (slack_view E s) SlEnter \<longleftrightarrow> sl_active s \<noteq> None)"
  by (cases "sl_active s")
    (auto simp add: slack_view_def back_link_def followed_row_def add_channel_el_def slack_msg_def fires_def can_simps Let_def simp del: js_Cons)

lemma sentry_offers:
  "(can_do (sentry_view s) (SnOpen p) \<longleftrightarrow> p \<in> set (sn_projects s))
   \<and> can_do (sentry_view s) (SnLink t) \<and> can_do (sentry_view s) SnEnter
   \<and> (can_do (sentry_view s) SnAnalyze \<longleftrightarrow> trim (sn_link s) \<noteq> [] \<and> sn_analyzing s \<noteq> sn_link s)
   \<and> (can_do (sentry_view s) (SnIssue i) \<longleftrightarrow> i \<in> set (sn_issues s) \<and> sn_analyzing s \<noteq> issue_key i)
   \<and> (can_do (sentry_view s) SnClose \<longleftrightarrow> \<not> nullish (sn_result s))"
  by (auto simp: sentry_view_def back_link_def project_button_def analyze_card_def result_card_def
      issue_card_def fires_def can_simps simp del: js_Cons)

lemma tune_offers:
  "can_do (tune_view s) (FtDoc d) \<and> can_do (tune_view s) (FtModel m)
   \<and> (can_do (tune_view s) FtCreateClick \<longleftrightarrow> \<not> ft_creating s \<and> ft_doc s \<noteq> [])"
  by (auto simp: tune_view_def back_link_def job_form_def job_el_def fires_def can_simps Let_def simp del: js_Cons)

text \<open>An event that the page does not offer, and that is no mounting and no answer, changes nothing: the
  guards of the machines are those of the markup.\<close>

lemma github_unoffered:
  "\<not> can_do (github_view s) e \<Longrightarrow> e \<noteq> GhMount \<Longrightarrow> (\<forall>i. e \<noteq> GhRun i) \<Longrightarrow> gh_step E e s = s"
  by (cases e) (auto simp: github_offers parentPath_def split: option.split)

lemma slack_unoffered:
  "\<not> can_do (slack_view E s) e \<Longrightarrow> e \<noteq> SlMount \<Longrightarrow> (\<forall>i. e \<noteq> SlRun i) \<Longrightarrow> sl_step E e s = s"
  by (cases e) (auto simp: slack_offers slack_send_def)

lemma sentry_unoffered:
  assumes not: "\<not> can_do (sentry_view s) e" and "e \<noteq> SnMount" "\<forall>i. e \<noteq> SnRun i" "e \<noteq> SnClose"
  shows "sn_step E e s = s"
proof (cases e)
  case (SnIssue i)
  then have "\<not> (i \<in> set (sn_issues s) \<and> sn_analyzing s \<noteq> issue_key i)" using not sentry_offers [of s] by blast
  then show ?thesis using SnIssue by (simp only: sn_step.simps if_False)
next
  case SnAnalyze
  then show ?thesis using not sentry_offers [of s] by (simp only: sn_step.simps) auto
next
  case (SnOpen p)
  then show ?thesis using not sentry_offers [of s] by (simp only: sn_step.simps) auto
qed (use assms sentry_offers [of s] in blast)+

lemma tune_unoffered:
  "\<not> can_do (tune_view s) e \<Longrightarrow> e \<noteq> FtMount \<Longrightarrow> (\<forall>i. e \<noteq> FtRun i) \<Longrightarrow> ft_step E e s = s"
  by (cases e) (auto simp: tune_offers)

text \<open>The button of the Sentry page compares the link with the analysis that runs: with an empty link and
  no analysis it says that one is running.\<close>

lemma idle_page_says_analyzing:
  assumes "sn_link s = []" and "sn_analyzing s = []"
  shows "(js ''Analiz ediliyor'' @ [0x2026]) \<in> set (page_words (sentry_view s))"
  using assms by (simp add: sentry_view_def analyze_card_def html_simps del: js_Cons)

end
