(* ===== verification/Library_Views.thy ===== *)
theory Library_Views
  imports Documents_Page Knowledge_Page Marketplace_Page Panel_Html
begin

text \<open>
  What the pages of the documents, of the knowledge base and of the marketplace show: the returned
  elements of \<open>documents\<close>, \<open>knowledge\<close> and \<open>marketplace\<close> under \<open>panel/app/(dash)\<close>.
  What the user chooses in the browser's own dialogs (files, confirmations) is an argument.
\<close>

section \<open>The documents\<close>

definition icon_text :: "file_icon \<Rightarrow> jstr" where
  "icon_text i = (case i of PictureIcon \<Rightarrow> [0xD83D, 0xDDBC, 0xFE0F] | PageIcon \<Rightarrow> [0xD83D, 0xDCC4] | NoteIcon \<Rightarrow> [0xD83D, 0xDCDD]
     | ArchiveIcon \<Rightarrow> [0xD83D, 0xDDDC, 0xFE0F] | ClipIcon \<Rightarrow> [0xD83D, 0xDCCE])"

text \<open>The button opens the hidden file input, whose choice is uploaded.\<close>

definition upload_bar :: "jsfile list \<Rightarrow> ('w, 'm) docs_page_scheme \<Rightarrow> dp_event html" where
  "upload_bar chosen s = El ''div'' []
     [El ''div'' [] [El ''h1'' [] [say ''Belgelerim''],
        El ''p'' [] [Txt (js ''Dosyalar'' @ [0x131] @ js ''n'' @ [0x131] @ js ''z'' @ [0x131] @ js '' g'' @ [0xFC] @ js ''venle saklay'' @ [0x131] @ js ''n, '' @ [0xF6] @ js ''nizleyin ve sohbetlerde kullan'' @ [0x131] @ js ''n.'')]],
      El ''div'' [] [El ''input'' [At ''type'' (js ''file''), Flag ''multiple'' True, Flag ''hidden'' True] [],
         El ''button'' [click (DpFiles chosen), Flag ''disabled'' (dp_uploading s)]
           [Txt (if dp_uploading s then (js ''Y'' @ [0xFC] @ js ''kleniyor'' @ [0x2026]) else (js ''+ Dosya Y'' @ [0xFC] @ js ''kle''))]]]"

definition document_row :: "bool \<Rightarrow> json \<Rightarrow> dp_event html" where
  "document_row confirmed d = El ''div'' [At ''key'' (str_field (js ''id'') d)]
     [El ''span'' [] [Txt (icon_text (iconFor (str_field (js ''mime_type'') d)))],
      El ''button'' [click (DpOpen d)]
        [El ''p'' [] [Txt (str_field (js ''filename'') d)],
         El ''p'' [] ([Txt (str_field (js ''mime_type'') d), Txt (js '' '' @ [0xB7] @ js '' ''), Txt (humanSize (nat_field (js ''size_bytes'') d)),
             Txt (js '' '' @ [0xB7] @ js '' ''), Txt (minute_text (str_field (js ''created_at'') d))]
           @ shown_if (bool_field (js ''indexed'') d) [El ''span'' [] [Txt ([0xB7] @ js '' RAG indeksli'')]])],
      El ''button'' [click (DpOpen d)] [Txt ([0xD6] @ js ''nizle'')],
      El ''button'' [click (DpRemove d confirmed)] [say ''Sil'']]"

text \<open>The body of the preview; an object URL is written as its number.\<close>

definition url_text :: "nat \<Rightarrow> jstr" where
  "url_text u = (js ''blob:'') @ dec_nat u"

definition preview_el :: "preview \<Rightarrow> dp_event html" where
  "preview_el p = (let mime = str_field (js ''mime_type'') (pv_doc p); name = str_field (js ''filename'') (pv_doc p) in
     El ''div'' []
     [El ''div'' [] [El ''span'' [] [Txt name], El ''button'' [click DpClose] [say ''Kapat'']],
      El ''div'' []
        (shown_if (starts_with mime (js ''image/'')) [El ''img'' [At ''src'' (url_text (pv_url p)), At ''alt'' name] []]
         @ shown_if (mime = js ''application/pdf'') [El ''iframe'' [At ''src'' (url_text (pv_url p)), At ''title'' name] []]
         @ (case pv_text p of None \<Rightarrow> [] | Some t \<Rightarrow> [El ''pre'' [] [Txt t]])
         @ shown_if (\<not> starts_with mime (js ''image/'') \<and> mime \<noteq> js ''application/pdf'' \<and> pv_text p = None)
             [El ''div'' [] [El ''p'' [] [Txt (js ''Bu dosya t'' @ [0xFC] @ js ''r'' @ [0xFC] @ js '' '' @ [0xF6] @ js ''nizlenemiyor.'')],
                El ''a'' [At ''href'' (url_text (pv_url p)), At ''download'' name] [Txt ([0x130] @ js ''ndir'')]]])])"

definition documents_view :: "jsfile list \<Rightarrow> bool \<Rightarrow> ('w, 'm) docs_page_scheme \<Rightarrow> dp_event html list" where
  "documents_view chosen confirmed s =
     [upload_bar chosen s] @ error_el (dp_error s)
     @ [El ''div'' [] (shown_if (dp_docs s = []) [El ''p'' [] [Txt (js ''Hen'' @ [0xFC] @ js ''z belge yok. Yukar'' @ [0x131] @ js ''dan dosya y'' @ [0xFC] @ js ''kleyin.'')]]
         @ map (document_row confirmed) (dp_docs s))]
     @ (case dp_preview s of None \<Rightarrow> [] | Some p \<Rightarrow> [preview_el p])"

section \<open>The knowledge base\<close>

definition know_row :: "('w, 'm) know_page_scheme \<Rightarrow> json \<Rightarrow> kn_event html" where
  "know_row s d = (let i = str_field (js ''id'') d; indexed = bool_field (js ''indexed'') d in
     El ''div'' [At ''key'' i]
     [El ''input'' [At ''type'' (js ''checkbox''), Flag ''disabled'' (\<not> indexed), Flag ''checked'' (i \<in> set (kn_selected s)),
        On ''change'' (\<lambda>_. KnToggle d), At ''title'' (if indexed then (js ''Soruya dahil et'') else ([0xD6] @ js ''nce indeksleyin''))] [],
      El ''span'' [At ''title'' (str_field (js ''filename'') d)] [Txt (str_field (js ''filename'') d)],
      (if indexed then El ''span'' [] [say ''indeksli'']
       else El ''button'' [Flag ''disabled'' (kn_indexing s = Some i), click (KnIndexClick d)]
         [Txt (if kn_indexing s = Some i then [0x2026] else ([0x130] @ js ''ndeksle''))])])"

definition answer_el :: "know_panel \<Rightarrow> kn_event html" where
  "answer_el p = (case p of
       Hint \<Rightarrow> El ''div'' [] [El ''div'' [] [Txt [0xD83D, 0xDCDA]], El ''p'' [] [say ''Belgelerinize soru sorun''],
         El ''p'' [] [Txt (js ''Soldan belge se'' @ [0xE7] @ js ''in (bo'' @ [0x15F] @ js '' b'' @ [0x131] @ js ''rak'' @ [0x131] @ js ''rsan'' @ [0x131] @ js ''z t'' @ [0xFC] @ js ''m'' @ [0xFC] @ js '' kullan'' @ [0x131] @ js ''l'' @ [0x131] @ js ''r).'')]]
     | Preparing \<Rightarrow> El ''p'' [] [Txt (js ''Yan'' @ [0x131] @ js ''t haz'' @ [0x131] @ js ''rlan'' @ [0x131] @ js ''yor'' @ [0x2026])]
     | AnswerShown a sources \<Rightarrow> El ''div'' [] (El ''div'' [] [Txt a]
         # shown_if (sources \<noteq> []) [El ''div'' [] (El ''span'' [] [say ''Kaynaklar:'']
             # map (\<lambda>x. El ''span'' [At ''key'' x] [Txt x]) sources)]))"

definition knowledge_view :: "('w, 'm) know_page_scheme \<Rightarrow> kn_event html list" where
  "knowledge_view s =
     [El ''div'' []
        [El ''div'' [] [El ''h2'' [] [Txt ([0xD83D, 0xDCDA] @ js '' Bilgi Taban'' @ [0x131])], El ''p'' [] [say ''Belgeleri indeksleyin, sonra soru sorun.'']],
         El ''div'' [] (shown_if (kn_docs s = []) [El ''p'' [] [say ''Belge yok. '', link_el (js ''/documents'') [say ''Belgelerim''], Txt ([0x27] @ js ''den y'' @ [0xFC] @ js ''kleyin.'')]]
           @ map (know_row s) (kn_docs s)),
         El ''div'' [] [Txt (selection_note s)]],
      El ''div'' [] (error_el (kn_error s) @ map answer_el (know_panels s)),
      El ''div'' []
        [El ''textarea'' [At ''placeholder'' (js ''Belgelerinize bir soru sorun'' @ [0x2026]), At ''value'' (kn_question s), On ''change'' KnType,
           On ''keydown'' (\<lambda>_. KnEnter)] [],
         El ''button'' [click KnAskClick, Flag ''disabled'' (kn_asking s \<or> trim (kn_question s) = [])] [say ''Sor'']]]"

section \<open>The marketplace\<close>

definition app_buttons :: "bool \<Rightarrow> bool \<Rightarrow> json \<Rightarrow> mk_event html list" where
  "app_buttons admin confirmed app = (let needs = bool_field (js ''needs_config'') app;
       button = (\<lambda>b label. El ''button'' [click (MkPress app b confirmed)] [Txt label]) in
     (case map_of TOOL_LINKS (slug_of app) of
        Some l \<Rightarrow> shown_if (installed app \<and> app_enabled app) [link_el l [Txt (js ''A'' @ [0xE7])]] | None \<Rightarrow> [])
     @ shown_if (admin \<and> \<not> installed app \<and> needs) [button Configure (js ''Kur'')]
     @ shown_if (admin \<and> \<not> installed app \<and> \<not> needs) [button QuickInstall (js ''Kur'')]
     @ shown_if (admin \<and> installed app)
         (shown_if needs [button Settings (js ''Ayarla'')]
          @ [button Toggle (if app_enabled app then (js ''Devre d'' @ [0x131, 0x15F, 0x131] @ js '' b'' @ [0x131] @ js ''rak'') else (js ''Etkinle'' @ [0x15F] @ js ''tir'')), button Uninstall (js ''Kald'' @ [0x131] @ js ''r'')])
     @ shown_if (\<not> admin \<and> \<not> installed app) [El ''span'' [] [Txt (js ''Y'' @ [0xF6] @ js ''netici kurmal'' @ [0x131])]])"

definition app_card :: "bool \<Rightarrow> bool \<Rightarrow> json \<Rightarrow> mk_event html" where
  "app_card admin confirmed app = El ''div'' [At ''key'' (slug_of app)]
     [El ''div'' []
        [El ''span'' [] [Txt (str_field (js ''icon'') app)],
         El ''div'' [] (El ''p'' [] [Txt (str_field (js ''name'') app)]
           # shown_if (installed app) [El ''span'' [At ''class'' (if app_enabled app then (js ''bg-green-100 text-green-700'')
                else (js ''bg-slate-100 text-slate-500''))] [Txt (if app_enabled app then (js ''Kurulu'') else (js ''Devre d'' @ [0x131, 0x15F, 0x131]))]])],
      El ''p'' [] [Txt (str_field (js ''description'') app)],
      El ''div'' [] (app_buttons admin confirmed app)]"

definition guide_text :: "string \<Rightarrow> json \<Rightarrow> jval" where
  "guide_text k app = opt_prop (js k) (jprop (js ''guide'') app)"

definition guide_el :: "json \<Rightarrow> (nat \<times> jstr) list \<Rightarrow> mk_event html" where
  "guide_el app steps = El ''div'' []
     [El ''p'' [] [Txt (js ''Ba'' @ [0x11F] @ js ''lant'' @ [0x131] @ js '' bilgilerini almak i'' @ [0xE7] @ js ''in '' @ [0x15F] @ js ''u ad'' @ [0x131] @ js ''mlar'' @ [0x131] @ js '' izle:'')],
      El ''ol'' [] (map (\<lambda>(i, t). El ''li'' [At ''key'' (dec_nat (i - 1))]
        [El ''span'' [] [Txt (dec_nat i)], El ''span'' [] [Txt t]]) steps),
      link_el (child_text (guide_text ''console_url'' app))
        [El ''span'' [] [Txt [0xD83D, 0xDD17]], El ''span'' [] [Txt (child_text (guide_text ''console_label'' app))], El ''span'' [] [Txt [0x2197]]],
      El ''button'' [click MkNext] [Txt (js ''Bilgileri ald'' @ [0x131] @ js ''m, devam et '' @ [0x2192])]]"

definition config_field_el :: "json \<Rightarrow> jstr \<times> jstr \<times> bool \<Rightarrow> mk_event html" where
  "config_field_el f fv = (case fv of (k, v, hidden) \<Rightarrow> El ''div'' [At ''key'' k]
     [El ''label'' [] (Txt (str_field (js ''label'') f)
        # shown_if (bool_field (js ''optional'') f) [El ''span'' [] [say '' (opsiyonel)'']]),
      input_el [At ''type'' (if hidden then (js ''password'') else (js ''text'')), At ''placeholder'' (str_field (js ''placeholder'') f)]
        v (MkType k)])"

definition form_el :: "json \<Rightarrow> (jstr \<times> jstr \<times> bool) list \<Rightarrow> bool \<Rightarrow> mk_event html" where
  "form_el app fs guide = El ''div'' []
     [El ''div'' [] (map (\<lambda>(f, fv). config_field_el f fv) (zip (items_of (jprop (js ''config_fields'') app)) fs)),
      El ''div'' []
        [if guide then El ''button'' [click MkBack] [Txt ([0x2190] @ js '' Geri'')] else El ''button'' [click MkBack] [Txt ([0x130] @ js ''ptal'')],
         El ''button'' [click MkSave] [say ''Kaydet'']]]"

definition dialog_head :: "json \<Rightarrow> mk_event html" where
  "dialog_head app = El ''div'' []
     [El ''div'' []
        [El ''span'' [] [Txt (str_field (js ''icon'') app)],
         El ''div'' [] [El ''p'' [] [Txt (str_field (js ''name'') app)],
           El ''p'' [] [Txt (child_text (or_nullish (guide_text ''subtitle'' app) (Some (JStr (js ''Yap'' @ [0x131] @ js ''land'' @ [0x131] @ js ''rma'')))))]]],
      El ''button'' [click MkClose] [Txt [0xD7]]]"

definition config_el :: "config_dialog \<Rightarrow> mk_event html list" where
  "config_el c = (case c of
       NoConfig \<Rightarrow> []
     | ConfigGuide app steps \<Rightarrow> [El ''div'' [click MkClose] [El ''div'' [] [dialog_head app, guide_el app steps]]]
     | ConfigForm app fs guide \<Rightarrow> [El ''div'' [click MkClose] [El ''div'' [] [dialog_head app, form_el app fs guide]]])"

definition market_view :: "'w env \<Rightarrow> bool \<Rightarrow> ('w, 'm) market_page_scheme \<Rightarrow> mk_event html list" where
  "market_view E confirmed s =
     [El ''h1'' [] [say ''Marketplace''],
      El ''p'' [] [Txt (js ''Entegrasyonlar'' @ [0x131] @ js '' kurun: GitHub, Slack, Sentry, API Client, Swagger ve Fine-tuning.'')]]
     @ error_el (mk_error s)
     @ map (\<lambda>(cat, apps). El ''div'' [At ''key'' cat]
         [El ''h2'' [] [Txt cat], El ''div'' [] (map (app_card (is_admin E s) confirmed) apps)]) (market_groups (mk_apps s))
     @ config_el (config_view s)"

section \<open>What is not offered does nothing\<close>

lemma answer_el_does [can_simps]: "does (answer_el p) e \<longleftrightarrow> False"
  by (cases p) (simp_all add: answer_el_def can_simps del: js_Cons)

lemma knowledge_offers:
  "(can_do (knowledge_view s) (KnIndexClick d) \<longleftrightarrow> d \<in> set (kn_docs s) \<and> \<not> bool_field (js ''indexed'') d
      \<and> kn_indexing s \<noteq> Some (str_field (js ''id'') d))
   \<and> (can_do (knowledge_view s) (KnToggle d) \<longleftrightarrow> d \<in> set (kn_docs s) \<and> bool_field (js ''indexed'') d)
   \<and> can_do (knowledge_view s) (KnType t) \<and> can_do (knowledge_view s) KnEnter
   \<and> (can_do (knowledge_view s) KnAskClick \<longleftrightarrow> \<not> kn_asking s \<and> trim (kn_question s) \<noteq> [])"
  by (auto simp: knowledge_view_def know_row_def fires_def can_simps Let_def simp del: js_Cons)

lemma knowledge_unoffered:
  "\<not> can_do (knowledge_view s) e \<Longrightarrow> e \<noteq> KnMount \<Longrightarrow> (\<forall>i. e \<noteq> KnRun i) \<Longrightarrow> kn_step E e s = s"
  by (cases e) (auto simp: knowledge_offers)

lemma in_groups: "(\<exists>g \<in> set (market_groups apps). app \<in> set (snd g)) \<longleftrightarrow> app \<in> set apps"
  by (auto simp: market_groups_def categories_def set_uniq)

lemma app_card_does [can_simps]:
  "does (app_card admin c app) e \<longleftrightarrow> (\<exists>b \<in> set (market_buttons admin app). e = MkPress app b c \<and> b \<noteq> AskAdmin \<and> (\<forall>l. b \<noteq> OpenTool l))"
  by (auto simp: app_card_def app_buttons_def market_buttons_def can_simps Let_def simp del: js_Cons split: option.split)

lemma groups_do:
  "can_do (map (\<lambda>(cat, apps). El ''div'' [At ''key'' cat]
      [El ''h2'' [] [Txt cat], El ''div'' [] (map (app_card admin c) apps)]) (market_groups as)) e
    \<longleftrightarrow> (\<exists>app \<in> set as. does (app_card admin c app) e)"
proof -
  have "?thesis \<longleftrightarrow> ((\<exists>g \<in> set (market_groups as). \<exists>app \<in> set (snd g). does (app_card admin c app) e)
      \<longleftrightarrow> (\<exists>app \<in> set as. does (app_card admin c app) e))"
    by (simp add: can_simps case_prod_beta del: app_card_does cong: bex_cong)
  also have "\<dots>" using in_groups [of as] by blast
  finally show ?thesis by blast
qed

lemma config_fields_do:
  "(\<exists>x \<in> set (zip fs (map (config_field form) fs)). case x of (f, fv) \<Rightarrow> does (config_field_el f fv) e)
    \<longleftrightarrow> (\<exists>k \<in> fst ` set (map (config_field form) fs). \<exists>v. e = MkType k v)"
  by (force simp: zip_map2 zip_same_conv_map config_field_def config_field_el_def fires_def can_simps Let_def simp del: js_Cons)

lemma config_does:
  "can_do (config_el (config_view s)) e \<longleftrightarrow> (case config_view s of
       NoConfig \<Rightarrow> False
     | ConfigGuide app steps \<Rightarrow> e \<in> {MkClose, MkNext}
     | ConfigForm app fs g \<Rightarrow> e \<in> {MkClose, MkBack, MkSave} \<or> (\<exists>k \<in> fst ` set fs. \<exists>v. e = MkType k v))"
proof (cases "config_view s")
  case (ConfigForm app fs g)
  then have "fs = map (config_field (mk_form s)) (items_of (jprop (js ''config_fields'') app))"
    by (auto simp: config_view_def split: option.splits if_splits)
  then show ?thesis
    using config_fields_do [of "items_of (jprop (js ''config_fields'') app)" "mk_form s" e] ConfigForm
    by (auto simp: config_el_def form_el_def dialog_head_def can_simps simp del: js_Cons)
qed (auto simp: config_el_def guide_el_def dialog_head_def can_simps simp del: js_Cons)

lemma market_offers:
  "can_do (market_view E c s) e \<longleftrightarrow>
     (\<exists>app \<in> set (mk_apps s). \<exists>b \<in> set (market_buttons (is_admin E s) app).
        e = MkPress app b c \<and> b \<noteq> AskAdmin \<and> (\<forall>l. b \<noteq> OpenTool l))
     \<or> can_do (config_el (config_view s)) e"
  using groups_do [of "is_admin E s" c "mk_apps s" e] by (simp add: market_view_def can_simps del: js_Cons)

lemma market_unoffered:
  assumes not: "\<not> can_do (market_view E c s) e" and "e \<noteq> MkMount" "\<forall>i. e \<noteq> MkRun i" "\<forall>app b c'. e = MkPress app b c' \<longrightarrow> c' = c"
  shows "market_step E e s = s"
proof -
  have d: "\<not> can_do (config_el (config_view s)) e" using not unfolding market_offers by blast
  show ?thesis
  proof (cases e)
    case (MkPress app b c')
    then show ?thesis using not assms(4) unfolding market_offers by (cases b) auto
  next
    case MkClose
    then have "config_view s = NoConfig" using d unfolding config_does by (cases "config_view s") simp_all
    then show ?thesis using MkClose by (auto simp: config_view_def split: option.splits if_splits)
  next
    case (MkType k v)
    then show ?thesis using d unfolding config_does by (cases "config_view s") auto
  next
    case MkNext
    then show ?thesis using d unfolding config_does by (cases "config_view s") simp_all
  next
    case MkBack
    then show ?thesis using d unfolding config_does by (cases "config_view s") simp_all
  next
    case MkSave
    then show ?thesis using d unfolding config_does by (cases "config_view s") simp_all
  qed (use assms(2,3) in blast)+
qed

end
