(* ===== verification/Insight_Views.thy ===== *)
theory Insight_Views
  imports Conversations_Page Dashboard_Page Panel_Html
begin

text \<open>
  What the pages of the administrators' overview show: the charts of \<open>panel/components/charts.tsx\<close> as
  elements, and the returned elements of \<open>dashboard\<close>, \<open>audit\<close>, \<open>alerts\<close> and
  \<open>conversations\<close> under \<open>panel/app/(dash)\<close>. How the platform writes numbers and dates in
  its locale, and its clock, are parameters.
\<close>

record platform =
  number_text :: "rat \<Rightarrow> jstr" \<comment> \<open>\<open>String(x)\<close>\<close>
  local_number :: "rat \<Rightarrow> jstr" \<comment> \<open>\<open>x.toLocaleString("tr-TR")\<close>\<close>
  local_date :: "jstr \<Rightarrow> jstr" \<comment> \<open>\<open>new Date(t).toLocaleString()\<close>\<close>
  age_ms :: "jstr \<Rightarrow> int" \<comment> \<open>\<open>Date.now() - new Date(t).getTime()\<close>\<close>

section \<open>Numbers\<close>

text \<open>The value of a number of JSON: digits, a fraction, an exponent.\<close>

definition digits_value :: "jstr \<Rightarrow> rat" where
  "digits_value ds = of_nat (nat_of_digits ds)"

definition exponent_value :: "jstr \<Rightarrow> rat" where
  "exponent_value t = (case t of
       [] \<Rightarrow> 1
     | _ # u \<Rightarrow> (case u of
         [] \<Rightarrow> 1
       | c # ds \<Rightarrow> if c = 0x2D then 1 / 10 ^ nat_of_digits ds
           else if c = 0x2B then 10 ^ nat_of_digits ds else 10 ^ nat_of_digits u))"

definition decimal_value :: "jstr \<Rightarrow> rat" where
  "decimal_value t = (let neg = (t \<noteq> [] \<and> hd t = 0x2D); u = (if neg then tl t else t);
       ip = takeWhile is_digit u; r = dropWhile is_digit u;
       fp = (if r \<noteq> [] \<and> hd r = 0x2E then takeWhile is_digit (tl r) else []);
       e = (if r \<noteq> [] \<and> hd r = 0x2E then dropWhile is_digit (tl r) else r);
       x = (digits_value ip + digits_value fp / 10 ^ length fp) * exponent_value e
     in if neg then - x else x)"

definition number_value :: "jval \<Rightarrow> rat" where
  "number_value v = (case v of Some (JInt i) \<Rightarrow> of_int i | Some (JNum t) \<Rightarrow> decimal_value t | _ \<Rightarrow> 0)"

text \<open>\<open>x.toFixed(k)\<close>: the nearest decimal with \<open>k\<close> digits, a tie upwards.\<close>

definition to_fixed :: "nat \<Rightarrow> rat \<Rightarrow> jstr" where
  "to_fixed k x = (let n = nat \<lfloor>\<bar>x\<bar> * 10 ^ k + 1 / 2\<rfloor>; ds = dec_nat n;
       padded = replicate (Suc k - length ds) 0x30 @ ds; cut = length padded - k
     in (if x < 0 then js ''-'' else []) @ take cut padded
       @ (if k = 0 then [] else js ''.'' @ drop cut padded))"

section \<open>The charts\<close>

definition PALETTE :: "jstr list" where
  "PALETTE = [(js ''#4f46e5''), (js ''#0ea5e9''), (js ''#10b981''), (js ''#f59e0b''), (js ''#ef4444''), (js ''#8b5cf6''), (js ''#ec4899''), (js ''#14b8a6'')]"

definition color_of :: "nat \<Rightarrow> jstr" where
  "color_of i = PALETTE ! (i mod length PALETTE)"

text \<open>The gradient's name: the color without what is no letter or digit.\<close>

definition alnum :: "u16 \<Rightarrow> bool" where
  "alnum c \<longleftrightarrow> is_digit c \<or> (0x41 \<le> c \<and> c \<le> 0x5A) \<or> (0x61 \<le> c \<and> c \<le> 0x7A)"

definition gradient_id :: "jstr \<Rightarrow> jstr" where
  "gradient_id color = (js ''grad-'') @ filter alnum color"

definition label_el :: "jstr \<Rightarrow> 'e html list" where
  "label_el label = shown_if (label \<noteq> []) [El ''p'' [] [Txt label]]"

definition line_el :: "platform \<Rightarrow> rat \<times> rat \<Rightarrow> rat \<times> rat \<Rightarrow> 'e html" where
  "line_el P a b = El ''line'' [At ''x1'' (number_text P (fst a)), At ''y1'' (number_text P (snd a)),
     At ''x2'' (number_text P (fst b)), At ''y2'' (number_text P (snd b))] []"

definition grid_lines :: "platform \<Rightarrow> rat \<Rightarrow> 'e html list" where
  "grid_lines P height = map (\<lambda>f. line_el P (PAD, PAD + f * (height - PAD * 2)) (WIDTH - PAD, PAD + f * (height - PAD * 2)))
     [0.25, 0.5, 0.75]"

definition dot_el :: "platform \<Rightarrow> jstr \<Rightarrow> rat \<times> rat \<Rightarrow> nat \<Rightarrow> 'e html" where
  "dot_el P color p r = El ''circle'' [At ''cx'' (number_text P (fst p)), At ''cy'' (number_text P (snd p)),
     At ''r'' (dec_nat r), At ''fill'' color] []"

definition LineChart :: "platform \<Rightarrow> nat \<Rightarrow> jstr \<Rightarrow> jstr \<Rightarrow> rat list \<Rightarrow> 'e html" where
  "LineChart P height color label ys = (let pts = line_points (of_nat height) ys; base = of_nat height - PAD in
     El ''div'' [] (label_el label @ [El ''svg'' [At ''viewBox'' ((js ''0 0 600 '') @ dec_nat height)]
       (El ''defs'' [] [El ''linearGradient'' [At ''id'' (gradient_id color)]
           [El ''stop'' [At ''offset'' (js ''0''), At ''stopColor'' color, At ''stopOpacity'' (js ''0.35'')] [],
            El ''stop'' [At ''offset'' (js ''1''), At ''stopColor'' color, At ''stopOpacity'' (js ''0'')] []]]
        # grid_lines P (of_nat height)
        @ [line_el P (PAD, base) (WIDTH - PAD, base)]
        @ (if ys \<noteq> []
           then [El ''path'' [At ''d'' (area_path height pts), At ''fill'' ((js ''url(#'') @ gradient_id color @ (js '')''))] [],
             El ''path'' [At ''d'' (line_path pts), At ''fill'' (js ''none''), At ''stroke'' color] [],
             dot_el P color (last pts) 8, dot_el P color (last pts) 4]
           else [El ''text'' [At ''x'' (number_text P (WIDTH / 2)), At ''y'' (number_text P (of_nat height / 2))] [say ''veri yok'']]))]))"

definition bar_row :: "platform \<Rightarrow> nat \<Rightarrow> jstr \<Rightarrow> rat \<Rightarrow> rat \<Rightarrow> 'e html" where
  "bar_row P i name v width = El ''div'' [At ''key'' name]
     [El ''span'' [At ''title'' name] [Txt name],
      El ''div'' [] [El ''div'' [At ''width'' (number_text P width @ (js ''%'')), At ''background'' (color_of i)] []],
      El ''span'' [] [Txt (local_number P v)]]"

definition BarChart :: "platform \<Rightarrow> jstr \<Rightarrow> (jstr \<times> rat) list \<Rightarrow> 'e html" where
  "BarChart P label data = El ''div'' [] (label_el label @ [El ''div'' []
     (shown_if (data = []) [El ''p'' [] [say ''veri yok'']]
      @ map (\<lambda>(i, (name, v), width). bar_row P i name v width) (enumerate 0 (zip data (bar_widths (map snd data)))))])"

definition segment_el :: "platform \<Rightarrow> nat \<Rightarrow> jstr \<Rightarrow> rat \<times> rat \<times> rat \<Rightarrow> 'e html" where
  "segment_el P i name seg = (case seg of (offset, dash, gap) \<Rightarrow> El ''circle'' [At ''key'' name, At ''r'' (js ''60''),
     At ''stroke'' (color_of i), At ''strokeDasharray'' (number_text P dash @ (js '' '') @ number_text P gap),
     At ''strokeDashoffset'' (number_text P (- offset))] [])"

definition legend_el :: "nat \<Rightarrow> jstr \<Rightarrow> int \<Rightarrow> 'e html" where
  "legend_el i name percent = El ''div'' [At ''key'' name]
     [El ''span'' [At ''background'' (color_of i)] [], El ''span'' [] [Txt name],
      El ''span'' [] [say ''('', Txt (dec_int percent), say ''%)'']]"

definition Donut :: "platform \<Rightarrow> jstr \<Rightarrow> (jstr \<times> rat) list \<Rightarrow> 'e html" where
  "Donut P label data = El ''div'' [] (label_el label @ [El ''div'' []
     [El ''svg'' [At ''viewBox'' (js ''0 0 160 160'')] [El ''g'' [At ''transform'' (js ''translate(80,80) rotate(-90)'')]
        (map (\<lambda>(i, name, seg). segment_el P i name seg) (enumerate 0 (zip (map fst data) (donut (map snd data)))))],
      El ''div'' [] (map (\<lambda>(i, name, pc). legend_el i name pc)
          (enumerate 0 (zip (map fst data) (donut_percents (map snd data))))
        @ shown_if (data = []) [El ''p'' [] [say ''veri yok'']])]])"

section \<open>The dashboard\<close>

definition stat_el :: "jstr \<Rightarrow> jstr \<Rightarrow> jstr \<Rightarrow> bool \<Rightarrow> 'e html" where
  "stat_el label v sub accent = El ''div'' []
     ([El ''p'' [] [Txt label], El ''p'' [At ''class'' (if accent then (js ''text-brand'') else (js ''text-slate-800''))] [Txt v]]
      @ shown_if (sub \<noteq> []) [El ''p'' [] [Txt sub]])"

text \<open>\<open>summary?.k ?? 0\<close>\<close>

definition figure_of :: "string \<Rightarrow> ('w, 'm) dash_page_scheme \<Rightarrow> jval" where
  "figure_of k s = or_nullish (opt_prop (js k) (db_summary s)) (Some (JInt 0))"

definition stats_el :: "platform \<Rightarrow> ('w, 'm) dash_page_scheme \<Rightarrow> db_event html" where
  "stats_el P s = El ''div'' []
     [stat_el ([0x130] @ js ''stek'') (local_number P (number_value (figure_of ''requests'' s))) [] False,
      stat_el (js ''Token'') (local_number P (number_value (figure_of ''tokens'' s))) [] False,
      stat_el (js ''Tahmini Maliyet'') ((js ''$'') @ to_fixed 2 (number_value (figure_of ''estimated_cost_usd'' s)))
        (js ''liste fiyat'' @ [0x131] @ js '' tahmini'') False,
      stat_el (js ''Ort. Gecikme'') (val_str (figure_of ''avg_latency_ms'' s) @ (js '' ms'')) [] False,
      stat_el (js ''p95 Gecikme'') (val_str (figure_of ''p95_latency_ms'' s) @ (js '' ms'')) [] False,
      stat_el (js ''Hata Oran'' @ [0x131]) (to_fixed 1 (number_value (figure_of ''error_rate'' s) * 100) @ (js ''%''))
        (val_str (figure_of ''errors'' s) @ (js '' hata'')) True]"

definition period_el :: "nat \<Rightarrow> db_event html" where
  "period_el days = select_el (dec_nat days) (\<lambda>v. DbDays (nat_of_digits v))
     [option_el ''7'' (js ''Son 7 g'' @ [0xFC] @ js ''n''), option_el ''30'' (js ''Son 30 g'' @ [0xFC] @ js ''n''), option_el ''90'' (js ''Son 90 g'' @ [0xFC] @ js ''n'')]"

definition feed_row :: "platform \<Rightarrow> json \<Rightarrow> db_event html" where
  "feed_row P a = (case pill (str_field (js ''action'') a) of (cls, label) \<Rightarrow>
     El ''div'' [At ''key'' (str_field (js ''id'') a)]
       [El ''span'' [At ''class'' ((js ''pill '') @ cls)] [Txt label],
        El ''span'' [At ''title'' (str_field (js ''rule_name'') a)] [Txt (str_field (js ''rule_name'') a)],
        El ''span'' [] [Txt (ago (age_ms P (str_field (js ''created_at'') a)))]])"

definition named_counts :: "string \<Rightarrow> string \<Rightarrow> json list \<Rightarrow> (jstr \<times> rat) list" where
  "named_counts name k rows = map (\<lambda>r. (str_field (js name) r, count_of (js k) r)) rows"

definition dashboard_view :: "platform \<Rightarrow> ('w, 'm) dash_page_scheme \<Rightarrow> db_event html list" where
  "dashboard_view P s =
     [El ''div'' [] [El ''div'' [] [El ''h1'' [] [say ''Kontrol Merkezi''],
        El ''p'' [] [Txt (js ''Canl'' @ [0x131] @ js '' '' @ [0xB7] @ js '' kullan'' @ [0x131] @ js ''m, maliyet ve politika ak'' @ [0x131, 0x15F, 0x131] @ js ''.'')]], period_el (db_days s)]]
     @ error_el (db_error s)
     @ [stats_el P s,
        El ''div'' [] [LineChart P 200 (js ''#7c5cfc'') ([0x130] @ js ''stek hacmi'') (map (count_of (js ''requests'')) (db_series s))],
        El ''div'' [] [El ''p'' [] [Txt (js ''Canl'' @ [0x131] @ js '' politika ak'' @ [0x131, 0x15F, 0x131])], El ''span'' [] [say ''otomatik''],
          El ''div'' [] (shown_if (db_alerts s = []) [El ''p'' [] [Txt (js ''Hen'' @ [0xFC] @ js ''z politika uyar'' @ [0x131] @ js ''s'' @ [0x131] @ js '' yok.'')]]
            @ map (feed_row P) (js_slice 0 6 (db_alerts s)))],
        El ''div'' [] [LineChart P 200 (js ''#22d3d3'') (js ''G'' @ [0xFC] @ js ''nl'' @ [0xFC] @ js ''k token'') (map (count_of (js ''tokens'')) (db_series s))],
        El ''div'' [] [Donut P (js ''Model da'' @ [0x11F, 0x131] @ js ''l'' @ [0x131] @ js ''m'' @ [0x131] @ js '' (istek)'') (named_counts ''model'' ''requests'' (db_models s))],
        El ''div'' [] [BarChart P (js ''En '' @ [0xE7] @ js ''ok kullanan kullan'' @ [0x131] @ js ''c'' @ [0x131] @ js ''lar (token)'') (named_counts ''email'' ''tokens'' (db_users s))]]"

section \<open>The audit log\<close>

definition audit_el :: "platform \<Rightarrow> json \<Rightarrow> 'e html" where
  "audit_el P r = (let w = audit_row_of r in El ''tr'' [At ''key'' (str_field (js ''id'') r)]
     [El ''td'' [] [Txt (local_date P (str_field (js ''created_at'') r))],
      El ''td'' [] [Txt (aw_model w)],
      El ''td'' [] [El ''span'' [At ''class'' (if aw_failed w then (js ''text-red-600'') else (js ''text-green-600''))] [Txt (aw_status w)]],
      El ''td'' [] [Txt (aw_tokens w)],
      El ''td'' [] [Txt (aw_latency w)],
      El ''td'' [] [case aw_policies w of Some t \<Rightarrow> El ''span'' [] [Txt t] | None \<Rightarrow> Txt [0x2014]]])"

definition audit_view :: "platform \<Rightarrow> ('w, 'm) audit_page_scheme \<Rightarrow> unit html list" where
  "audit_view P s =
     [El ''h1'' [] [say ''Audit Logs'']] @ error_el (au_error s)
     @ [El ''table'' []
         [head_row [(js ''Time''), (js ''Model''), (js ''Status''), (js ''Tokens (in/out)''), (js ''Latency''), (js ''Policies'')],
          El ''tbody'' [] (map (audit_el P) (au_rows s)
            @ shown_if (au_rows s = [] \<and> au_error s = []) [El ''tr'' [] [El ''td'' [] [say ''No audit records yet.'']]])]]"

section \<open>The alerts\<close>

definition ALERT_SEV :: "(jstr \<times> jstr) list" where
  "ALERT_SEV = [((js ''high''), (js ''bg-red-100 text-red-700 dark:bg-red-900/40 dark:text-red-300'')),
     ((js ''medium''), (js ''bg-amber-100 text-amber-700 dark:bg-amber-900/40 dark:text-amber-300'')),
     ((js ''low''), (js ''bg-slate-100 text-slate-600 dark:bg-slate-700 dark:text-slate-300''))]"

definition piece_el :: "piece \<Rightarrow> 'e html list" where
  "piece_el p = (case p of Plain t \<Rightarrow> [Txt t] | MaskMark \<Rightarrow> [El ''span'' [] [Txt ([0x2702] @ js '' MASKED'')]])"

definition alert_head :: "json \<Rightarrow> al_event html" where
  "alert_head a = El ''div'' []
     ([El ''span'' [At ''class'' ((js ''badge '') @ (case map_of ALERT_SEV (str_field (js ''severity'') a) of
           None \<Rightarrow> (js ''undefined'') | Some c \<Rightarrow> c))] [Txt (str_field (js ''severity'') a)],
       El ''span'' [] [Txt (str_field (js ''category'') a)],
       El ''span'' [] [Txt (str_field (js ''rule_name'') a)],
       El ''span'' [] [Txt ([0xB7] @ js '' ''), Txt (action_label (str_field (js ''action'') a))]]
      @ shown_if (bool_field (js ''resolved'') a) [El ''span'' [] [Txt ([0xE7, 0xF6] @ js ''z'' @ [0xFC] @ js ''ld'' @ [0xFC])]])"

definition alert_body :: "jstr set \<Rightarrow> json \<Rightarrow> al_event html" where
  "alert_body expanded a = El ''div'' []
     (El ''span'' [] (concat (map piece_el (snippet_pieces (display_snippet expanded a))))
      # shown_if (is_long a) [El ''button'' [click (AlToggle a)] [Txt (expand_text expanded a)]])"

definition alert_foot :: "platform \<Rightarrow> json \<Rightarrow> al_event html" where
  "alert_foot P a = (let user = str_field (js ''user_id'') a; conv = str_field (js ''conversation_id'') a in El ''div'' []
     [El ''p'' [] (Txt (local_date P (str_field (js ''created_at'') a))
        # shown_if (user \<noteq> []) [Txt ((js '' '' @ [0xB7] @ js '' kullan'' @ [0x131] @ js ''c'' @ [0x131] @ js '' '') @ js_slice 0 8 user)]),
      El ''div'' [] (shown_if (conv \<noteq> []) [link_el (conversation_link conv) [Txt ([0xD83D, 0xDCAC] @ js '' Konu'' @ [0x15F] @ js ''maya git'')]]
        @ shown_if (\<not> bool_field (js ''resolved'') a) [El ''button'' [click (AlResolve a)] [Txt ([0x2713] @ js '' '' @ [0xC7, 0xF6] @ js ''z'' @ [0xFC] @ js ''ld'' @ [0xFC])]])])"

definition alerts_view :: "platform \<Rightarrow> ('w, 'm) alerts_page_scheme \<Rightarrow> al_event html list" where
  "alerts_view P s =
     [El ''div'' [] [El ''h1'' [] [say ''Alerts''],
        El ''label'' [] [El ''input'' [At ''type'' (js ''checkbox''), Flag ''checked'' (al_only_open s),
            On ''change'' (\<lambda>_. AlFilter (\<not> al_only_open s))] [], Txt (js ''Yaln'' @ [0x131] @ js ''zca a'' @ [0xE7, 0x131] @ js ''k uyar'' @ [0x131] @ js ''lar'')]],
      El ''p'' [] [Txt (js ''Politika tetiklenmeleri. Metinler maskelenmi'' @ [0x15F] @ js '' h'' @ [0xE2] @ js ''liyle saklan'' @ [0x131] @ js ''r '' @ [0x2014] @ js '' orijinal hassas veri g'' @ [0xF6] @ js ''r'' @ [0xFC] @ js ''nmez.'')]]
     @ error_el (al_error s)
     @ [El ''div'' [] (map (\<lambda>a. El ''div'' [At ''key'' (str_field (js ''id'') a)]
           [alert_head a, alert_body (al_expanded s) a, alert_foot P a]) (al_alerts s)
         @ shown_if (al_alerts s = [] \<and> al_error s = []) [El ''div'' [] [El ''div'' [] [Txt [0x2705]], Txt (js ''A'' @ [0xE7, 0x131] @ js ''k uyar'' @ [0x131] @ js '' yok.'')]])]"

section \<open>The conversations\<close>

definition convo_button :: "platform \<Rightarrow> jstr option \<Rightarrow> json \<Rightarrow> cv_event html" where
  "convo_button P active c = El ''button'' [At ''key'' (str_field (js ''id'') c), click (CvOpen c),
      At ''class'' (if active = Some (str_field (js ''id'') c) then (js ''bg-slate-100 font-medium'') else (js ''hover:bg-slate-50''))]
     [El ''p'' [] [Txt (or_dash (str_field (js ''title'') c))],
      El ''p'' [] [Txt (str_field (js ''user_email'') c)],
      El ''p'' [] [Txt (str_field (js ''model'') c), Txt (js '' '' @ [0xB7] @ js '' ''), Txt (local_date P (str_field (js ''updated_at'') c))]]"

definition thread_bubble :: "json \<Rightarrow> cv_event html" where
  "thread_bubble m = (let mine = (str_field (js ''role'') m = js ''user'') in
     El ''div'' [At ''key'' (str_field (js ''id'') m), At ''class'' (if mine then (js ''justify-end'') else (js ''justify-start''))]
       [El ''div'' [At ''class'' (if mine then (js ''bg-brand text-white'') else (js ''border border-slate-200 bg-white text-slate-800''))]
          (Txt (str_field (js ''content'') m)
           # (case tokens_note m of None \<Rightarrow> [] | Some t \<Rightarrow> [El ''span'' [] [Txt t]]))])"

definition thread_head :: "json option \<Rightarrow> cv_event html" where
  "thread_head active = (case active of
       Some c \<Rightarrow> El ''div'' [] [El ''p'' [] [Txt (or_dash (str_field (js ''title'') c))],
         El ''p'' [] [Txt (str_field (js ''user_email'') c), Txt (js '' '' @ [0xB7] @ js '' ''), Txt (str_field (js ''model'') c)]]
     | None \<Rightarrow> El ''div'' [] [El ''p'' [] [Txt (js ''Bir konu'' @ [0x15F] @ js ''ma se'' @ [0xE7] @ js ''in'')]])"

definition conversations_view :: "'w env \<Rightarrow> platform \<Rightarrow> ('w, 'm) convs_page_scheme \<Rightarrow> cv_event html list" where
  "conversations_view E P s =
     [El ''div'' []
        [El ''div'' [] [El ''h2'' [] [Txt (js ''Chat Ge'' @ [0xE7] @ js ''mi'' @ [0x15F] @ js ''i'')],
           input_el [At ''placeholder'' (js ''Ba'' @ [0x15F] @ js ''l'' @ [0x131] @ js ''k veya kullan'' @ [0x131] @ js ''c'' @ [0x131] @ js '' ara'' @ [0x2026])] (cv_search s) CvSearch],
         El ''div'' [] (shown_if (filtered_convos E s = []) [El ''p'' [] [Txt (js ''Konu'' @ [0x15F] @ js ''ma bulunamad'' @ [0x131] @ js ''.'')]]
           @ map (convo_button P (cv_active s)) (filtered_convos E s))],
      thread_head (active_convo s)]
     @ error_el (cv_error s)
     @ [El ''div'' [] (shown_if (active_convo s = None \<and> cv_error s = []) [El ''div'' [] [El ''p'' [] [Txt (js ''Soldan bir konu'' @ [0x15F] @ js ''ma se'' @ [0xE7] @ js ''in.'')]]]
         @ map thread_bubble (cv_messages s))]"

section \<open>What is not offered does nothing\<close>

lemma pieces_do [can_simps]: "can_do (piece_el p) e \<longleftrightarrow> False"
  by (cases p) (simp_all add: piece_el_def can_simps)

lemma alerts_offers:
  "(can_do (alerts_view P s) (AlFilter b) \<longleftrightarrow> b \<noteq> al_only_open s)
   \<and> (can_do (alerts_view P s) (AlResolve a) \<longleftrightarrow> a \<in> set (al_alerts s) \<and> \<not> bool_field (js ''resolved'') a)
   \<and> (can_do (alerts_view P s) (AlToggle a) \<longleftrightarrow> a \<in> set (al_alerts s) \<and> is_long a)"
  by (auto simp: alerts_view_def alert_head_def alert_body_def alert_foot_def can_simps Let_def simp del: js_Cons)

lemma conversations_offers:
  "can_do (conversations_view E P s) (CvSearch t)
   \<and> (can_do (conversations_view E P s) (CvOpen c) \<longleftrightarrow> c \<in> set (filtered_convos E s))"
  by (auto simp: conversations_view_def convo_button_def thread_head_def thread_bubble_def fires_def can_simps Let_def
      simp del: js_Cons split: option.splits)

lemma alerts_unoffered:
  "\<not> can_do (alerts_view P s) e \<Longrightarrow> e \<noteq> AlMount \<Longrightarrow> (\<forall>i. e \<noteq> AlRun i) \<Longrightarrow> al_step E e s = s"
  by (cases e) (auto simp: alerts_offers)

lemma conversations_unoffered:
  "\<not> can_do (conversations_view E P s) e \<Longrightarrow> (\<forall>q. e \<noteq> CvMount q) \<Longrightarrow> (\<forall>i. e \<noteq> CvRun i) \<Longrightarrow> cv_step E e s = s"
  by (cases e) (auto simp: conversations_offers)

end
