(* ===== verification/Form_Views.thy ===== *)
theory Form_Views
  imports Settings_Page Providers_Page Panel_Shell Panel_Html
begin

text \<open>
  What the pages that are mostly forms show: the returned elements of \<open>panel/app/(dash)/settings/page.tsx\<close>,
  \<open>providers/page.tsx\<close>, \<open>panel/app/login/page.tsx\<close> and \<open>change-password/page.tsx\<close>, with the events of
  the last three and their handlers. What the user chooses in the browser's own dialogs (a file, a
  confirmation) is an argument.
\<close>

section \<open>The settings\<close>

definition FieldRow :: "jstr \<Rightarrow> jstr \<Rightarrow> 'e html list \<Rightarrow> 'e html" where
  "FieldRow label hint kids = El ''div'' []
     ([El ''label'' [] [Txt label]] @ kids @ shown_if (hint \<noteq> []) [El ''p'' [] [Txt hint]])"

definition setting_input :: "nat \<Rightarrow> string \<Rightarrow> settings \<Rightarrow> st_event html" where
  "setting_input limit k f = input_el [At ''maxlength'' (dec_nat limit)] (setting (js k) f) (StField (js k))"

definition save_bar_el :: "save_status \<Rightarrow> st_event html list" where
  "save_bar_el st = (case SaveBar st of None \<Rightarrow> [] | Some t \<Rightarrow>
     [El ''span'' [At ''class'' (if st = Saving then (js ''text-slate-400'') else if st = Saved then (js ''text-green-600 dark:text-green-400'')
        else (js ''text-red-600 dark:text-red-400''))] [Txt t]])"

definition dark_card :: "bool \<Rightarrow> st_event html" where
  "dark_card dark = El ''div'' []
     [El ''div'' [] [El ''p'' [] [say ''Koyu Tema''], El ''p'' [] [Txt (js ''Bu taray'' @ [0x131] @ js ''c'' @ [0x131] @ js ''daki g'' @ [0xF6] @ js ''r'' @ [0xFC] @ js ''n'' @ [0xFC] @ js ''m'' @ [0xFC] @ js ''n'' @ [0xFC] @ js ''z'' @ [0xFC] @ js '' de'' @ [0x11F] @ js ''i'' @ [0x15F] @ js ''tirir.'')]],
      El ''button'' [click StDark, At ''class'' (if dark then (js ''bg-brand'') else (js ''bg-slate-300 dark:bg-slate-600''))]
        [El ''span'' [At ''class'' (if dark then (js ''translate-x-6'') else (js ''translate-x-1''))] []]]"

definition section_head :: "jstr \<Rightarrow> jstr \<Rightarrow> st_event html list \<Rightarrow> st_event html" where
  "section_head title hint right = El ''div'' []
     [El ''div'' [] [El ''h2'' [] [Txt title], El ''p'' [] [Txt hint]], El ''div'' [] right]"

text \<open>The button opens the hidden file input; with no file chosen nothing is uploaded.\<close>

definition logo_row :: "jsfile option \<Rightarrow> ('w, 'm) settings_page_scheme \<Rightarrow> st_event html" where
  "logo_row chosen s = (let url = setting LOGO_URL (st_form s) in
     FieldRow (js ''Logo G'' @ [0xF6] @ js ''rseli'') (js ''PNG/JPG/SVG/WebP, maks 2 MB. Y'' @ [0xFC] @ js ''klenince harfin '' @ [0xF6] @ js ''n'' @ [0xFC] @ js ''ne ge'' @ [0xE7] @ js ''er.'')
     [El ''input'' [At ''type'' (js ''file''), At ''accept'' (js ''image/*''), Flag ''hidden'' True] [],
      El ''div'' []
        (El ''button'' ((case chosen of None \<Rightarrow> [] | Some f \<Rightarrow> [click (StFile f)]) @ [Flag ''disabled'' (st_logo s = LogoUploading)])
           [Txt (case st_logo s of LogoUploading \<Rightarrow> (js ''Y'' @ [0xFC] @ js ''kleniyor'' @ [0x2026]) | LogoDone \<Rightarrow> ([0x2713] @ js '' Y'' @ [0xFC] @ js ''klendi'') | LogoError \<Rightarrow> ([0x2717] @ js '' Hata'')
              | LogoIdle \<Rightarrow> (js ''G'' @ [0xF6] @ js ''rsel Se'' @ [0xE7]))]
         # (if truthy (map_of (st_form s) LOGO_URL)
            then [El ''img'' [At ''src'' url, At ''alt'' (js ''Logo'')] [], El ''button'' [click StClear] [Txt (js ''Kald'' @ [0x131] @ js ''r'')]]
            else [El ''div'' [] [say ''Yok'']]))])"

definition login_preview :: "settings \<Rightarrow> st_event html" where
  "login_preview f = El ''div'' []
     [El ''p'' [] [Txt ([0xD6] @ js ''nizleme '' @ [0x2014] @ js '' Login'')],
      El ''div'' []
        [El ''div'' [] [if truthy (map_of f LOGO_URL) then El ''img'' [At ''src'' (setting LOGO_URL f), At ''alt'' (js ''Logo'')] []
           else Txt (or_text (setting (js ''app_logo'') f) (js ''?''))],
         El ''p'' [] [Txt (setting (js ''app_name'') f)],
         El ''p'' [] [Txt (setting (js ''app_tagline'') f)]]]"

definition branding_section :: "jsfile option \<Rightarrow> ('w, 'm) settings_page_scheme \<Rightarrow> st_event html" where
  "branding_section chosen s = (let f = st_form s in El ''section'' []
     [section_head (js ''Marka Kimli'' @ [0x11F] @ js ''i'') (js ''Uygulama ad'' @ [0x131] @ js '', logo ve k'' @ [0x131] @ js ''sa a'' @ [0xE7, 0x131] @ js ''klama '' @ [0x2014] @ js '' login ekran'' @ [0x131] @ js ''nda ve sidebarda g'' @ [0xF6] @ js ''r'' @ [0xFC] @ js ''n'' @ [0xFC] @ js ''r.'')
        (save_bar_el (st_status s Branding) @ [El ''button'' [click (StSaveClick Branding)] [say ''Kaydet'']]),
      El ''div'' []
        [FieldRow (js ''Uygulama Ad'' @ [0x131]) (js ''Max 64 karakter'') [setting_input 64 ''app_name'' f],
         logo_row chosen s,
         FieldRow (js ''Logo Harfi / Emoji'') (js ''G'' @ [0xF6] @ js ''rsel yokken g'' @ [0xF6] @ js ''sterilir, 1-4 karakter'')
           [El ''div'' [] [setting_input 4 ''app_logo'' f, El ''div'' [] [Txt (or_text (setting (js ''app_logo'') f) (js ''?''))]]],
         FieldRow (js ''Alt Ba'' @ [0x15F] @ js ''l'' @ [0x131] @ js ''k'') (js ''Login ekran'' @ [0x131] @ js ''nda, ad alt'' @ [0x131] @ js ''nda g'' @ [0xF6] @ js ''r'' @ [0xFC] @ js ''n'' @ [0xFC] @ js ''r'') [setting_input 128 ''app_tagline'' f]],
      login_preview f])"

definition chat_preview :: "settings \<Rightarrow> st_event html" where
  "chat_preview f = El ''div'' []
     [El ''p'' [] [Txt ([0xD6] @ js ''nizleme '' @ [0x2014] @ js '' Bo'' @ [0x15F] @ js '' Chat'')],
      El ''div'' []
        [El ''div'' [] [Txt [0xD83D, 0xDCAC]],
         El ''p'' [] [Txt (setting (js ''chat_welcome_title'') f)],
         El ''p'' [] [Txt (setting (js ''chat_welcome_subtitle'') f)]]]"

definition chat_section :: "('w, 'm) settings_page_scheme \<Rightarrow> st_event html" where
  "chat_section s = (let f = st_form s in El ''section'' []
     [section_head (js ''Chat Aray'' @ [0xFC] @ js ''z'' @ [0xFC]) (js ''Kullan'' @ [0x131] @ js ''c'' @ [0x131] @ js ''n'' @ [0x131] @ js ''n chat ekran'' @ [0x131] @ js ''nda g'' @ [0xF6] @ js ''rd'' @ [0xFC, 0x11F, 0xFC] @ js '' metinler.'')
        (save_bar_el (st_status s ChatTexts) @ [El ''button'' [click (StSaveClick ChatTexts)] [say ''Kaydet'']]),
      El ''div'' []
        [FieldRow (js ''Kar'' @ [0x15F, 0x131] @ js ''lama Ba'' @ [0x15F] @ js ''l'' @ [0x131, 0x11F, 0x131]) (js ''Sohbet ba'' @ [0x15F] @ js ''lamadan '' @ [0xF6] @ js ''nce orta ekranda g'' @ [0xF6] @ js ''r'' @ [0xFC] @ js ''n'' @ [0xFC] @ js ''r'') [setting_input 128 ''chat_welcome_title'' f],
         FieldRow (js ''Kar'' @ [0x15F, 0x131] @ js ''lama Alt Metni'') (js ''Ba'' @ [0x15F] @ js ''l'' @ [0x131, 0x11F, 0x131] @ js ''n alt'' @ [0x131] @ js ''ndaki y'' @ [0xF6] @ js ''nlendirme metni'') [setting_input 256 ''chat_welcome_subtitle'' f],
         FieldRow (js ''Mesaj Kutusu Placeholder'') (js ''Input alan'' @ [0x131] @ js ''nda g'' @ [0xF6] @ js ''r'' @ [0xFC] @ js ''nen ipucu metni'') [setting_input 256 ''chat_placeholder'' f],
         FieldRow (js ''G'' @ [0xF6] @ js ''nder Butonu Etiketi'') (js ''Max 32 karakter'')
           [El ''div'' [] [setting_input 32 ''chat_send_label'' f,
              El ''button'' [] [Txt (or_text (setting (js ''chat_send_label'') f) (js ''G'' @ [0xF6] @ js ''nder''))]]]],
      chat_preview f])"

definition theme_card :: "jstr \<Rightarrow> jstr \<times> jstr \<times> jstr \<times> jstr \<Rightarrow> st_event html" where
  "theme_card active t = (case t of (i, name, desc, swatch) \<Rightarrow>
     El ''button'' [At ''key'' i, click (StTheme i),
       At ''class'' (if active = i then (js ''border-slate-800 dark:border-slate-200 shadow-md'')
         else (js ''border-slate-200 dark:border-slate-600 hover:border-slate-400 dark:hover:border-slate-400''))]
     ([El ''div'' [At ''background-color'' swatch] [],
       El ''div'' [] [El ''div'' [At ''background-color'' swatch] [], El ''div'' [] [], El ''div'' [At ''background-color'' swatch] []],
       El ''p'' [] [Txt name],
       El ''p'' [] [Txt desc]]
      @ shown_if (active = i) [El ''span'' [] [Txt ([0x2713] @ js '' Aktif'')]]))"

definition theme_section :: "('w, 'm) settings_page_scheme \<Rightarrow> st_event html" where
  "theme_section s = El ''section'' []
     [section_head (js ''Renk Temas'' @ [0x131]) (js ''T'' @ [0xFC] @ js ''m kullan'' @ [0x131] @ js ''c'' @ [0x131] @ js ''lara uygulanan marka rengi.'') (save_bar_el (st_status s ThemeChoice)),
      El ''div'' [] (map (theme_card (setting CHAT_THEME (st_form s))) THEMES)]"

definition settings_view :: "jsfile option \<Rightarrow> ('w, 'm) settings_page_scheme \<Rightarrow> st_event html list" where
  "settings_view chosen s =
     [El ''h1'' [] [say ''Ayarlar''],
      El ''p'' [] [Txt (js ''Uygulama g'' @ [0xF6] @ js ''r'' @ [0xFC] @ js ''n'' @ [0xFC] @ js ''m'' @ [0xFC] @ js '' ve metinleri. Kullan'' @ [0x131] @ js ''c'' @ [0x131] @ js ''lar bu sayfay'' @ [0x131] @ js '' g'' @ [0xF6] @ js ''remez.'')],
      dark_card (st_dark s), branding_section chosen s, chat_section s, theme_section s]"

section \<open>The providers\<close>

datatype providers_event =
    PvSet form_key jstr
  | PvCreate
  | PvRemove json
  | PvConnect json

fun providers_do :: "'w env \<Rightarrow> bool \<Rightarrow> providers_event \<Rightarrow> ('w, 'm prov_page_ext, unit) net_eff" where
  "providers_do E confirmed (PvSet k v) = modE (\<lambda>s. s\<lparr>pp_form := set_field k v (pp_form s)\<rparr>)"
| "providers_do E confirmed PvCreate = create_provider E"
| "providers_do E confirmed (PvRemove p) = remove_provider E confirmed (str_field (js ''id'') p)"
| "providers_do E confirmed (PvConnect p) = connect_provider E (str_field (js ''id'') p)"

definition Field :: "jstr \<Rightarrow> 'e html \<Rightarrow> 'e html" where
  "Field label control = labelled [Txt label] control"

definition main_fields :: "provider_form \<Rightarrow> providers_event html" where
  "main_fields f = El ''div'' []
     [Field (js ''Type'') (select_el (pf_type f) (PvSet KType) (map (\<lambda>p. El ''option'' [At ''key'' (fst p), At ''value'' (fst p)] [Txt (fst p)]) PRESETS)),
      Field (js ''Name'') (input_el [Flag ''required'' True] (pf_name f) (PvSet KName)),
      Field (js ''Default model'') (input_el [Flag ''required'' True] (pf_default f) (PvSet KDefault)),
      Field (js ''Auth mode'') (select_el (pf_auth_mode f) (PvSet KAuthMode)
        [option_el ''api_key'' (js ''Shared API key''), option_el ''oauth2'' (js ''Per-user OAuth2'')])]"

definition key_fields :: "provider_form \<Rightarrow> providers_event html" where
  "key_fields f = (if pf_auth_mode f = js ''api_key''
     then Field (js ''API key'') (input_el [At ''type'' (js ''password''), Flag ''required'' True] (pf_api_key f) (PvSet KApiKey))
     else El ''div'' []
       [Field (js ''OAuth client ID'') (input_el [] (pf_client_id f) (PvSet KClientId)),
        Field (js ''OAuth client secret'') (input_el [At ''type'' (js ''password'')] (pf_client_secret f) (PvSet KClientSecret)),
        Field (js ''Authorize URL'') (input_el [] (pf_auth_url f) (PvSet KAuthUrl)),
        Field (js ''Token URL'') (input_el [] (pf_token_url f) (PvSet KTokenUrl)),
        Field (js ''Scopes'') (input_el [] (pf_scopes f) (PvSet KScopes))])"

definition routing_fields :: "provider_form \<Rightarrow> providers_event html" where
  "routing_fields f = El ''details'' []
     [El ''summary'' [] [say ''Smart routing (optional)''],
      El ''p'' [] [Txt (js ''When both models are set, short prompts use the light model and longer prompts ('' @ [0x2265] @ js '' threshold tokens) use the heavy one.'')],
      El ''div'' []
        [Field (js ''Light model'') (input_el [At ''placeholder'' (js ''e.g. gpt-4o-mini'')] (pf_light f) (PvSet KLight)),
         Field (js ''Heavy model'') (input_el [At ''placeholder'' (js ''e.g. gpt-4o'')] (pf_heavy f) (PvSet KHeavy)),
         Field (js ''Threshold (tokens)'') (input_el [At ''type'' (js ''number''), At ''placeholder'' (js ''2000'')] (pf_threshold f) (PvSet KThreshold))]]"

definition provider_form_el :: "provider_form \<Rightarrow> providers_event html" where
  "provider_form_el f = El ''form'' [On ''submit'' (\<lambda>_. PvCreate)]
     [main_fields f, key_fields f,
      Field (js ''Base URL (optional)'') (input_el [] (pf_base_url f) (PvSet KBaseUrl)),
      routing_fields f,
      El ''button'' [At ''type'' (js ''submit'')] [say ''Add provider'']]"

definition provider_el :: "json \<Rightarrow> providers_event html" where
  "provider_el p = (let r = provider_row_of p in El ''div'' [At ''key'' (str_field (js ''id'') p)]
     [El ''div'' []
        [El ''p'' [] ([Txt (row_name r), say '' '', El ''span'' [] [say ''('', Txt (str_field (js ''type'') p), Txt (js '' '' @ [0xB7] @ js '' ''), Txt (str_field (js ''default_model'') p),
             Txt (js '' '' @ [0xB7] @ js '' ''), Txt (str_field (js ''auth_mode'') p), say '')'']]
           @ shown_if (row_routing r) [El ''span'' [] [say ''smart routing'']]),
         El ''p'' [] [Txt (row_state r), Txt (if row_off r then (js '' '' @ [0xB7] @ js '' disabled'') else [])]],
      El ''div'' []
        (shown_if (row_connect r) [El ''button'' [click (PvConnect p)] [say ''Connect'']]
         @ [El ''button'' [click (PvRemove p)] [say ''Delete'']])])"

definition providers_view :: "('w, 'm) prov_page_scheme \<Rightarrow> providers_event html list" where
  "providers_view s = [El ''h1'' [] [say ''LLM Providers''], provider_form_el (pp_form s)] @ error_el (pp_error s)
     @ [El ''div'' [] (map provider_el (pp_providers s))]"

section \<open>The login\<close>

datatype login_event =
    LnEmail jstr
  | LnPassword jstr
  | LnSubmit

fun login_do :: "'w env \<Rightarrow> login_event \<Rightarrow> ('w, 'm login_page_ext, unit) net_eff" where
  "login_do E (LnEmail v) = modE (\<lambda>s. s\<lparr>lp_email := v\<rparr>)"
| "login_do E (LnPassword v) = modE (\<lambda>s. s\<lparr>lp_password := v\<rparr>)"
| "login_do E LnSubmit = login_submit E"

definition login_view :: "settings \<Rightarrow> ('w, 'm) login_page_scheme \<Rightarrow> login_event html list" where
  "login_view st s =
     [El ''div'' []
        [El ''div'' [] [if setting LOGO_URL st \<noteq> []
           then El ''img'' [At ''src'' (setting LOGO_URL st), At ''alt'' (setting (js ''app_name'') st)] []
           else Txt (setting (js ''app_logo'') st)],
         El ''h1'' [] [Txt (setting (js ''app_name'') st)],
         El ''p'' [] [Txt (setting (js ''app_tagline'') st)]],
      El ''form'' [On ''submit'' (\<lambda>_. LnSubmit)]
        ([labelled [say ''E-posta''] (input_el [At ''type'' (js ''text''), Flag ''autofocus'' True, Flag ''required'' True] (lp_email s) LnEmail),
          labelled [Txt ([0x15E] @ js ''ifre'')] (input_el [At ''type'' (js ''password''), Flag ''required'' True] (lp_password s) LnPassword)]
         @ error_el (lp_error s)
         @ [El ''button'' [At ''type'' (js ''submit''), Flag ''disabled'' (lp_loading s)]
              [Txt (if lp_loading s then (js ''Giri'' @ [0x15F] @ js '' yap'' @ [0x131] @ js ''l'' @ [0x131] @ js ''yor'' @ [0x2026]) else (js ''Giri'' @ [0x15F] @ js '' Yap''))]])]"

section \<open>The change of the password\<close>

datatype pw_event =
    PwCurrent jstr
  | PwNext jstr
  | PwConfirm jstr
  | PwSubmit

fun pw_do :: "'w env \<Rightarrow> pw_event \<Rightarrow> ('w, 'm pw_page_ext, unit) net_eff" where
  "pw_do E (PwCurrent v) = modE (\<lambda>s. s\<lparr>pw_current := v\<rparr>)"
| "pw_do E (PwNext v) = modE (\<lambda>s. s\<lparr>pw_next := v\<rparr>)"
| "pw_do E (PwConfirm v) = modE (\<lambda>s. s\<lparr>pw_confirm := v\<rparr>)"
| "pw_do E PwSubmit = pw_submit E"

definition password_el :: "jstr \<Rightarrow> jstr \<Rightarrow> (jstr \<Rightarrow> pw_event) \<Rightarrow> pw_event html" where
  "password_el label v h = labelled [Txt label] (input_el [At ''type'' (js ''password''), Flag ''required'' True] v h)"

definition pw_view :: "('w, 'm) pw_page_scheme \<Rightarrow> pw_event html list" where
  "pw_view s =
     [El ''h1'' [] [say ''Change your password''],
      El ''p'' [] [say ''Set a new password to continue.''],
      El ''form'' [On ''submit'' (\<lambda>_. PwSubmit)]
        ([password_el (js ''Current password'') (pw_current s) PwCurrent,
          password_el (js ''New password'') (pw_next s) PwNext,
          password_el (js ''Confirm new password'') (pw_confirm s) PwConfirm]
         @ error_el (pw_error s)
         @ [El ''button'' [At ''type'' (js ''submit''), Flag ''disabled'' (pw_saving s)]
              [Txt (if pw_saving s then (js ''Saving'' @ [0x2026]) else (js ''Change password''))]])]"

section \<open>Which controls a user has\<close>

lemma field_rows [can_simps]:
  "does (FieldRow l h kids) e \<longleftrightarrow> can_do kids e"
  "does (Field l c) e \<longleftrightarrow> does c e"
  "does (section_head t h kids) e \<longleftrightarrow> can_do kids e"
  "can_do (save_bar_el st) e \<longleftrightarrow> False"
  by (auto simp: FieldRow_def Field_def section_head_def save_bar_el_def can_simps split: option.split)

lemma setting_input_does [can_simps]: "does (setting_input n k f) e \<longleftrightarrow> (\<exists>v. e = StField (js k) v)"
  by (auto simp: setting_input_def fires_def can_simps simp del: js_Cons)

lemma theme_card_does [can_simps]: "does (theme_card a t) e \<longleftrightarrow> e = StTheme (fst t)"
  by (cases t) (auto simp: theme_card_def can_simps simp del: js_Cons)

lemma settings_offers:
  "(can_do (settings_view chosen s) (StField k v) \<longleftrightarrow> k \<in> set (section_keys Branding @ section_keys ChatTexts))
   \<and> (can_do (settings_view chosen s) (StSaveClick c) \<longleftrightarrow> c \<noteq> ThemeChoice)
   \<and> (can_do (settings_view chosen s) (StTheme t) \<longleftrightarrow> t \<in> fst ` set THEMES)
   \<and> (can_do (settings_view chosen s) (StFile f) \<longleftrightarrow> chosen = Some f \<and> st_logo s \<noteq> LogoUploading)
   \<and> (can_do (settings_view chosen s) StClear \<longleftrightarrow> truthy (map_of (st_form s) LOGO_URL))
   \<and> can_do (settings_view chosen s) StDark"
proof -
  have keys: "k \<in> set (section_keys Branding @ section_keys ChatTexts) \<longleftrightarrow>
      k = js ''app_name'' \<or> k = js ''app_logo'' \<or> k = js ''app_tagline'' \<or> k = js ''chat_welcome_title''
      \<or> k = js ''chat_welcome_subtitle'' \<or> k = js ''chat_placeholder'' \<or> k = js ''chat_send_label''"
    by (simp del: js_Cons)
  note views = settings_view_def dark_card_def branding_section_def logo_row_def login_preview_def chat_section_def
    chat_preview_def theme_section_def
  show ?thesis unfolding keys
    by (cases c; cases chosen) (auto simp: views can_simps Let_def simp del: js_Cons)
qed

lemma settings_unoffered:
  "\<not> can_do (settings_view chosen s) e \<Longrightarrow> e \<noteq> StMount \<Longrightarrow> (\<forall>i. e \<noteq> StRun i) \<Longrightarrow> (\<forall>f. e \<noteq> StFile f) \<Longrightarrow> st_step E e s = s"
  by (cases e) (auto simp: settings_offers simp del: section_keys.simps)

text \<open>
  A provider can be added exactly if it has a name, a model and, with a shared key, the key; of an OAuth
  provider nothing more is required.
\<close>

lemma holds_back_preset: "\<not> list_ex holds_back (map (\<lambda>p. El ''option'' [At ''key'' (fst p), At ''value'' (fst p)] [Txt (fst p)]) ps)"
  by (induction ps) auto

lemma providers_offers:
  "(can_do (providers_view s) PvCreate \<longleftrightarrow> pf_name (pp_form s) \<noteq> [] \<and> pf_default (pp_form s) \<noteq> []
      \<and> (pf_auth_mode (pp_form s) = js ''api_key'' \<longrightarrow> pf_api_key (pp_form s) \<noteq> []))
   \<and> (can_do (providers_view s) (PvRemove p) \<longleftrightarrow> p \<in> set (pp_providers s))
   \<and> (can_do (providers_view s) (PvConnect p) \<longleftrightarrow> p \<in> set (pp_providers s) \<and> row_connect (provider_row_of p))"
  by (auto simp: providers_view_def provider_form_el_def main_fields_def key_fields_def routing_fields_def provider_el_def
      Field_def holds_back_preset shape_defs fires_def can_simps Let_def simp del: js_Cons)

lemma login_offers:
  "can_do (login_view st s) LnSubmit \<longleftrightarrow> lp_email s \<noteq> [] \<and> lp_password s \<noteq> [] \<and> \<not> lp_loading s"
  by (auto simp: login_view_def fires_def can_simps shape_defs shown_if_def simp del: js_Cons)

lemma pw_offers:
  "can_do (pw_view s) PwSubmit \<longleftrightarrow> pw_current s \<noteq> [] \<and> pw_next s \<noteq> [] \<and> pw_confirm s \<noteq> [] \<and> \<not> pw_saving s"
  by (auto simp: pw_view_def password_el_def fires_def can_simps shape_defs shown_if_def simp del: js_Cons)

end
