(* ===== verification/Page_Controls.thy ===== *)
theory Page_Controls
  imports Admin_Views Tool_Views Library_Views Insight_Views Form_Views
begin

text \<open>
  The machines of the pages guard their events, where in the code the handlers guard little and the
  markup decides what can be pressed. Here a page is built from those two parts, the handlers without any
  guard and the elements that the page returns for its state, and shown to be the machine: what is proved
  of the machines is proved of the handlers behind the controls that are on the screen and enabled.
\<close>

section \<open>Pages driven by their elements\<close>

text \<open>An event happens if it is the page's own (a mounting, an answer, a choice in a dialog of the browser)
  or has an enabled control; then its handler runs.\<close>

definition user_step :: "('s \<Rightarrow> 'e html list) \<Rightarrow> ('e \<Rightarrow> 's \<Rightarrow> 's) \<Rightarrow> ('e \<Rightarrow> bool) \<Rightarrow> 'e \<Rightarrow> 's \<Rightarrow> 's" where
  "user_step view handle own e s = (if own e \<or> can_do (view s) e then handle e s else s)"

locale guarded_page =
  fixes step :: "'e \<Rightarrow> 's \<Rightarrow> 's" and view :: "'s \<Rightarrow> 'e html list" and handle :: "'e \<Rightarrow> 's \<Rightarrow> 's" and own :: "'e \<Rightarrow> bool"
  assumes acts: "own e \<or> can_do (view s) e \<Longrightarrow> step e s = handle e s"
    and idle: "\<not> own e \<Longrightarrow> \<not> can_do (view s) e \<Longrightarrow> step e s = s"
begin

lemma is_page: "step = user_step view handle own"
  by (intro ext) (simp add: user_step_def acts idle)

text \<open>So an invariant of the machine is one of the page.\<close>

lemma reached_by_user: "reaches (user_step view handle own) start s \<longleftrightarrow> reaches step start s"
  by (simp add: is_page)

end

section \<open>The handlers\<close>

text \<open>
  The handlers as the code has them, for the events whose guard is in the markup; the others are as in the
  machine, which guards them only where the handler itself does. A choice of a select is one of its options,
  and a checkbox changes when it is clicked.
\<close>

definition gh_handle :: "'w env \<Rightarrow> gh_event \<Rightarrow> ('w, 'm) github_page_scheme \<Rightarrow> ('w, 'm) github_page_scheme" where
  "gh_handle E e s = (case e of
       GhOpenRepo r \<Rightarrow> openRepo E r [] s
     | GhOpenEntry x \<Rightarrow> openEntry E x s
     | GhParent \<Rightarrow> parentPath E s
     | _ \<Rightarrow> gh_step E e s)"

definition sl_handle :: "'w env \<Rightarrow> sl_event \<Rightarrow> ('w, 'm) slack_page_scheme \<Rightarrow> ('w, 'm) slack_page_scheme" where
  "sl_handle E e s = (case e of
       SlOpen c \<Rightarrow> openChannel c s
     | SlUnfollowClick c \<Rightarrow>
         sl_spawn (SlUnfollow (channel_id c) (sl_show_all s) (map_option channel_id (sl_active s) = Some (channel_id c))) s
     | SlShowAll \<Rightarrow> loadAll SlAll s
     | SlFollowClick c \<Rightarrow> sl_spawn (SlFollow (channel_id c) (str_field (js ''name'') c)) s
     | SlType t \<Rightarrow> s\<lparr>sl_input := t\<rparr>
     | _ \<Rightarrow> sl_step E e s)"

definition sn_handle :: "'w env \<Rightarrow> sn_event \<Rightarrow> ('w, 'm) sentry_page_scheme \<Rightarrow> ('w, 'm) sentry_page_scheme" where
  "sn_handle E e s = (case e of
       SnOpen p \<Rightarrow> openProject (str_field (js ''slug'') p) s
     | SnAnalyze \<Rightarrow> sentry_explain (sn_link s) s
     | SnIssue i \<Rightarrow> sentry_explain (issue_key i) (s\<lparr>sn_link := issue_key i\<rparr>)
     | _ \<Rightarrow> sn_step E e s)"

definition ft_handle :: "'w env \<Rightarrow> ft_event \<Rightarrow> ('w, 'm) tune_page_scheme \<Rightarrow> ('w, 'm) tune_page_scheme" where
  "ft_handle E e s = (case e of FtCreateClick \<Rightarrow> create_job s | _ \<Rightarrow> ft_step E e s)"

definition kn_handle :: "'w env \<Rightarrow> kn_event \<Rightarrow> ('w, 'm) know_page_scheme \<Rightarrow> ('w, 'm) know_page_scheme" where
  "kn_handle E e s = (case e of
       KnIndexClick d \<Rightarrow> indexDoc d s
     | KnToggle d \<Rightarrow> s\<lparr>kn_selected := toggle_doc (str_field (js ''id'') d) (kn_selected s)\<rparr>
     | KnAskClick \<Rightarrow> ask s
     | _ \<Rightarrow> kn_step E e s)"

text \<open>The second button of the form has one of two handlers, which the machine names by the guide.\<close>

definition mk_handle :: "'w env \<Rightarrow> mk_event \<Rightarrow> ('w, 'm) market_page_scheme \<Rightarrow> ('w, 'm) market_page_scheme" where
  "mk_handle E e s = (case e of
       MkPress app b c \<Rightarrow> press b app c s
     | MkClose \<Rightarrow> closeConfig s
     | MkNext \<Rightarrow> s\<lparr>mk_step := FormStep\<rparr>
     | MkType k t \<Rightarrow> s\<lparr>mk_form := obj_put k (JStr t) (mk_form s)\<rparr>
     | MkSave \<Rightarrow> (case mk_configuring s of None \<Rightarrow> s | Some app \<Rightarrow> mk_spawn (MkInstall (slug_of app) (mk_form s)) s)
     | _ \<Rightarrow> market_step E e s)"

definition al_handle :: "'w env \<Rightarrow> al_event \<Rightarrow> ('w, 'm) alerts_page_scheme \<Rightarrow> ('w, 'm) alerts_page_scheme" where
  "al_handle E e s = (case e of
       AlResolve a \<Rightarrow> al_spawn (AlPost (str_field (js ''id'') a) (al_only_open s)) s
     | AlToggle a \<Rightarrow> s\<lparr>al_expanded := toggleExpand (str_field (js ''id'') a) (al_expanded s)\<rparr>
     | _ \<Rightarrow> al_step E e s)"

definition cv_handle :: "'w env \<Rightarrow> cv_event \<Rightarrow> ('w, 'm) convs_page_scheme \<Rightarrow> ('w, 'm) convs_page_scheme" where
  "cv_handle E e s = (case e of CvOpen c \<Rightarrow> open_conv (str_field (js ''id'') c) s | _ \<Rightarrow> cv_step E e s)"

definition st_handle :: "'w env \<Rightarrow> st_event \<Rightarrow> ('w, 'm) settings_page_scheme \<Rightarrow> ('w, 'm) settings_page_scheme" where
  "st_handle E e s = (case e of
       StField k v \<Rightarrow> s\<lparr>st_form := set_setting k (JStr v) (st_form s)\<rparr>
     | StSaveClick c \<Rightarrow> start_save c [] s
     | StTheme t \<Rightarrow> start_save ThemeChoice [(CHAT_THEME, t)] (s\<lparr>st_form := set_setting CHAT_THEME (JStr t) (st_form s)\<rparr>)
     | StClear \<Rightarrow> st_spawn StClearLogo s
     | _ \<Rightarrow> st_step E e s)"

lemmas handle_defs = gh_handle_def sl_handle_def sn_handle_def ft_handle_def kn_handle_def mk_handle_def al_handle_def
  cv_handle_def st_handle_def

section \<open>The pages\<close>

text \<open>
  The events that need no control of the page. The choice of a file comes from a dialog that may be
  open since before the button was disabled; closing an explanation that is \<open>null\<close> only makes it the
  other value that shows nothing.
\<close>

definition gh_own :: "gh_event \<Rightarrow> bool" where
  "gh_own e = (case e of GhMount \<Rightarrow> True | GhRun i \<Rightarrow> True | _ \<Rightarrow> False)"

definition sl_own :: "sl_event \<Rightarrow> bool" where
  "sl_own e = (case e of SlMount \<Rightarrow> True | SlRun i \<Rightarrow> True | _ \<Rightarrow> False)"

definition sn_own :: "sn_event \<Rightarrow> bool" where
  "sn_own e = (case e of SnMount \<Rightarrow> True | SnRun i \<Rightarrow> True | SnClose \<Rightarrow> True | _ \<Rightarrow> False)"

definition ft_own :: "ft_event \<Rightarrow> bool" where
  "ft_own e = (case e of FtMount \<Rightarrow> True | FtRun i \<Rightarrow> True | _ \<Rightarrow> False)"

definition kn_own :: "kn_event \<Rightarrow> bool" where
  "kn_own e = (case e of KnMount \<Rightarrow> True | KnRun i \<Rightarrow> True | _ \<Rightarrow> False)"

definition mk_own :: "mk_event \<Rightarrow> bool" where
  "mk_own e = (case e of MkMount \<Rightarrow> True | MkRun i \<Rightarrow> True | _ \<Rightarrow> False)"

definition al_own :: "al_event \<Rightarrow> bool" where
  "al_own e = (case e of AlMount \<Rightarrow> True | AlRun i \<Rightarrow> True | _ \<Rightarrow> False)"

definition cv_own :: "cv_event \<Rightarrow> bool" where
  "cv_own e = (case e of CvMount q \<Rightarrow> True | CvRun i \<Rightarrow> True | _ \<Rightarrow> False)"

definition st_own :: "st_event \<Rightarrow> bool" where
  "st_own e = (case e of StMount \<Rightarrow> True | StRun i \<Rightarrow> True | StFile f \<Rightarrow> True | _ \<Rightarrow> False)"

lemmas own_defs = gh_own_def sl_own_def sn_own_def ft_own_def kn_own_def mk_own_def al_own_def cv_own_def st_own_def

lemma github_acts: "gh_own e \<or> can_do (github_view s) e \<Longrightarrow> gh_step E e s = gh_handle E e s"
  using github_offers [of s] by (cases e) (auto simp: own_defs handle_defs)

interpretation gh: guarded_page "gh_step E" github_view "gh_handle E" gh_own for E
  by unfold_locales (rule github_acts, assumption, (rule github_unoffered; auto simp: own_defs))

lemma slack_acts: "sl_own e \<or> can_do (slack_view E s) e \<Longrightarrow> sl_step E e s = sl_handle E e s"
  using slack_offers [of E s] by (cases e) (auto simp: own_defs handle_defs)

interpretation sl: guarded_page "sl_step E" "slack_view E" "sl_handle E" sl_own for E
  by unfold_locales (rule slack_acts, assumption, (rule slack_unoffered; auto simp: own_defs))

lemma sentry_acts: "sn_own e \<or> can_do (sentry_view s) e \<Longrightarrow> sn_step E e s = sn_handle E e s"
  using sentry_offers [of s] by (cases e) (auto simp: own_defs handle_defs)

interpretation sn: guarded_page "sn_step E" sentry_view "sn_handle E" sn_own for E
  by unfold_locales (rule sentry_acts, assumption, (rule sentry_unoffered; auto simp: own_defs))

lemma tune_acts: "ft_own e \<or> can_do (tune_view s) e \<Longrightarrow> ft_step E e s = ft_handle E e s"
  using tune_offers [of s] by (cases e) (auto simp: own_defs handle_defs)

interpretation ft: guarded_page "ft_step E" tune_view "ft_handle E" ft_own for E
  by unfold_locales (rule tune_acts, assumption, (rule tune_unoffered; auto simp: own_defs))

lemma knowledge_acts: "kn_own e \<or> can_do (knowledge_view s) e \<Longrightarrow> kn_step E e s = kn_handle E e s"
  using knowledge_offers [of s] by (cases e) (auto simp: own_defs handle_defs)

interpretation kn: guarded_page "kn_step E" knowledge_view "kn_handle E" kn_own for E
  by unfold_locales (rule knowledge_acts, assumption, (rule knowledge_unoffered; auto simp: own_defs))

text \<open>On the marketplace with both answers to the question of the browser.\<close>

definition market_controls :: "'w env \<Rightarrow> ('w, 'm) market_page_scheme \<Rightarrow> mk_event html list" where
  "market_controls E s = market_view E True s @ market_view E False s"

lemma market_idle: "\<not> can_do (market_controls E s) e \<Longrightarrow> \<not> mk_own e \<Longrightarrow> market_step E e s = s"
proof (cases "\<exists>app b. e = MkPress app b True")
  case True
  assume "\<not> can_do (market_controls E s) e" "\<not> mk_own e"
  then show ?thesis using True
    by (intro market_unoffered [of E True]) (auto simp: market_controls_def can_simps own_defs)
next
  case False
  assume "\<not> can_do (market_controls E s) e" "\<not> mk_own e"
  then show ?thesis using False
    by (intro market_unoffered [of E False]) (auto simp: market_controls_def can_simps own_defs)
qed

lemma market_acts: "mk_own e \<or> can_do (market_controls E s) e \<Longrightarrow> market_step E e s = mk_handle E e s"
proof -
  assume "mk_own e \<or> can_do (market_controls E s) e"
  then consider "mk_own e" | app b c where "app \<in> set (mk_apps s)" "b \<in> set (market_buttons (is_admin E s) app)" "e = MkPress app b c"
    | "can_do (config_el (config_view s)) e"
    by (auto simp: market_controls_def can_simps market_offers)
  then show ?thesis
  proof cases
    case 3
    then show ?thesis unfolding config_does
      by (auto simp: handle_defs config_view_def split: option.splits if_splits)
  qed (auto simp: own_defs handle_defs split: mk_event.splits)
qed

interpretation mk: guarded_page "market_step E" "market_controls E" "mk_handle E" mk_own for E
  by unfold_locales (rule market_acts, assumption, rule market_idle)

lemma alerts_acts: "al_own e \<or> can_do (alerts_view P s) e \<Longrightarrow> al_step E e s = al_handle E e s"
  using alerts_offers [of P s] by (cases e) (auto simp: own_defs handle_defs)

interpretation al: guarded_page "al_step E" "alerts_view P" "al_handle E" al_own for E P
  by unfold_locales (rule alerts_acts, assumption, (rule alerts_unoffered; auto simp: own_defs))

lemma conversations_acts: "cv_own e \<or> can_do (conversations_view E P s) e \<Longrightarrow> cv_step E e s = cv_handle E e s"
  using conversations_offers [of E P s] by (cases e) (auto simp: own_defs handle_defs)

interpretation cv: guarded_page "cv_step E" "conversations_view E P" "cv_handle E" cv_own for E P
  by unfold_locales (rule conversations_acts, assumption, (rule conversations_unoffered; auto simp: own_defs))

lemma settings_acts: "st_own e \<or> can_do (settings_view chosen s) e \<Longrightarrow> st_step E e s = st_handle E e s"
  using settings_offers [of chosen s] by (cases e) (auto simp: own_defs handle_defs simp del: section_keys.simps)

interpretation st: guarded_page "st_step E" "settings_view chosen" "st_handle E" st_own for E chosen
  by unfold_locales (rule settings_acts, assumption, (rule settings_unoffered; auto simp: own_defs))


end
