(* ===== verification/Panel_Types.thy ===== *)
theory Panel_Types
  imports Page_Kit
begin

text \<open>
  The TypeScript interfaces of the server's answers as data: those of \<open>panel/lib/types.ts\<close>, the
  settings of \<open>panel/lib/settings-context.tsx\<close> and the ones that pages declare for themselves. The
  types are erased when the panel is built, so nothing checks an answer against them; \<open>has_type\<close> says
  when a JSON value is one that the declared type allows.
\<close>

section \<open>Types\<close>

datatype ty =
    TStr
  | TNum
  | TBool
  | TNull
  | TList ty
  | TMap ty \<comment> \<open>\<open>Record<string, T>\<close>\<close>
  | TOr ty ty
  | TObj "(jstr \<times> bool \<times> ty) list" \<comment> \<open>name, optional, type\<close>

text \<open>Structural: an object may have more members than its type names.\<close>

function has_type :: "ty \<Rightarrow> json \<Rightarrow> bool" where
  "has_type TStr j = (case j of JStr t \<Rightarrow> True | _ \<Rightarrow> False)"
| "has_type TNum j = (case j of JInt i \<Rightarrow> True | JNum t \<Rightarrow> True | _ \<Rightarrow> False)"
| "has_type TBool j = (case j of JBool b \<Rightarrow> True | _ \<Rightarrow> False)"
| "has_type TNull j = (j = JNull)"
| "has_type (TList t) j = (case j of JArr vs \<Rightarrow> list_all (has_type t) vs | _ \<Rightarrow> False)"
| "has_type (TMap t) j = (case j of JObj ps \<Rightarrow> list_all (\<lambda>p. has_type t (snd p)) ps | _ \<Rightarrow> False)"
| "has_type (TOr t u) j = (has_type t j \<or> has_type u j)"
| "has_type (TObj fs) j = (case j of
       JObj ps \<Rightarrow> list_all (\<lambda>f. case map_of ps (fst f) of None \<Rightarrow> fst (snd f) | Some v \<Rightarrow> has_type (snd (snd f)) v) fs
     | _ \<Rightarrow> False)"
  by pat_completeness auto
termination
  by (relation "measure (\<lambda>(t, j). size t)") (auto simp: less_Suc_eq_le elim!: size_list_estimation')

definition req :: "string \<Rightarrow> ty \<Rightarrow> jstr \<times> bool \<times> ty" where
  "req k t = (js k, False, t)"

definition opt :: "string \<Rightarrow> ty \<Rightarrow> jstr \<times> bool \<times> ty" where
  "opt k t = (js k, True, t)"

definition nullable :: "ty \<Rightarrow> ty" where
  "nullable t = TOr t TNull"

fun members :: "ty \<Rightarrow> (jstr \<times> bool \<times> ty) list" where
  "members (TObj fs) = fs"
| "members t = []"

section \<open>The shared interfaces\<close>

definition User :: ty where
  "User = TObj
     [req ''id'' TStr, req ''email'' TStr, req ''role'' TStr, req ''is_active'' TBool,
      opt ''must_change_password'' TBool, opt ''rate_limit_rpm'' (nullable TNum),
      opt ''daily_token_quota'' (nullable TNum)]"

definition UserCreateResult :: ty where
  "UserCreateResult = TObj (members User @
     [req ''generated_password'' (nullable TStr)])"

definition Provider :: ty where
  "Provider = TObj
     [req ''id'' TStr, req ''name'' TStr, req ''type'' TStr, req ''auth_mode'' TStr,
      req ''has_api_key'' TBool, req ''base_url'' (nullable TStr), req ''default_model'' TStr,
      req ''is_active'' TBool, req ''light_model'' (nullable TStr),
      req ''heavy_model'' (nullable TStr), req ''route_threshold_tokens'' TNum,
      req ''connected'' TBool, req ''own_key'' TBool]"

definition OwnKey :: ty where
  "OwnKey = TObj
     [req ''provider_type'' TStr, req ''label'' TStr, req ''created_at'' TStr]"

definition Team :: ty where
  "Team = TObj
     [req ''id'' TStr, req ''name'' TStr, req ''description'' TStr,
      req ''rate_limit_rpm'' (nullable TNum), req ''daily_token_quota'' (nullable TNum),
      req ''member_count'' TNum, req ''provider_ids'' (TList TStr), req ''created_at'' TStr]"

definition TeamMember :: ty where
  "TeamMember = TObj
     [req ''user_id'' TStr, req ''email'' TStr, req ''role_in_team'' TStr]"

definition ConfigField :: ty where
  "ConfigField = TObj
     [req ''key'' TStr, req ''label'' TStr, req ''secret'' TBool, opt ''placeholder'' TStr,
      opt ''optional'' TBool]"

definition SetupGuide :: ty where
  "SetupGuide = TObj
     [opt ''subtitle'' TStr, req ''console_url'' TStr, req ''console_label'' TStr,
      req ''steps'' (TList TStr)]"

definition MarketplaceApp :: ty where
  "MarketplaceApp = TObj
     [req ''slug'' TStr, req ''name'' TStr, req ''category'' TStr, req ''icon'' TStr,
      req ''description'' TStr, req ''config_fields'' (TList ConfigField),
      opt ''guide'' (nullable SetupGuide), req ''needs_config'' TBool, req ''installed'' TBool,
      req ''enabled'' TBool]"

definition Document :: ty where
  "Document = TObj
     [req ''id'' TStr, req ''filename'' TStr, req ''mime_type'' TStr, req ''size_bytes'' TNum,
      req ''sha256'' TStr, req ''indexed'' TBool, req ''team_id'' (nullable TStr),
      req ''created_at'' TStr]"

definition Conversation :: ty where
  "Conversation = TObj
     [req ''id'' TStr, req ''provider_id'' (nullable TStr), req ''model'' TStr, req ''title'' TStr]"

definition Attachment :: ty where
  "Attachment = TObj
     [req ''url'' TStr, req ''filename'' TStr, req ''content_type'' TStr, req ''size'' TNum,
      opt ''text_content'' TStr]"

definition Message :: ty where
  "Message = TObj
     [req ''id'' TStr, req ''role'' TStr, req ''content'' TStr, req ''tokens'' TNum,
      opt ''attachments'' (TList Attachment)]"

definition PolicyRule :: ty where
  "PolicyRule = TObj
     [req ''id'' TStr, req ''name'' TStr, req ''category'' TStr, req ''kind'' TStr,
      req ''pattern'' TStr, req ''action'' TStr, req ''severity'' TStr, req ''enabled'' TBool]"

definition Builtin :: ty where
  "Builtin = TObj
     [req ''name'' TStr, req ''category'' TStr, req ''action'' TStr, req ''severity'' TStr]"

definition Alert :: ty where
  "Alert = TObj
     [req ''id'' TStr, req ''user_id'' (nullable TStr), req ''conversation_id'' (nullable TStr),
      req ''rule_name'' TStr, req ''category'' TStr, req ''action'' TStr, req ''severity'' TStr,
      req ''snippet'' TStr, req ''resolved'' TBool, req ''created_at'' TStr]"

definition AuditRow :: ty where
  "AuditRow = TObj
     [req ''id'' TStr, req ''user_id'' (nullable TStr), req ''provider_id'' (nullable TStr),
      req ''model'' (nullable TStr), req ''request_tokens'' TNum, req ''response_tokens'' TNum,
      req ''latency_ms'' TNum, req ''status_code'' TNum, req ''applied_policies'' (TList TStr),
      req ''error'' (nullable TStr), req ''created_at'' TStr]"

section \<open>The settings\<close>

definition AppSettings :: ty where
  "AppSettings = TObj
     [req ''chat_theme'' TStr, req ''app_name'' TStr, req ''app_logo'' TStr,
      req ''app_logo_url'' TStr, req ''app_tagline'' TStr, req ''chat_welcome_title'' TStr,
      req ''chat_welcome_subtitle'' TStr, req ''chat_placeholder'' TStr,
      req ''chat_send_label'' TStr]"

section \<open>Interfaces of single pages\<close>

definition Summary :: ty where
  "Summary = TObj
     [req ''requests'' TNum, req ''tokens'' TNum, req ''avg_latency_ms'' TNum,
      req ''p95_latency_ms'' TNum, req ''errors'' TNum, req ''error_rate'' TNum,
      req ''estimated_cost_usd'' TNum]"

definition TsPoint :: ty where
  "TsPoint = TObj
     [req ''day'' TStr, req ''requests'' TNum, req ''tokens'' TNum]"

definition ModelRow :: ty where
  "ModelRow = TObj
     [req ''model'' TStr, req ''requests'' TNum, req ''tokens'' TNum,
      req ''estimated_cost_usd'' TNum]"

definition UserRow :: ty where
  "UserRow = TObj
     [req ''email'' TStr, req ''requests'' TNum, req ''tokens'' TNum]"

definition ConvoRow :: ty where
  "ConvoRow = TObj
     [req ''id'' TStr, req ''user_id'' TStr, req ''user_email'' TStr, req ''model'' TStr,
      req ''title'' TStr, req ''updated_at'' TStr]"

definition MsgRow :: ty where
  "MsgRow = TObj
     [req ''id'' TStr, req ''role'' TStr, req ''content'' TStr, req ''tokens'' TNum,
      req ''created_at'' TStr]"

definition ByokType :: ty where
  "ByokType = TObj
     [req ''type'' TStr, req ''name'' TStr, req ''icon'' TStr, req ''placeholder'' TStr,
      req ''consoleUrl'' TStr, req ''consoleLabel'' TStr, req ''steps'' (TList TStr)]"

definition ApiResponse :: ty where
  "ApiResponse = TObj
     [req ''status'' TNum, req ''headers'' (TMap TStr), req ''body'' TStr, req ''time_ms'' TNum,
      req ''size_bytes'' TNum]"

definition SavedRequest :: ty where
  "SavedRequest = TObj
     [req ''id'' TStr, req ''name'' TStr, req ''method'' TStr, req ''url'' TStr,
      req ''headers'' (TMap TStr), req ''body'' TStr]"

definition Job :: ty where
  "Job = TObj
     [req ''id'' TStr, req ''base_model'' TStr, req ''external_job_id'' TStr, req ''status'' TStr,
      req ''fine_tuned_model'' TStr, req ''error'' TStr, req ''created_at'' TStr]"

definition Repo :: ty where
  "Repo = TObj
     [req ''full_name'' TStr, req ''private'' TBool, req ''default_branch'' TStr,
      req ''description'' TStr]"

definition Entry :: ty where
  "Entry = TObj
     [req ''name'' TStr, req ''path'' TStr, req ''type'' TStr, req ''size'' TNum]"

definition FileContent :: ty where
  "FileContent = TObj
     [req ''path'' TStr, req ''size'' TNum, req ''content'' TStr]"

definition Project :: ty where
  "Project = TObj
     [req ''slug'' TStr, req ''name'' TStr]"

definition Issue :: ty where
  "Issue = TObj
     [req ''id'' TStr, req ''title'' TStr, req ''culprit'' TStr, req ''level'' TStr,
      req ''count'' TStr, req ''last_seen'' TStr, req ''permalink'' TStr]"

definition Explanation :: ty where
  "Explanation = TObj
     [req ''issue_id'' TStr, req ''title'' TStr, req ''permalink'' TStr, req ''answer'' TStr]"

definition Channel :: ty where
  "Channel = TObj
     [req ''id'' TStr, req ''name'' TStr, opt ''followed'' TBool]"

definition Msg :: ty where
  "Msg = TObj
     [req ''ts'' TStr, req ''user'' TStr, req ''text'' TStr]"

definition Endpoint :: ty where
  "Endpoint = TObj
     [req ''method'' TStr, req ''path'' TStr, req ''summary'' TStr]"

section \<open>Reading a member\<close>

lemma typed_object: "has_type (TObj fs) j \<Longrightarrow> \<exists>ps. j = JObj ps"
  by (cases j) auto

lemma typed_member:
  assumes "has_type (TObj fs) j" and "(k, False, t) \<in> set fs"
  shows "\<exists>v. jprop k j = Some v \<and> has_type t v"
proof -
  obtain ps where "j = JObj ps" using typed_object [OF assms(1)] by blast
  then show ?thesis using assms by (force simp: list_all_iff split: option.splits)
qed

lemma typed_str:
  assumes "has_type (TObj fs) j" and "(k, False, TStr) \<in> set fs"
  shows "jprop k j = Some (JStr (str_field k j))"
proof -
  obtain v where "jprop k j = Some v" "has_type TStr v" using typed_member [OF assms] by blast
  then show ?thesis by (cases v) (simp_all add: str_field_def)
qed

lemma typed_bool:
  assumes "has_type (TObj fs) j" and "(k, False, TBool) \<in> set fs"
  shows "jprop k j = Some (JBool (bool_field k j))"
proof -
  obtain v where "jprop k j = Some v" "has_type TBool v" using typed_member [OF assms] by blast
  then show ?thesis by (cases v) (simp_all add: bool_field_def)
qed

lemma typed_nullable_str:
  assumes "has_type (TObj fs) j" and "(k, False, nullable TStr) \<in> set fs"
  shows "jprop k j = Some (if jprop k j = Some JNull then JNull else JStr (str_field k j))"
proof -
  obtain v where "jprop k j = Some v" "has_type (nullable TStr) v" using typed_member [OF assms] by blast
  then show ?thesis by (cases v) (simp_all add: str_field_def nullable_def)
qed

text \<open>A created user is a user.\<close>

lemma created_user_typed: "has_type UserCreateResult j \<Longrightarrow> has_type User j"
  by (cases j) (simp_all add: UserCreateResult_def User_def del: js_Cons)

end
