(* ===== verification/Typed_Answers.thy ===== *)
theory Typed_Answers
  imports Panel_Types Chat_Facts
begin

text \<open>
  What the declared types are worth on the chat page: from an answer of the declared type the page
  reads exactly the members it names, and as long as uploads are answered with attachments of the
  declared type, no attachment can break the rendering.
\<close>

section \<open>Typed records\<close>

lemmas interface_defs = Provider_def Conversation_def Message_def Attachment_def req_def opt_def

text \<open>From a provider, a conversation and a message of their declared types the chat page reads
  exactly the members of the object: each text and each truth value it keeps is the stored one, and the
  provider of a conversation is the stored text, or empty where the server stores none.\<close>

theorem typed_answers_are_read:
  assumes "has_type Provider p" and "has_type Conversation c" and "has_type Message m"
  shows "jprop (js ''id'') p = Some (JStr (prov_id (provider_of p)))
    \<and> jprop (js ''name'') p = Some (JStr (prov_name (provider_of p)))
    \<and> jprop (js ''auth_mode'') p = Some (JStr (auth_mode (provider_of p)))
    \<and> jprop (js ''has_api_key'') p = Some (JBool (has_api_key (provider_of p)))
    \<and> jprop (js ''default_model'') p = Some (JStr (default_model (provider_of p)))
    \<and> jprop (js ''is_active'') p = Some (JBool (prov_active (provider_of p)))
    \<and> jprop (js ''connected'') p = Some (JBool (connected (provider_of p)))
    \<and> jprop (js ''own_key'') p = Some (JBool (own_key (provider_of p)))
    \<and> jprop (js ''id'') c = Some (JStr (conv_id (conversation_of c)))
    \<and> jprop (js ''provider_id'') c = Some (if jprop (js ''provider_id'') c = Some JNull then JNull
        else JStr (conv_provider (conversation_of c)))
    \<and> jprop (js ''model'') c = Some (JStr (conv_model (conversation_of c)))
    \<and> jprop (js ''title'') c = Some (JStr (conv_title (conversation_of c)))
    \<and> jprop (js ''id'') m = Some (JStr (msg_id (message_of m)))
    \<and> jprop (js ''role'') m = Some (JStr (msg_role (message_of m)))
    \<and> jprop (js ''content'') m = Some (JStr (msg_content (message_of m)))"
proof -
  have typed: "has_type (TObj (members Provider)) p" "has_type (TObj (members Conversation)) c"
    "has_type (TObj (members Message)) m"
    using assms by (simp_all only: Provider_def Conversation_def Message_def members.simps)
  note reads = typed [THEN typed_str] typed [THEN typed_bool] typed [THEN typed_nullable_str]
  show ?thesis
    unfolding provider_of_def conversation_of_def message_of_def provider.simps conversation.simps message.simps
    by (intro conjI; rule reads; simp add: interface_defs del: js_Cons)
qed

section \<open>Typed attachments\<close>

text \<open>What the server promises about uploads to a conversation.\<close>

definition uploads_typed :: "'w env \<Rightarrow> bool" where
  "uploads_typed E \<longleftrightarrow> (\<forall>i f (s :: 'w chat) v s1.
     uploadFile E (conv_path i @ js ''/upload'') [(js ''file'', FFile f)] True s = (Inr v, s1)
     \<longrightarrow> (\<exists>a. v = Some a \<and> has_type Attachment a))"

definition atts_typed :: "('w, 'm) chat_scheme \<Rightarrow> bool" where
  "atts_typed s \<longleftrightarrow> list_all (has_type Attachment) (pendingAttachments s)"

lemma atts_typed_net: "atts_typed (s\<lparr>storage := a, world := b, traffic := c\<rparr>) = atts_typed s"
  by (simp add: atts_typed_def)

lemma after_error_atts: "atts_typed s \<Longrightarrow> atts_typed (after_error E t e s)"
  by (cases t) (simp_all add: atts_typed_def handler_defs)

lemma after_value_atts: "atts_typed s \<Longrightarrow> (\<forall>f i. t \<noteq> AttachUpload f i) \<Longrightarrow> atts_typed (after_value E t v s)"
  by (cases t) (simp_all add: atts_typed_def handler_defs)

lemma api_task_atts:
  assumes "atts_typed s" and "\<forall>f i. t \<noteq> AttachUpload f i"
  shows "atts_typed (case api E p opts True s of (Inl e, s1) \<Rightarrow> after_error E t e s1 | (Inr v, s1) \<Rightarrow> after_value E t v s1)"
proof -
  obtain r s1 where r: "api E p opts True s = (r, s1)" by fastforce
  from touches_same [OF api.touches r] have "atts_typed s1" using assms(1) atts_typed_net by metis
  then show ?thesis using assms(2) by (cases r) (simp_all add: r after_error_atts after_value_atts)
qed

lemma run_task_atts: "uploads_typed E \<Longrightarrow> atts_typed (s :: 'w chat) \<Longrightarrow> atts_typed (run_task E t s)"
proof (induction E t s rule: run_task.induct)
  case (1 E s)
  then show ?case by (simp add: atts_typed_def)
next
  case (2 E i breaks had s)
  then show ?case by (simp add: stream_ended_def atts_typed_def handler_defs)
next
  case (3 E i r rs breaks had s)
  then show ?case by (cases r) (simp_all add: atts_typed_def handler_defs)
next
  case (4 E i c s)
  obtain r s1 where r: "open_stream E i c True s = (r, s1)" by fastforce
  from touches_same [OF touches_open_stream r] have "atts_typed s1" using 4 atts_typed_net by metis
  then show ?case by (cases r) (auto simp: r atts_typed_def handler_defs)
next
  case (5 E f i s)
  obtain r s1 where r: "uploadFile E (conv_path i @ js ''/upload'') [(js ''file'', FFile f)] True s = (r, s1)"
    by fastforce
  from touches_same [OF upload.touches r] have s1: "atts_typed s1" using 5 atts_typed_net by metis
  have "\<exists>a. v = Some a \<and> has_type Attachment a" if "r = Inr v" for v
    using 5(1) r that unfolding uploads_typed_def by blast
  then show ?case unfolding run_task.simps r prod.case using s1
    by (cases r) (auto simp: atts_typed_def value_of_def handler_defs simp del: js_Cons)
qed (unfold run_task.simps, (rule api_task_atts, assumption, simp)+)

lemma list_all_remove_at: "list_all P xs \<Longrightarrow> list_all P (remove_at i xs)"
  by (auto simp: remove_at_def list_all_iff dest: in_set_takeD in_set_dropD)

lemma chat_step_atts: "uploads_typed E \<Longrightarrow> atts_typed (s :: 'w chat) \<Longrightarrow> atts_typed (chat_step E ev s)"
proof (cases ev)
  case (Run i)
  assume "uploads_typed E" "atts_typed s"
  then show ?thesis using run_task_atts [of E "s\<lparr>tasks := remove_at i (tasks s)\<rparr>"] Run by (simp add: atts_typed_def)
qed (auto simp: atts_typed_def handler_defs mount_def switchProvider_def openConversation_def newChat_def send_def
    logout_def clearSession_def toggleDark_def set_item_def addContext_def attachFile_def paste_def list_all_remove_at
    split: option.split)

lemma reachable_atts: "reachable E s \<Longrightarrow> uploads_typed E \<Longrightarrow> atts_typed s"
proof (induction rule: reachable.induct)
  case (start d)
  show ?case by (simp add: atts_typed_def chat_init_def doc.defs)
qed (rule chat_step_atts)

lemma typed_chip: "has_type Attachment a \<Longrightarrow> \<exists>c. chip_of a = Inr c"
  using typed_str [of "members Attachment" a "js ''content_type''"] by (simp add: interface_defs chip_of_def del: js_Cons has_type.simps(8))

text \<open>C14. Type safety of the attachments: if every answer to an upload is of the declared type, then in
  every reachable state of the chat page all pending attachments are of that type, and none of the
  attachments of the message that is composed from it, if the format can carry it (\<open>composable\<close>), throws
  when the message is rendered.\<close>

theorem typed_attachments_render:
  assumes "reachable E s" and "uploads_typed E"
    and "composable (trim (input s)) (pendingAttachments s) (pendingContexts s)"
  shows "list_all (has_type Attachment) (pendingAttachments s)
    \<and> list_all (\<lambda>c. \<exists>x. c = Inr x) (bub_atts (bubble_of busy is_last i
        (tmp_u (compose_content (trim (input s)) (pendingAttachments s) (pendingContexts s)))))"
  using reachable_atts [OF assms(1,2)] parse_compose [OF assms(3)] typed_chip
  by (auto simp: atts_typed_def bubble_of_def tmp_u_def list_all_iff)

definition typed_att :: json where
  "typed_att = JObj [(js ''url'', JStr (js ''/u/1'')), (js ''filename'', JStr (js ''a.png'')),
     (js ''content_type'', JStr (js ''image/png'')), (js ''size'', JInt 3)]"

text \<open>A server that answers every request with this attachment.\<close>

definition upload_env :: "nat env" where
  "upload_env = (demo_env [])\<lparr>fetch := \<lambda>w q. (Answered (json_answer 200 typed_att), w)\<rparr>"

lemma upload_env_answers:
  "uploadFile upload_env path form retry s = (Inr (Some typed_att), s\<lparr>traffic := traffic s @
     [(upload_request upload_env path form (getToken upload_env s), Answered (json_answer 200 typed_att))]\<rparr>)"
proof -
  have f: "fetch upload_env (world s) (upload_request upload_env path form (getToken upload_env s))
      = (Answered (json_answer 200 typed_att), world s)"
    by (simp add: upload_env_def)
  have "read_json (json_answer 200 typed_att) = Inr typed_att"
    by (rule read_json_sent) (simp_all add: json_answer_def body_bytes_def typed_att_def)
  then show ?thesis using upload.last_attempt [OF f, of retry]
    by (simp add: upload_outcome_def unauthorized_def json_answer_def res_ok_def)
qed

lemma upload_env_typed: "uploads_typed upload_env"
proof -
  have "has_type Attachment typed_att" by code_simp
  then show ?thesis by (auto simp: uploads_typed_def upload_env_answers)
qed

text \<open>A file dropped into a conversation, and its upload answered.\<close>

definition demo_file :: jsfile where
  "demo_file = \<lparr>file_name = js ''a.png'', file_type = js ''image/png'', file_bytes = []\<rparr>"

definition demo_attached :: "nat chat" where
  "demo_attached = fold (chat_step upload_env) [ModelPick (js ''p''), OpenClick (js ''c''), FilePick (Some demo_file),
     Run 1, TextInput (js ''hi'')] (chat_init demo_doc)"

lemma js_empty: "js s = [] \<longleftrightarrow> s = []"
  by (simp add: js_def)

lemma demo_attached_fields: "input demo_attached = js ''hi''" "pendingContexts demo_attached = []"
  "pendingAttachments demo_attached = [typed_att]"
  by (simp_all add: demo_attached_def chat_init_def demo_doc_def doc.defs switchProvider_def openConversation_def attachFile_def
    active_conv_def spawn_def fail_with_def upload_env_answers value_of_def remove_at_def js_empty Let_def del: js_Cons)

theorem typed_attachments_witness:
  "pendingAttachments demo_attached = [typed_att] \<and> list_all (\<lambda>c. \<exists>x. c = Inr x) (bub_atts (bubble_of True False 0
     (tmp_u (compose_content (js ''hi'') [typed_att] []))))"
proof -
  have "reachable upload_env demo_attached"
    unfolding demo_attached_def by (intro reachable_run reachable.start)
  moreover have "composable (js ''hi'') [typed_att] []" "trim (js ''hi'') = js ''hi''" by code_simp+
  ultimately show ?thesis
    using typed_attachments_render [of upload_env demo_attached] upload_env_typed by (simp add: demo_attached_fields)
qed

definition typed_provider :: json where
  "typed_provider = JObj [(js ''id'', JStr (js ''p'')), (js ''name'', JStr (js ''OpenAI'')), (js ''type'', JStr (js ''openai'')),
     (js ''auth_mode'', JStr (js ''api_key'')), (js ''has_api_key'', JBool True), (js ''base_url'', JNull),
     (js ''default_model'', JStr (js ''gpt-4o'')), (js ''is_active'', JBool True), (js ''light_model'', JNull),
     (js ''heavy_model'', JNull), (js ''route_threshold_tokens'', JInt 2000), (js ''connected'', JBool False),
     (js ''own_key'', JBool False)]"

definition typed_conversation :: json where
  "typed_conversation = JObj [(js ''id'', JStr (js ''c'')), (js ''provider_id'', JNull), (js ''model'', JStr (js ''gpt-4o'')),
     (js ''title'', JStr (js ''t''))]"

definition typed_message :: json where
  "typed_message = JObj [(js ''id'', JStr (js ''m'')), (js ''role'', JStr (js ''user'')), (js ''content'', JStr (js ''hi'')),
     (js ''tokens'', JInt 1)]"

theorem typed_answers_witness:
  "jprop (js ''name'') typed_provider = Some (JStr (prov_name (provider_of typed_provider)))
    \<and> jprop (js ''title'') typed_conversation = Some (JStr (conv_title (conversation_of typed_conversation)))
    \<and> jprop (js ''content'') typed_message = Some (JStr (msg_content (message_of typed_message)))"
proof -
  have "has_type Provider typed_provider" "has_type Conversation typed_conversation" "has_type Message typed_message"
    by code_simp+
  then show ?thesis using typed_answers_are_read by blast
qed

end
