(* ===== verification/Chat_Elements.thy ===== *)
theory Chat_Elements
  imports Chat_Facts Panel_Html
begin

text \<open>
  The elements of the chat page: what \<open>panel/components/message-content.tsx\<close> and
  \<open>panel/app/(dash)/chat/page.tsx\<close> return. Reading a member of something that has none throws while
  rendering, so the page is a sum: the error or the elements. The buttons of the code blocks have a state
  of their own, which is an argument, as are the file and the clipboard that the user chooses.
\<close>

section \<open>Messages\<close>

fun inode_el :: "inode \<Rightarrow> 'e html" where
  "inode_el (NPlain t) = Txt t"
| "inode_el (NCode k t) = El ''code'' [At ''key'' k] [Txt t]"
| "inode_el (NBold k t) = El ''strong'' [At ''key'' k] [Txt t]"
| "inode_el (NLink k href label) = El ''a'' [At ''key'' k, At ''href'' href, At ''target'' (js ''_blank''), At ''rel'' (js ''noopener noreferrer'')] [Txt label]"

definition head_class :: "nat \<Rightarrow> jstr" where
  "head_class n = (if n = 1 then (js ''text-base font-bold'') else if n = 2 then (js ''text-[0.95rem] font-semibold'') else (js ''text-sm font-semibold''))"

fun rline_el :: "rline \<Rightarrow> 'e html" where
  "rline_el (RHead k n ns) = El ''p'' [At ''key'' k, At ''class'' (head_class n)] (map inode_el ns)"
| "rline_el (RBullet k ns) = El ''div'' [At ''key'' k] [El ''span'' [] [Txt [0x2022]], El ''span'' [] (map inode_el ns)]"
| "rline_el (RGap k) = El ''div'' [At ''key'' k] []"
| "rline_el (RPara k ns) = El ''p'' [At ''key'' k] (map inode_el ns)"

fun rblock_el :: "bool \<Rightarrow> rblock \<Rightarrow> 'e html" where
  "rblock_el done_at (RCode caption code) = El ''div'' []
     [El ''div'' [] [El ''span'' [] [Txt caption],
        El ''button'' [] [Txt (if done_at then ([0x2713] @ js '' Kopyaland'' @ [0x131]) else ([0x29C9] @ js '' Kopyala''))]],
      El ''pre'' [] [El ''code'' [] [Txt code]]]"
| "rblock_el done_at (RText ls) = El ''div'' [] (map rline_el ls)"

definition content_el :: "(nat \<Rightarrow> bool) \<Rightarrow> rblock list \<Rightarrow> 'e html" where
  "content_el done_at bs = El ''div'' [] (map (\<lambda>(i, b). rblock_el (done_at i) b) (enumerate 0 bs))"

fun chip_el :: "bool \<Rightarrow> chip \<Rightarrow> 'e html" where
  "chip_el mine (ImageChip url name) = El ''img'' [At ''src'' url, At ''alt'' name] []"
| "chip_el mine (FileChip url name) = El ''a'' [At ''href'' url, At ''download'' name, At ''target'' (js ''_blank''), At ''rel'' (js ''noopener noreferrer''),
     At ''class'' (if mine then (js ''bg-white/20 text-white hover:bg-white/30'')
       else (js ''bg-slate-100 dark:bg-slate-700 text-slate-600 dark:text-slate-300 hover:bg-slate-200 dark:hover:bg-slate-600''))]
     [Txt ([0xD83D, 0xDCCE] @ js '' ''), Txt name]"

definition shown_el :: "(nat \<Rightarrow> bool) \<Rightarrow> shown \<Rightarrow> 'e html list" where
  "shown_el done_at t = (case t of Blank \<Rightarrow> [] | Plain u \<Rightarrow> [El ''span'' [] [Txt u]] | Rendered bs \<Rightarrow> [content_el done_at bs])"

definition bubble_el :: "(nat \<Rightarrow> bool) \<Rightarrow> bool \<Rightarrow> bubble \<Rightarrow> err + chat_event html" where
  "bubble_el done_at no_content b = (case settled (bub_atts b) of
       Inl e \<Rightarrow> Inl e
     | Inr chips \<Rightarrow> Inr (El ''div'' [At ''key'' (bub_key b), At ''class'' (if bub_mine b then (js ''justify-end'') else (js ''justify-start''))]
         [El ''div'' [At ''class'' (if bub_mine b then (js ''bg-brand text-white'')
              else (js ''border border-slate-200 dark:border-slate-700 bg-white dark:bg-slate-800 text-slate-800 dark:text-slate-200'')),
            At ''class'' (if bub_caret b \<and> no_content then (js ''caret'') else [])]
           (shown_el done_at (bub_text b)
            @ shown_if (chips \<noteq> []) [El ''div'' [At ''class'' (if bub_text b \<noteq> Blank then (js ''mt-2 pt-2 border-t border-white/20'') else [])]
                (map (chip_el (bub_mine b)) chips)]
            @ shown_if (bub_caret b \<and> \<not> no_content) [El ''span'' [At ''class'' (js ''caret'')] []])]))"

definition message_el :: "(nat \<Rightarrow> nat \<Rightarrow> bool) \<Rightarrow> ('w, 'm) chat_scheme \<Rightarrow> nat \<Rightarrow> message \<Rightarrow> err + chat_event html" where
  "message_el done_at s i m = bubble_el (done_at i) (msg_content m = [])
     (bubble_of (sending s) (Suc i = length (messages s)) i m)"

definition thread_el :: "settings \<Rightarrow> (nat \<Rightarrow> nat \<Rightarrow> bool) \<Rightarrow> ('w, 'm) chat_scheme \<Rightarrow> err + chat_event html list" where
  "thread_el st done_at s = (if messages s = [] \<and> active_conv s = []
     then Inr [El ''div'' [] [El ''div'' [] [], El ''p'' [] [Txt (setting (js ''chat_welcome_title'') st)],
       El ''p'' [] [Txt (setting (js ''chat_welcome_subtitle'') st)]]]
     else settled (map (\<lambda>(i, m). message_el done_at s i m) (enumerate 0 (messages s))))"

section \<open>The conversations\<close>

definition conversation_button :: "('w, 'm) chat_scheme \<Rightarrow> conversation \<Rightarrow> chat_event html" where
  "conversation_button s c = El ''button'' [At ''key'' (conv_id c), click (OpenClick (conv_id c)),
      At ''class'' (if activeId s = Some (conv_id c) then (js ''bg-brand/10 dark:bg-brand/20 font-medium'')
        else (js ''hover:bg-slate-50 dark:hover:bg-slate-800''))]
     [El ''p'' [] [Txt (conv_title c)], El ''p'' [] [Txt (conv_model c)]]"

definition history_el :: "'w env \<Rightarrow> ('w, 'm) chat_scheme \<Rightarrow> chat_event html" where
  "history_el E s = (let admin = is_admin E s; cs = filteredConvos E s in El ''div'' []
     [El ''div'' []
        [El ''a'' [At ''href'' (if admin then (js ''/dashboard'') else (js ''/chat'')), At ''title'' (if admin then (js ''Panele d'' @ [0xF6] @ js ''n'') else (js ''RafineAI''))]
           [El ''span'' [] [say ''R''], El ''span'' [] [say ''RafineAI'']],
         El ''button'' [click NewClick, At ''title'' (js ''Yeni sohbet'')] [say ''+'']],
      El ''div'' [] [input_el [At ''placeholder'' (js ''Sohbet ara'' @ [0x2026])] (search s) SearchInput],
      El ''div'' [] (shown_if (cs = []) [El ''p'' [] [Txt (if search s \<noteq> [] then (js ''Bulunamad'' @ [0x131] @ js ''.'') else (js ''Hen'' @ [0xFC] @ js ''z sohbet yok.''))]]
        @ map (conversation_button s) cs),
      El ''div'' []
        (shown_if (\<not> admin) [El ''a'' [At ''href'' (js ''/connections''), At ''title'' (js ''Ba'' @ [0x11F] @ js ''lant'' @ [0x131] @ js ''lar'' @ [0x131] @ js ''m'')] []]
         @ [El ''button'' [click DarkClick, At ''title'' (if dark s then (js ''A'' @ [0xE7, 0x131] @ js ''k tema'') else (js ''Koyu tema''))]
              [El ''svg'' [At ''name'' (if dark s then (js ''sun'') else (js ''moon''))] []],
            El ''button'' [click LogoutClick, At ''title'' ([0xC7, 0x131] @ js ''k'' @ [0x131, 0x15F])] []])])"

section \<open>The model selector\<close>

definition model_button :: "jstr \<Rightarrow> provider \<Rightarrow> chat_event html" where
  "model_button cur p = El ''button'' [At ''key'' (prov_id p), click (ModelPick (prov_id p)),
      At ''class'' (if cur = prov_id p then (js ''bg-brand/5 dark:bg-brand/10'') else [])]
     (El ''div'' [] [El ''p'' [] [Txt (prov_name p)], El ''p'' [] [Txt (default_model p)]]
      # shown_if (cur = prov_id p) [El ''span'' [] [Txt [0x2713]]])"

definition model_el :: "('w, 'm) chat_scheme \<Rightarrow> chat_event html" where
  "model_el s = (let us = filter usable (providers s) in
     if us = [] then El ''span'' [] [Txt (js ''Kullan'' @ [0x131] @ js ''labilir model yok. ''), link_el (js ''/connections'') [Txt (js ''Kendi hesab'' @ [0x131] @ js ''n'' @ [0x131] @ js '' ba'' @ [0x11F] @ js ''la'')]]
     else El ''div'' []
       (El ''button'' [click ModelToggle]
          ([El ''span'' [] [Txt (case currentProvider s of None \<Rightarrow> (js ''Model se'' @ [0xE7]) | Some p \<Rightarrow> prov_name p)]]
           @ (case currentProvider s of None \<Rightarrow> [] | Some p \<Rightarrow> [El ''span'' [] [Txt ([0x2014] @ js '' ''), Txt (default_model p)]])
           @ [El ''svg'' [At ''class'' (if modelOpen s then (js ''rotate-180'') else [])] []])
        # shown_if (modelOpen s) [El ''div'' [] (map (model_button (selectedProvider s)) us)]))"

section \<open>The composer\<close>

text \<open>The chips; \<open>a.content_type.startsWith\<close> and \<open>c.label\<close> throw without the member's object.\<close>

definition attachment_chip :: "nat \<Rightarrow> json \<Rightarrow> err + chat_event html" where
  "attachment_chip i a = (case jprop (js ''content_type'') a of
       Some (JStr t) \<Rightarrow> Inr (El ''div'' [At ''key'' (dec_nat i)]
         ([Txt (if starts_with t (js ''image/'') then [0xD83D, 0xDDBC, 0xFE0F] else if t = js ''application/pdf'' then [0xD83D, 0xDCC4] else [0xD83D, 0xDCCE]),
           El ''span'' [] [Txt (str_field (js ''filename'') a)]]
          @ shown_if (truthy (jprop (js ''text_content'') a)) [El ''span'' [At ''title'' ([0x130, 0xE7] @ js ''erik '' @ [0xE7, 0x131] @ js ''kar'' @ [0x131] @ js ''ld'' @ [0x131] @ js '', LLM okuyabilir'')] [Txt [0x2713]]]
          @ [El ''button'' [click (ChipRemove i)] [Txt [0xD7]]]))
     | _ \<Rightarrow> Inl TypeErr)"

definition context_chip :: "nat \<Rightarrow> json \<Rightarrow> err + chat_event html" where
  "context_chip i c = (if c = JNull then Inl TypeErr else Inr (El ''div'' [At ''key'' (dec_nat i)]
     [El ''span'' [At ''title'' (str_field (js ''label'') c)] [Txt (str_field (js ''label'') c)],
      El ''button'' [click (ContextRemove i)] [Txt [0xD7]]]))"

definition chips_row :: "chat_event html list \<Rightarrow> chat_event html list" where
  "chips_row cs = shown_if (cs \<noteq> []) [El ''div'' [] cs]"

definition context_form :: "('w, 'm) chat_scheme \<Rightarrow> chat_event html" where
  "context_form s = (let src = List.find (\<lambda>t. src_slug t = ctxSource s) (ctxSources s) in El ''div'' []
     [El ''span'' [] [Txt (case src of None \<Rightarrow> [] | Some t \<Rightarrow> src_icon t), say '' '', Txt (case src of None \<Rightarrow> [] | Some t \<Rightarrow> src_name t)],
      input_el [At ''placeholder'' (case map_of CONTEXT_SOURCES (ctxSource s) of None \<Rightarrow> [] | Some h \<Rightarrow> h), Flag ''autofocus'' True,
        On ''keydown'' (\<lambda>_. CtxEnter)] (ctxRef s) CtxInput,
      El ''button'' [click CtxAdd, Flag ''disabled'' (ctxLoading s \<or> trim (ctxRef s) = [])] [Txt (if ctxLoading s then [0x2026] else (js ''Ekle''))],
      El ''button'' [click CtxCancel] [Txt ([0x130] @ js ''ptal'')]])"

definition context_menu :: "('w, 'm) chat_scheme \<Rightarrow> chat_event html" where
  "context_menu s = El ''div'' []
     (El ''button'' [click CtxToggle, Flag ''disabled'' (sending s), At ''title'' (js ''Ba'' @ [0x11F] @ js ''lam ekle (Web / Sentry / GitHub / Slack)'')] []
      # shown_if (ctxMenuOpen s) [El ''div'' [] (El ''p'' [] [Txt (js ''Ba'' @ [0x11F] @ js ''lam kayna'' @ [0x11F, 0x131])]
          # map (\<lambda>t. El ''button'' [At ''key'' (src_slug t), click (CtxPick (src_slug t))]
              [El ''span'' [] [Txt (src_icon t)], El ''span'' [] [Txt (src_name t)]]) (ctxSources s))])"

text \<open>The file input is hidden: its dialog opens by the button only, so its handler stands at the button.\<close>

definition write_bar :: "settings \<Rightarrow> jsfile option \<Rightarrow> int \<times> paste_item list \<Rightarrow> ('w, 'm) chat_scheme \<Rightarrow> chat_event html" where
  "write_bar st chosen clip s = El ''div'' []
     ([El ''input'' [At ''type'' (js ''file''), Flag ''hidden'' True] []]
      @ shown_if (ctxSources s \<noteq> []) [context_menu s]
      @ [El ''button'' [click (FilePick chosen), Flag ''disabled'' (uploadingFile s \<or> sending s), At ''title'' (js ''Dosya ekle'')]
           [El ''svg'' [At ''class'' (if uploadingFile s then (js ''animate-spin'') else [])] []],
         El ''textarea'' [At ''placeholder'' (setting (js ''chat_placeholder'') st), At ''value'' (input s), On ''change'' TextInput,
           On ''keydown'' (\<lambda>_. EnterKey False), On ''paste'' (\<lambda>_. Paste (fst clip) (snd clip))] [],
         El ''button'' [click SendClick, Flag ''disabled'' (sending s \<or> nothing_to_send s)]
           [Txt (if sending s then [0x2026] else setting (js ''chat_send_label'') st)]])"

definition toast_el :: "('w, 'm) chat_scheme \<Rightarrow> chat_event html list" where
  "toast_el s = (case toast s of None \<Rightarrow> [] | Some t \<Rightarrow> shown_if (t \<noteq> [])
     [El ''div'' [] [El ''span'' [] [Txt [0x26A0, 0xFE0F]], El ''span'' [] [Txt t], El ''button'' [click ToastClose] [Txt [0xD7]]]])"

section \<open>The page\<close>

definition chat_elements :: "'w env \<Rightarrow> settings \<Rightarrow> (nat \<Rightarrow> nat \<Rightarrow> bool) \<Rightarrow> jsfile option \<Rightarrow> int \<times> paste_item list
    \<Rightarrow> ('w, 'm) chat_scheme \<Rightarrow> err + chat_event html list" where
  "chat_elements E st done_at chosen clip s = (case thread_el st done_at s of Inl e \<Rightarrow> Inl e | Inr thread \<Rightarrow>
     (case settled (map (\<lambda>(i, a). attachment_chip i a) (enumerate 0 (pendingAttachments s))) of Inl e \<Rightarrow> Inl e | Inr atts \<Rightarrow>
     (case settled (map (\<lambda>(i, c). context_chip i c) (enumerate 0 (pendingContexts s))) of Inl e \<Rightarrow> Inl e | Inr ctxs \<Rightarrow>
       Inr ([history_el E s, model_el s] @ thread @ error_el (error s) @ toast_el s @ chips_row atts @ chips_row ctxs
         @ shown_if (ctxSource s \<noteq> []) [context_form s] @ [write_bar st chosen clip s]))))"

section \<open>Where the links of the page lead\<close>

definition link_to :: "(jstr \<Rightarrow> bool) \<Rightarrow> 'e html \<Rightarrow> bool" where
  "link_to P n \<longleftrightarrow> list_all P (attr_values ''href'' n)"

definition links_to :: "(jstr \<Rightarrow> bool) \<Rightarrow> 'e html list \<Rightarrow> bool" where
  "links_to P ns \<longleftrightarrow> list_all (link_to P) ns"

lemma link_to_simps [simp]:
  "link_to P (Txt t)"
  "link_to P (El tag attrs kids) \<longleftrightarrow> list_all (\<lambda>a. list_all P (attr_texts ''href'' a)) attrs \<and> links_to P kids"
  by (auto simp: link_to_def links_to_def list_all_iff)

lemma links_to_simps [simp]:
  "links_to P []" "links_to P (n # ns) \<longleftrightarrow> link_to P n \<and> links_to P ns"
  "links_to P (ns @ ms) \<longleftrightarrow> links_to P ns \<and> links_to P ms"
  "links_to P (shown_if b ns) \<longleftrightarrow> (b \<longrightarrow> links_to P ns)"
  "links_to P (map f xs) \<longleftrightarrow> (\<forall>x \<in> set xs. link_to P (f x))"
  by (auto simp: links_to_def shown_if_def list_all_iff)

lemma link_to_shapes [simp]:
  "attr_texts k (click e) = []" "link_to P (say t)" "links_to P (error_el m)"
  "link_to P (link_el u kids) \<longleftrightarrow> P u \<and> links_to P kids"
  "link_to P (input_el as v h) \<longleftrightarrow> list_all (\<lambda>a. list_all P (attr_texts ''href'' a)) as"
  by (auto simp: shape_defs say_def click_def)

lemma link_to_mono: "link_to P n \<Longrightarrow> (\<And>u. P u \<Longrightarrow> Q u) \<Longrightarrow> link_to Q n"
  by (auto simp: link_to_def list_all_iff)

text \<open>A path of the panel, a web address, or the address of an attachment of a message of the page\<close>

definition page_link :: "message list \<Rightarrow> jstr \<Rightarrow> bool" where
  "page_link ms u \<longleftrightarrow> u \<in> {js ''/dashboard'', js ''/chat'', js ''/connections''} \<or> web_address u
     \<or> (\<exists>m \<in> set ms. \<exists>a \<in> set (snd (parseMessageContent (msg_content m))). u = str_field (js ''url'') a)"

lemma inode_links: "node_safe n \<Longrightarrow> link_to web_address (inode_el n)"
  by (cases n) auto

lemma rline_links: "list_all node_safe (line_nodes l) \<Longrightarrow> link_to web_address (rline_el l)"
  by (cases l) (auto intro!: inode_links simp: list_all_iff)

lemma rblock_links: "list_all node_safe (block_nodes b) \<Longrightarrow> link_to web_address (rblock_el d b)"
  by (cases b) (auto intro!: rline_links simp: list_all_iff)

lemma content_links: "link_to web_address (content_el d (message_content t))"
  using message_content_safe [of t]
  by (auto simp: content_el_def list_all_iff in_set_enumerate_eq intro!: rblock_links)

lemma message_links:
  assumes "message_el d s i m = Inr n" and m: "m \<in> set (messages s)"
  shows "link_to (page_link (messages s)) n"
proof -
  obtain t atts where p: "parseMessageContent (msg_content m) = (t, atts)" by fastforce
  from assms obtain chips where c: "map chip_of atts = map Inr chips"
    by (auto simp: message_el_def bubble_el_def bubble_of_def p settled_Inr Let_def simp del: js_Cons split: sum.splits)
  have "link_to (page_link (messages s)) (chip_el mine x)" if "x \<in> set chips" for x mine
  proof -
    from that c have "Inr x \<in> set (map chip_of atts)" by simp
    then obtain a where "a \<in> set atts" "chip_of a = Inr x" by auto
    then show ?thesis using m p
      by (fastforce simp: chip_of_def page_link_def split: option.splits json.splits if_splits)
  qed
  moreover have "link_to (page_link (messages s)) (content_el d' (message_content t))" for d'
    by (rule link_to_mono [OF content_links]) (simp add: page_link_def)
  ultimately show ?thesis using assms c
    by (auto simp: message_el_def bubble_el_def bubble_of_def p shown_el_def Let_def simp del: js_Cons)
qed

lemma piece_links:
  "link_to (page_link ms) (history_el E s)" "link_to (page_link ms) (model_el s)"
  "attachment_chip i a = Inr n \<Longrightarrow> link_to (page_link ms) n"
  "context_chip i c = Inr n \<Longrightarrow> link_to (page_link ms) n"
  "link_to (page_link ms) (context_form s)" "link_to (page_link ms) (write_bar st f clip s)"
  "links_to (page_link ms) (toast_el s)" "links_to (page_link ms) (chips_row ns) \<longleftrightarrow> links_to (page_link ms) ns \<or> ns = []"
  by (auto simp: history_el_def conversation_button_def model_el_def model_button_def attachment_chip_def context_chip_def
      context_form_def write_bar_def context_menu_def toast_el_def chips_row_def Let_def page_link_def simp del: js_Cons
      split: option.splits json.splits if_splits)

lemma settled_links:
  assumes "settled (map f xs) = Inr ns" and "\<And>x n. x \<in> set xs \<Longrightarrow> f x = Inr n \<Longrightarrow> link_to P n"
  shows "links_to P ns"
proof -
  from assms(1) have e: "map f xs = map Inr ns" by (simp add: settled_Inr)
  have "link_to P n" if "n \<in> set ns" for n
  proof -
    from that e have "Inr n \<in> set (map f xs)" by simp
    with assms(2) show ?thesis by auto
  qed
  then show ?thesis by (simp add: links_to_def list_all_iff)
qed

lemma thread_links: "thread_el st d s = Inr ns \<Longrightarrow> links_to (page_link (messages s)) ns"
  by (auto simp: thread_el_def in_set_enumerate_eq simp del: js_Cons split: if_splits
      intro!: message_links elim!: settled_links)

text \<open>C9. Wherever the page links to: every address in its anchors is one of three paths of the panel, an
  \<open>http(s)\<close> address without blanks, or the address of an attachment that a message of the page carries.\<close>

theorem chat_page_links:
  assumes "chat_elements E st done_at chosen clip s = Inr page"
  shows "links_to (page_link (messages s)) page"
  using assms
  by (auto simp: chat_elements_def piece_links simp del: js_Cons split: sum.splits if_splits
      intro: thread_links elim!: settled_links)

section \<open>When the page renders\<close>

text \<open>The attachments that do not throw\<close>

definition typed_text :: "json \<Rightarrow> bool" where
  "typed_text a = (case jprop (js ''content_type'') a of Some (JStr t) \<Rightarrow> True | _ \<Rightarrow> False)"

lemma settled_ok: "(\<exists>ns. settled (map f xs) = Inr ns) \<longleftrightarrow> (\<forall>x \<in> set xs. \<exists>n. f x = Inr n)"
proof (induction xs)
  case (Cons x xs)
  then show ?case by (cases "f x"; cases "settled (map f xs)") auto
qed simp

lemma chip_ok: "(\<exists>c. chip_of a = Inr c) \<longleftrightarrow> typed_text a" "(\<exists>n. attachment_chip i a = Inr n) \<longleftrightarrow> typed_text a"
  "(\<exists>n. context_chip i a = Inr n) \<longleftrightarrow> a \<noteq> JNull"
  by (auto simp: chip_of_def attachment_chip_def context_chip_def typed_text_def simp del: js_Cons
      split: option.splits json.splits)

lemma message_ok: "(\<exists>n. message_el d s i m = Inr n) \<longleftrightarrow> list_all typed_text (snd (parseMessageContent (msg_content m)))"
proof -
  obtain t atts where p: "parseMessageContent (msg_content m) = (t, atts)" by fastforce
  have "(\<exists>n. message_el d s i m = Inr n) \<longleftrightarrow> (\<exists>cs. settled (map chip_of atts) = Inr cs)"
    by (auto simp: message_el_def bubble_el_def bubble_of_def p Let_def simp del: js_Cons split: sum.splits)
  then show ?thesis by (simp add: settled_ok chip_ok p list_all_iff)
qed

lemma settled_numbered:
  assumes "\<And>i x. (\<exists>n. f i x = Inr n) \<longleftrightarrow> Q x"
  shows "(\<exists>ns. settled (map (\<lambda>(i, x). f i x) (enumerate k xs)) = Inr ns) \<longleftrightarrow> list_all Q xs"
proof (induction xs arbitrary: k)
  case (Cons x xs)
  show ?case using Cons [of "Suc k"] assms [of k x]
    by (cases "f k x"; cases "settled (map (\<lambda>(i, x). f i x) (enumerate (Suc k) xs))") auto
qed simp

definition renders :: "('w, 'm) chat_scheme \<Rightarrow> bool" where
  "renders s \<longleftrightarrow> list_all (\<lambda>m. list_all typed_text (snd (parseMessageContent (msg_content m)))) (messages s)
     \<and> list_all typed_text (pendingAttachments s) \<and> JNull \<notin> set (pendingContexts s)"

lemma thread_ok: "(\<exists>ns. thread_el st d s = Inr ns)
    \<longleftrightarrow> list_all (\<lambda>m. list_all typed_text (snd (parseMessageContent (msg_content m)))) (messages s)"
  by (simp add: thread_el_def settled_numbered [OF message_ok] del: js_Cons)

lemma page_ok: "(\<exists>page. chat_elements E st d f clip s = Inr page) \<longleftrightarrow> renders s"
proof -
  have "(\<exists>page. chat_elements E st d f clip s = Inr page) \<longleftrightarrow> (\<exists>ns. thread_el st d s = Inr ns)
    \<and> (\<exists>ns. settled (map (\<lambda>(i, a). attachment_chip i a) (enumerate 0 (pendingAttachments s))) = Inr ns)
    \<and> (\<exists>ns. settled (map (\<lambda>(i, c). context_chip i c) (enumerate 0 (pendingContexts s))) = Inr ns)"
    by (auto simp: chat_elements_def split: sum.splits)
  also have "\<dots> \<longleftrightarrow> renders s"
    unfolding thread_ok settled_numbered [OF chip_ok(2)] settled_numbered [OF chip_ok(3)]
    by (auto simp: renders_def list_all_iff)
  finally show ?thesis .
qed

lemma parse_empty: "parseMessageContent [] = ([], [])"
  by code_simp



section \<open>What the page offers\<close>

lemma content_offers: "\<not> can_do (map inode_el ns) e" "\<not> does (rline_el l) e" "\<not> does (rblock_el d b) e" "\<not> can_do (shown_el dn t) e"
proof -
  have i: "\<not> does (inode_el n) e" for n by (cases n) (auto simp: can_simps)
  then show n: "\<not> can_do (map inode_el ns) e" for ns by (auto simp: can_simps)
  have l: "\<not> does (rline_el l) e" for l by (cases l) (auto simp: can_simps i)
  then show "\<not> does (rline_el l) e" .
  have b: "\<not> does (rblock_el d b) e" for d b by (cases b) (auto simp: can_simps l)
  then show "\<not> does (rblock_el d b) e" .
  show "\<not> can_do (shown_el dn t) e" by (cases t) (auto simp: shown_el_def content_el_def can_simps b)
qed

lemma thread_offers: "thread_el st d s = Inr ns \<Longrightarrow> \<not> can_do ns e"
proof -
  assume t: "thread_el st d s = Inr ns"
  have c: "\<not> does (chip_el mine x) e" for mine x by (cases x) (auto simp: can_simps)
  have m: "\<not> does n e" if "message_el d s i m = Inr n" for i m n
    using that by (auto simp: message_el_def bubble_el_def can_simps content_offers c simp del: js_Cons split: sum.splits)
  show ?thesis
  proof (cases "messages s = [] \<and> active_conv s = []")
    case False
    with t have e: "map (\<lambda>(i, m). message_el d s i m) (enumerate 0 (messages s)) = map Inr ns"
      by (auto simp: thread_el_def settled_Inr)
    have "\<not> does n e" if "n \<in> set ns" for n
    proof -
      from that e have "Inr n \<in> set (map (\<lambda>(i, m). message_el d s i m) (enumerate 0 (messages s)))" by simp
      then show ?thesis using m by auto
    qed
    then show ?thesis by (auto simp: can_do_def does_def page_offers_def)
  qed (use t in \<open>auto simp: thread_el_def can_simps simp del: js_Cons\<close>)
qed

lemma chips_offer:
  assumes "\<And>i x n. f i x = Inr n \<Longrightarrow> does n e \<longleftrightarrow> e = C i"
  shows "settled (map (\<lambda>(i, x). f i x) (enumerate k xs)) = Inr ns \<Longrightarrow> can_do ns e \<longleftrightarrow> (\<exists>i. i < length xs \<and> e = C (k + i))"
proof (induction xs arbitrary: k ns)
  case (Cons x xs)
  then obtain n ms where n: "f k x = Inr n" and ms: "settled (map (\<lambda>(i, x). f i x) (enumerate (Suc k) xs)) = Inr ms"
    and ns: "ns = n # ms" by (auto split: sum.splits elim: settled.elims)
  show ?case using Cons.IH [OF ms] assms [OF n] by (auto simp: ns can_simps less_Suc_eq_0_disj)
qed (simp add: can_simps)

lemma chip_offers:
  "attachment_chip i a = Inr n \<Longrightarrow> does n e \<longleftrightarrow> e = ChipRemove i"
  "context_chip i a = Inr n \<Longrightarrow> does n e \<longleftrightarrow> e = ContextRemove i"
  by (auto simp: attachment_chip_def context_chip_def can_simps simp del: js_Cons split: option.splits json.splits if_splits)

lemma numbered_offers:
  "settled (map (\<lambda>(i, a). attachment_chip i a) (enumerate 0 xs)) = Inr ns \<Longrightarrow> can_do ns e \<longleftrightarrow> (\<exists>i. i < length xs \<and> e = ChipRemove i)"
  "settled (map (\<lambda>(i, c). context_chip i c) (enumerate 0 xs)) = Inr ns \<Longrightarrow> can_do ns e \<longleftrightarrow> (\<exists>i. i < length xs \<and> e = ContextRemove i)"
  using chips_offer [of attachment_chip e ChipRemove 0 xs ns] chips_offer [of context_chip e ContextRemove 0 xs ns]
  by (simp_all add: chip_offers)

lemma chips_row_offers: "can_do (chips_row ns) e \<longleftrightarrow> can_do ns e"
  by (auto simp: chips_row_def can_simps)

lemma chat_offers:
  assumes "chat_elements E st d chosen clip s = Inr page"
  shows "can_do page e \<longleftrightarrow> does (history_el E s) e \<or> does (model_el s) e \<or> can_do (toast_el s) e
    \<or> (\<exists>i. i < length (pendingAttachments s) \<and> e = ChipRemove i) \<or> (\<exists>i. i < length (pendingContexts s) \<and> e = ContextRemove i)
    \<or> (ctxSource s \<noteq> [] \<and> does (context_form s) e) \<or> does (write_bar st chosen clip s) e"
  using assms thread_offers [of st d s _ e]
  by (auto simp: chat_elements_def can_simps chips_row_offers numbered_offers simp del: js_Cons split: sum.splits)

lemmas part_defs = history_el_def conversation_button_def model_el_def model_button_def toast_el_def context_form_def
  write_bar_def context_menu_def

text \<open>C20. What can be pressed on the chat page: a message can be sent exactly while none is on its way and
  something is written or attached, a file can be chosen exactly while neither a message nor a file is on
  its way, only usable models and listed conversations can be picked, and a context is added only with
  a reference and not twice.\<close>

theorem chat_controls:
  assumes "chat_elements E st d chosen clip s = Inr page"
  shows "(can_do page SendClick \<longleftrightarrow> \<not> sending s \<and> \<not> nothing_to_send s)
    \<and> (can_do page (FilePick f) \<longleftrightarrow> f = chosen \<and> \<not> sending s \<and> \<not> uploadingFile s)
    \<and> (can_do page (ModelPick i) \<longleftrightarrow> modelOpen s \<and> (\<exists>p \<in> set (providers s). usable p \<and> prov_id p = i))
    \<and> (can_do page (OpenClick i) \<longleftrightarrow> (\<exists>c \<in> set (filteredConvos E s). conv_id c = i))
    \<and> (can_do page CtxAdd \<longleftrightarrow> ctxSource s \<noteq> [] \<and> \<not> ctxLoading s \<and> trim (ctxRef s) \<noteq> [])
    \<and> (can_do page (CtxPick i) \<longleftrightarrow> ctxMenuOpen s \<and> (\<exists>t \<in> set (ctxSources s). src_slug t = i))"
  unfolding chat_offers [OF assms]
  by (intro conjI; auto simp: part_defs can_simps fires_def Let_def filter_empty_conv simp del: js_Cons split: option.splits)

text \<open>A message of a model with a link and an attachment, another attachment and a text in the composer\<close>

definition demo_text_att :: json where
  "demo_text_att = JObj [(js ''url'', JStr (js ''/u/1'')), (js ''filename'', JStr (js ''a.txt'')),
     (js ''content_type'', JStr (js ''text/plain'')), (js ''text_content'', JStr (js ''abc''))]"

definition demo_file_att :: json where
  "demo_file_att = JObj [(js ''url'', JStr (js ''/u'')), (js ''filename'', JStr (js ''f'')), (js ''content_type'', JStr (js ''t''))]"

definition demo_note :: message where
  "demo_note = \<lparr>msg_id = js ''m'', msg_role = js ''assistant'',
     msg_content = js ''[a](http://b)'' @ att_meta [demo_file_att]\<rparr>"

definition demo_page :: "nat chat" where
  "demo_page = \<lparr>storage = Map.empty, world = 0, traffic = [], html_dark = False, data_theme = None,
     providers = [], conversations = [], activeId = Some (js ''c''), messages = [demo_note], selectedProvider = [],
     input = js '' hi '', sending = False, error = [], toast = None, dark = False, search = [], modelOpen = False,
     pendingAttachments = [demo_text_att], uploadingFile = False, ctxSources = [], ctxMenuOpen = False, ctxSource = [],
     ctxRef = [], ctxLoading = False, pendingContexts = [], tasks = [], route = None\<rparr>"

definition demo_elements :: "nat chat \<Rightarrow> err + chat_event html list" where
  "demo_elements s = chat_elements (demo_env []) [] (\<lambda>_ _. False) None (0, []) s"

definition page_hrefs :: "err + chat_event html list \<Rightarrow> jstr list option" where
  "page_hrefs p = (case p of Inl e \<Rightarrow> None | Inr ns \<Rightarrow> Some (concat (map (attr_values ''href'') ns)))"

lemma demo_hrefs: "page_hrefs (demo_elements demo_page) =
    Some [js ''/chat'', js ''/connections'', js ''/connections'', js ''http://b'', js ''/u'']"
  by code_simp

lemma demo_page_shown: "\<exists>page. demo_elements demo_page = Inr page
    \<and> js ''http://b'' \<in> set (concat (map (attr_values ''href'') page))"
  using demo_hrefs by (auto simp: page_hrefs_def simp del: js_Cons set_concat split: sum.splits)

lemma demo_page_fields: "input demo_page = js '' hi ''" "pendingAttachments demo_page = [demo_text_att]" "pendingContexts demo_page = []"
    "\<not> sending demo_page" "\<not> uploadingFile demo_page" "\<not> modelOpen demo_page" "ctxSource demo_page = []"
  by (simp_all add: demo_page_def del: js_Cons)

lemma hi_facts: "trim (js '' hi '') = js ''hi''" "js ''hi'' \<noteq> []" "composable (js ''hi'') [demo_text_att] []"
  by code_simp+

theorem chat_page_links_witness:
  "\<exists>page. demo_elements demo_page = Inr page \<and> links_to (page_link [demo_note]) page
     \<and> js ''http://b'' \<in> set (concat (map (attr_values ''href'') page))"
proof -
  have m: "messages demo_page = [demo_note]" by (simp add: demo_page_def)
  from demo_page_shown obtain page where p: "demo_elements demo_page = Inr page"
    "js ''http://b'' \<in> set (concat (map (attr_values ''href'') page))" by blast
  then show ?thesis using chat_page_links [of "demo_env []" _ _ _ _ demo_page page, folded demo_elements_def] m
    unfolding demo_elements_def by fastforce
qed

theorem chat_controls_witness:
  "\<exists>page. demo_elements demo_page = Inr page \<and> can_do page SendClick \<and> can_do page (FilePick None)
     \<and> \<not> can_do page CtxAdd \<and> \<not> can_do page (ModelPick (js ''p''))"
proof -
  from demo_page_shown obtain page where p: "demo_elements demo_page = Inr page" by blast
  note f = demo_page_fields
  show ?thesis using p f hi_facts chat_controls [OF p [unfolded demo_elements_def]]
    by (auto simp: nothing_to_send_def simp del: js_Cons)
qed

text \<open>The same page with a typed mark in the composer, which throws behind Enter.\<close>

definition typed_mark :: jstr where
  "typed_mark = js ''x'' @ [10, 10] @ js ''<!--rafine-attachments:[{}]-->''"

definition demo_mark :: "nat chat" where
  "demo_mark = demo_page\<lparr>pendingAttachments := [], input := typed_mark\<rparr>"

lemma typed_mark_facts: "trim typed_mark = typed_mark" "typed_mark \<noteq> []" "parseMessageContent typed_mark = (js ''x'', [JObj []])"
    "\<not> typed_text (JObj [])" "js ''c'' \<noteq> []"
  by code_simp+

lemma demo_mark_fields: "input demo_mark = typed_mark" "pendingAttachments demo_mark = []" "pendingContexts demo_mark = []"
    "\<not> sending demo_mark" "active_conv demo_mark = js ''c''" "messages demo_mark = messages demo_page"
  by (simp_all add: demo_mark_def demo_page_def active_conv_def)


end
